(* ===== verification/FD_Base.thy ===== *)
theory FD_Base
  imports Main "HOL-Library.Multiset" "HOL-Library.Sublist" "HOL-Library.Char_ord"
    "HOL-Library.List_Lexorder"
begin

text \<open>
  Shared ground of the development: what the sources use of Go itself.

  \<^item> Go strings are byte sequences, so they are HOL's \<^typ>\<open>string\<close> (a list of 8-bit
    characters); \<open>len\<close> is \<^const>\<open>length\<close>.
  \<^item> \<open>fmt.Errorf\<close>/\<open>fmt.Sprintf\<close>/\<open>errors.New\<close> build a \<open>msg\<close>: the format text of the source and
    its arguments, not rendered, so that no claim depends on how \<open>%q\<close> or \<open>%s\<close> prints.
    Typographic dashes and arrows of the format texts are written in ASCII.
  \<^item> A Go \<open>(T, error)\<close> result is \<open>msg + T\<close>, \<open>Inl\<close> carrying the error; a bare \<open>error\<close>
    is \<open>msg option\<close>.
  \<^item> \<open>int64\<close> arithmetic that can overflow is written with \<open>i64\<close>; a \<open>time.Duration\<close> is an
    integer number of nanoseconds and \<open>time.Time\<close> the nanoseconds since Go's zero time,
    with \<open>Sub\<close> saturating as Go's does.
\<close>

section \<open>Proof-method collections\<close>

named_theorems gostr "characteristic facts of the string functions"
named_theorems gotime "characteristic facts of the time functions"

section \<open>Errors and formatted messages\<close>

datatype msg = Msg string "msgarg list" | MJoin "msg list"
and msgarg = AStr string | AQuo string | AInt int | ADur int | AErr msg | AStrs "string list"

type_synonym 'a res = "msg + 'a"

text \<open>\<open>errors.Join\<close>: \<open>nil\<close> when nothing is joined, otherwise the joined errors in order.\<close>

definition errors_Join :: "msg list \<Rightarrow> msg option" where
  "errors_Join es = (if es = [] then None else Some (MJoin es))"

lemma errors_Join_None [simp]: "errors_Join es = None \<longleftrightarrow> es = []"
  by (simp add: errors_Join_def)

text \<open>\<open>errors.Is\<close>: the error itself or one it wraps with \<open>%w\<close>.\<close>

fun errors_Is :: "msg \<Rightarrow> msg \<Rightarrow> bool"
and errors_Is_arg :: "msgarg \<Rightarrow> msg \<Rightarrow> bool" where
  "errors_Is (Msg f as) t = (Msg f as = t \<or> (\<exists>a \<in> set as. errors_Is_arg a t))"
| "errors_Is (MJoin es) t = (MJoin es = t \<or> (\<exists>e \<in> set es. errors_Is e t))"
| "errors_Is_arg (AErr e) t = errors_Is e t"
| "errors_Is_arg (AStr s) t = False"
| "errors_Is_arg (AQuo s) t = False"
| "errors_Is_arg (AInt i) t = False"
| "errors_Is_arg (ADur d) t = False"
| "errors_Is_arg (AStrs ss) t = False"

lemma errors_Is_refl [simp]: "errors_Is e e"
  by (cases e) auto

fun res_ok :: "'a res \<Rightarrow> bool" where
  "res_ok (Inl e) = False"
| "res_ok (Inr x) = True"

section \<open>Machine integers\<close>

definition i64 :: "int \<Rightarrow> int" where
  "i64 x = (x + 2 ^ 63) mod 2 ^ 64 - 2 ^ 63"

abbreviation max_i64 :: int where "max_i64 \<equiv> 2 ^ 63 - 1"
abbreviation min_i64 :: int where "min_i64 \<equiv> - (2 ^ 63)"

definition is_i64 :: "int \<Rightarrow> bool" where
  "is_i64 x \<longleftrightarrow> min_i64 \<le> x \<and> x \<le> max_i64"

lemma i64_range: "is_i64 (i64 x)"
  by (simp add: is_i64_def i64_def)

lemma i64_id: "is_i64 x \<Longrightarrow> i64 x = x"
  by (simp add: is_i64_def i64_def)

section \<open>Time\<close>

type_synonym duration = int
type_synonym gotime = int

abbreviation Microsecond :: duration where "Microsecond \<equiv> 1000"
abbreviation Millisecond :: duration where "Millisecond \<equiv> 1000000"
abbreviation Second :: duration where "Second \<equiv> 1000000000"
abbreviation Minute :: duration where "Minute \<equiv> 60000000000"
abbreviation Hour :: duration where "Hour \<equiv> 3600000000000"

text \<open>\<open>time.Time.Sub\<close> saturates at the bounds of \<open>int64\<close>.\<close>

definition time_Sub :: "gotime \<Rightarrow> gotime \<Rightarrow> duration" where
  "time_Sub t u = max min_i64 (min max_i64 (t - u))"

lemma time_Sub_exact [gotime]: "is_i64 (t - u) \<Longrightarrow> time_Sub t u = t - u"
  by (simp add: time_Sub_def is_i64_def)

lemma time_Sub_gt [gotime]: "d < max_i64 \<Longrightarrow> min_i64 \<le> d \<Longrightarrow> time_Sub t u > d \<longleftrightarrow> t - u > d"
  by (auto simp: time_Sub_def)

lemma time_Sub_antimono: "u \<le> u' \<Longrightarrow> time_Sub t u' \<le> time_Sub t u"
  by (auto simp: time_Sub_def)

section \<open>Strings\<close>

definition hasPrefix :: "string \<Rightarrow> string \<Rightarrow> bool" where
  "hasPrefix s p \<longleftrightarrow> prefix p s"

definition hasSuffix :: "string \<Rightarrow> string \<Rightarrow> bool" where
  "hasSuffix s p \<longleftrightarrow> suffix p s"

definition strings_Contains :: "string \<Rightarrow> string \<Rightarrow> bool" where
  "strings_Contains s t \<longleftrightarrow> sublist t s"

definition trimPrefix :: "string \<Rightarrow> string \<Rightarrow> string" where
  "trimPrefix s p = (if hasPrefix s p then drop (length p) s else s)"

definition trimSuffix :: "string \<Rightarrow> string \<Rightarrow> string" where
  "trimSuffix s p = (if hasSuffix s p then take (length s - length p) s else s)"

text \<open>\<open>strings.CutPrefix\<close> and \<open>strings.Cut\<close> with a one-byte separator.\<close>

definition cutPrefix :: "string \<Rightarrow> string \<Rightarrow> string \<times> bool" where
  "cutPrefix s p = (if hasPrefix s p then (drop (length p) s, True) else (s, False))"

definition cut1 :: "char \<Rightarrow> string \<Rightarrow> string \<times> string \<times> bool" where
  "cut1 c s = (let b = takeWhile (\<lambda>x. x \<noteq> c) s in
     if length b < length s then (b, drop (Suc (length b)) s, True) else (s, [], False))"

lemma cut1_found [gostr]: "c \<notin> set b \<Longrightarrow> cut1 c (b @ c # r) = (b, r, True)"
proof -
  assume "c \<notin> set b"
  then have "takeWhile (\<lambda>x. x \<noteq> c) (b @ c # r) = b"
    by (subst takeWhile_append2) auto
  then show ?thesis by (simp add: cut1_def)
qed

lemma cut1_missing [gostr]: "c \<notin> set s \<Longrightarrow> cut1 c s = (s, [], False)"
proof -
  assume "c \<notin> set s"
  then have "takeWhile (\<lambda>x. x \<noteq> c) s = s" by (auto simp: takeWhile_eq_all_conv)
  then show ?thesis unfolding cut1_def Let_def by (simp only:) simp
qed

lemma cut1_eqD: "cut1 c s = (b, r, True) \<Longrightarrow> s = b @ c # r \<and> c \<notin> set b"
proof -
  assume a: "cut1 c s = (b, r, True)"
  have "c \<in> set s"
  proof (rule ccontr)
    assume "c \<notin> set s"
    then show False using a cut1_missing by simp
  qed
  then obtain u v where s: "s = u @ c # v" "c \<notin> set u"
    by (meson split_list_first)
  then show ?thesis using a cut1_found by simp
qed

text \<open>\<open>strings.Split\<close> on a one-byte separator: always at least one piece.\<close>

fun split1 :: "char \<Rightarrow> string \<Rightarrow> string list" where
  "split1 c [] = [[]]"
| "split1 c (x # xs) =
     (if x = c then [] # split1 c xs
      else (case split1 c xs of [] \<Rightarrow> [[x]] | p # ps \<Rightarrow> (x # p) # ps))"

lemma split1_nonempty [simp]: "split1 c s \<noteq> []"
  by (induction s) (auto split: list.splits)

fun join_with :: "string \<Rightarrow> string list \<Rightarrow> string" where
  "join_with sep [] = []"
| "join_with sep [p] = p"
| "join_with sep (p # q # ps) = p @ sep @ join_with sep (q # ps)"

lemma join_with_Cons: "ps \<noteq> [] \<Longrightarrow> join_with sep (p # ps) = p @ sep @ join_with sep ps"
  by (cases ps) auto

lemma join_split1 [gostr]: "join_with [c] (split1 c s) = s"
proof (induction s)
  case Nil
  then show ?case by simp
next
  case (Cons x xs)
  obtain p ps where p: "split1 c xs = p # ps" by (meson neq_Nil_conv split1_nonempty)
  show ?case
  proof (cases "x = c")
    case True
    then show ?thesis using Cons p by simp
  next
    case False
    then show ?thesis using Cons p by (cases ps) auto
  qed
qed

lemma split1_pieces: "p \<in> set (split1 c s) \<Longrightarrow> c \<notin> set p"
proof (induction s arbitrary: p)
  case Nil
  then show ?case by simp
next
  case (Cons x xs)
  obtain q qs where q: "split1 c xs = q # qs" by (meson neq_Nil_conv split1_nonempty)
  then show ?case using Cons by (auto split: if_splits)
qed

subsection \<open>Decimal rendering and reading\<close>

fun nat_digits :: "nat \<Rightarrow> string" where
  "nat_digits n =
     (if n < 10 then [char_of (48 + n)] else nat_digits (n div 10) @ [char_of (48 + n mod 10)])"

declare nat_digits.simps [simp del]

definition go_itoa :: "int \<Rightarrow> string" where
  "go_itoa i = (if i < 0 then CHR ''-'' # nat_digits (nat (- i)) else nat_digits (nat i))"

definition is_digit :: "char \<Rightarrow> bool" where
  "is_digit c \<longleftrightarrow> 48 \<le> (of_char c :: nat) \<and> (of_char c :: nat) \<le> 57"

fun digits_val :: "nat \<Rightarrow> string \<Rightarrow> nat" where
  "digits_val acc [] = acc"
| "digits_val acc (c # cs) = digits_val (10 * acc + (of_char c - 48)) cs"

lemma digits_val_snoc [simp]:
  "digits_val acc (s @ [c]) = 10 * digits_val acc s + (of_char c - 48)"
  by (induction s arbitrary: acc) auto

lemma nat_digits_nonempty [simp]: "nat_digits n \<noteq> []"
  by (subst nat_digits.simps) simp

lemma nat_digits_all: "list_all is_digit (nat_digits n)"
proof (induction n rule: nat_digits.induct)
  case (1 n)
  have "list_all is_digit (nat_digits (n div 10))" if "\<not> n < 10"
    using 1 that by blast
  moreover have "is_digit (char_of (48 + n mod 10))" and "n < 10 \<Longrightarrow> is_digit (char_of (48 + n))"
    by (auto simp: is_digit_def)
  ultimately show ?case
    by (subst nat_digits.simps) auto
qed

lemma digits_val_nat_digits [simp]: "digits_val 0 (nat_digits n) = n"
proof (induction n rule: nat_digits.induct)
  case (1 n)
  then show ?case by (subst nat_digits.simps) auto
qed

lemma nat_digits_inj: "nat_digits m = nat_digits n \<Longrightarrow> m = n"
  by (metis digits_val_nat_digits)

section \<open>Sorting\<close>

text \<open>
  \<open>sort.Slice\<close> promises a permutation of its argument in which no later element is less than an
  earlier one, and nothing about the order of equal elements. The components that call it take
  the sorting function as an argument; \<open>slice_sort\<close> is the promise, stated for a key whose
  larger values come first (\<open>a.FinishedAt.After(b.FinishedAt)\<close>).
\<close>

lemma find_Some_split:
  "find P xs = Some y \<Longrightarrow> \<exists>us vs. xs = us @ y # vs \<and> P y \<and> (\<forall>u \<in> set us. \<not> P u)"
proof (induction xs)
  case Nil
  then show ?case by simp
next
  case (Cons x xs)
  show ?case
  proof (cases "P x")
    case True
    then have "x # xs = [] @ y # xs \<and> P y" using Cons.prems by simp
    then show ?thesis by (intro exI[of _ "[]"] exI[of _ xs]) auto
  next
    case False
    then obtain us vs where "xs = us @ y # vs" "P y" "\<forall>u \<in> set us. \<not> P u"
      using Cons by auto
    then show ?thesis using False by (intro exI[of _ "x # us"] exI[of _ vs]) auto
  qed
qed

locale slice_sort =
  fixes srt :: "'a list \<Rightarrow> 'a list" and key :: "'a \<Rightarrow> int"
  assumes perm: "mset (srt xs) = mset xs"
    and newest_first: "sorted_wrt (\<lambda>x y. key y \<le> key x) (srt xs)"
begin

lemma set_srt: "set (srt xs) = set xs"
  by (metis perm set_mset_mset)

lemma length_srt: "length (srt xs) = length xs"
  by (metis perm size_mset)

lemma srt_Nil: "srt xs = [] \<longleftrightarrow> xs = []"
  using length_srt[of xs] by auto

lemma hd_srt_max: "xs \<noteq> [] \<Longrightarrow> hd (srt xs) \<in> set xs \<and> (\<forall>x \<in> set xs. key x \<le> key (hd (srt xs)))"
proof -
  assume "xs \<noteq> []"
  then obtain y ys where y: "srt xs = y # ys" using srt_Nil by (meson neq_Nil_conv)
  then have "\<forall>x \<in> set ys. key x \<le> key y" using newest_first[of xs] by simp
  then show ?thesis using y set_srt[of xs] by auto
qed

lemma find_srt_max:
  assumes "find P (srt xs) = Some y"
  shows "y \<in> set xs \<and> P y \<and> (\<forall>x \<in> set xs. P x \<longrightarrow> key x \<le> key y)"
proof -
  obtain us vs where split: "srt xs = us @ y # vs" "P y" "\<forall>u \<in> set us. \<not> P u"
    using find_Some_split[OF assms] by blast
  then have "\<forall>x \<in> set vs. key x \<le> key y"
    using newest_first[of xs] by (simp add: sorted_wrt_append)
  then show ?thesis using split set_srt[of xs] by auto
qed

lemma find_srt_None: "find P (srt xs) = None \<longleftrightarrow> (\<forall>x \<in> set xs. \<not> P x)"
  by (auto simp: find_None_iff set_srt)

end

text \<open>The stable insertion sort Go uses on short slices keeps the promise.\<close>

definition sort_newest :: "('a \<Rightarrow> int) \<Rightarrow> 'a list \<Rightarrow> 'a list" where
  "sort_newest key xs = sort_key (\<lambda>x. - key x) xs"

interpretation newest: slice_sort "sort_newest key" key for key
proof unfold_locales
  show "mset (sort_newest key xs) = mset xs" for xs
    by (simp add: sort_newest_def)
  have "sorted (map (\<lambda>x. - key x) (sort_newest key xs))" for xs
    by (simp add: sort_newest_def)
  then show "sorted_wrt (\<lambda>x y. key y \<le> key x) (sort_newest key xs)" for xs
    by (simp add: sorted_map)
qed

section \<open>White space\<close>

text \<open>\<open>strings.TrimSpace\<close> drops Unicode white space at both ends. A Go string is bytes, so a space
  is the UTF-8 encoding of one of the white-space runes; no encoding is a prefix or a suffix of
  another, so the order of the alternatives does not matter.\<close>

definition chars :: "nat list \<Rightarrow> string" where
  "chars bs = map char_of bs"

definition space_runes :: "string list" where
  "space_runes =
     map (\<lambda>b. chars [b]) [9, 10, 11, 12, 13, 32] @ map (\<lambda>b. chars [0xC2, b]) [0x85, 0xA0] @
     [chars [0xE1, 0x9A, 0x80]] @
     map (\<lambda>b. chars [0xE2, 0x80, b])
       [0x80, 0x81, 0x82, 0x83, 0x84, 0x85, 0x86, 0x87, 0x88, 0x89, 0x8A, 0xA8, 0xA9, 0xAF] @
     [chars [0xE2, 0x81, 0x9F], chars [0xE3, 0x80, 0x80]]"

function strip_leading :: "string list \<Rightarrow> string \<Rightarrow> string" where
  "strip_leading encs s =
     (case find (\<lambda>e. e \<noteq> [] \<and> prefix e s) encs of
        None \<Rightarrow> s
      | Some e \<Rightarrow> strip_leading encs (drop (length e) s))"
  by pat_completeness auto
termination
proof (relation "measure (\<lambda>(_, s). length s)")
  fix encs s e assume "find (\<lambda>e. e \<noteq> [] \<and> prefix e s) encs = Some e"
  then have "e \<noteq> []" "prefix e s" by (auto simp: find_Some_iff)
  then show "((encs, drop (length e) s), (encs, s)) \<in> measure (\<lambda>(_, s). length s)"
    by (auto simp: prefix_def)
qed simp

declare strip_leading.simps [simp del]

definition strings_TrimSpace :: "string \<Rightarrow> string" where
  "strings_TrimSpace s = rev (strip_leading (map rev space_runes) (rev (strip_leading space_runes s)))"

lemma strip_leading_suffix: "suffix (strip_leading encs s) s"
proof (induction encs s rule: strip_leading.induct)
  case (1 encs s)
  show ?case
  proof (cases "find (\<lambda>e. e \<noteq> [] \<and> prefix e s) encs")
    case None
    then show ?thesis by (subst strip_leading.simps) simp
  next
    case (Some e)
    then have "suffix (strip_leading encs (drop (length e) s)) s"
      using 1 suffix_drop suffix_order.trans by blast
    then show ?thesis using Some by (subst strip_leading.simps) simp
  qed
qed

lemma strings_TrimSpace_sublist: "sublist (strings_TrimSpace s) s"
proof -
  define t where "t = strip_leading space_runes s"
  have "suffix (strip_leading (map rev space_runes) (rev t)) (rev t)" by (rule strip_leading_suffix)
  then have "prefix (rev (strip_leading (map rev space_runes) (rev t))) t"
    by (metis rev_rev_ident suffix_to_prefix)
  moreover have "suffix t s" unfolding t_def by (rule strip_leading_suffix)
  ultimately show ?thesis unfolding strings_TrimSpace_def t_def
    using prefix_imp_sublist suffix_imp_sublist sublist_order.order_trans by blast
qed

section \<open>The running process\<close>

text \<open>
  What a waiting loop sees of its surroundings: the clock (\<open>time.Now\<close>), \<open>time.Sleep\<close> and
  \<open>ctx.Err\<close>. Everything outside the process is a state \<open>'w\<close> that calls read and change;
  \<open>rt_clock\<close> is the documented behaviour of the clock: \<open>Sleep d\<close> returns after at least \<open>d\<close>.
\<close>

record 'w Runtime =
  rt_Now :: "'w \<Rightarrow> gotime"
  rt_Sleep :: "duration \<Rightarrow> 'w \<Rightarrow> 'w"
  rt_CtxErr :: "'w \<Rightarrow> msg option"

definition rt_clock :: "'w Runtime \<Rightarrow> bool" where
  "rt_clock rt \<longleftrightarrow> (\<forall>d w. 0 \<le> d \<longrightarrow> rt_Now rt w + d \<le> rt_Now rt (rt_Sleep rt d w))"

text \<open>A call does not turn the clock back.\<close>

definition rt_forward :: "'w Runtime \<Rightarrow> ('w \<Rightarrow> 'a \<times> 'w) \<Rightarrow> bool" where
  "rt_forward rt f \<longleftrightarrow> (\<forall>w. rt_Now rt w \<le> rt_Now rt (snd (f w)))"

text \<open>\<open>time.Duration.Round\<close>: to the nearest multiple, halves away from zero, saturating.\<close>

definition dur_Round :: "duration \<Rightarrow> duration \<Rightarrow> duration" where
  "dur_Round d m =
     (if m \<le> 0 then d
      else let r = \<bar>d\<bar> mod m in
        if d < 0 then (if 2 * r < m then d + r else max min_i64 (d - m + r))
        else (if 2 * r < m then d - r else min max_i64 (d + m - r)))"

end
