(* ===== verification/FD_Duration.thy ===== *)
theory FD_Duration
  imports FD_Base
begin

text \<open>
  Durations in drill files: \<open>Duration.UnmarshalYAML\<close> and \<open>MarshalYAML\<close> of \<^verbatim>\<open>pkg/spec/spec.go\<close>, with what they use of package \<open>time\<close>, \<open>ParseDuration\<close> and
  \<open>Duration.String\<close>. The \<open>uint64\<close> arithmetic is written out. The one floating-point step of the parser, the scaling of a decimal fraction, is an argument
  \<open>fl\<close>; the code relies on its being exact where the result is a whole number below \<open>2 ^ 53\<close>, which IEEE doubles promise (\<open>float_exact\<close>).

  The lemmas: a rendered duration is read back exactly, for every \<open>int64\<close>, the smallest included; and whatever is read is an \<open>int64\<close>.
\<close>

section \<open>Reading\<close>

fun leadingInt :: "nat \<Rightarrow> string \<Rightarrow> (nat \<times> string) option" where
  "leadingInt x [] = Some (x, [])"
| "leadingInt x (c # cs) =
     (if \<not> is_digit c then Some (x, c # cs)
      else if x > 2 ^ 63 div 10 then None
      else let y = 10 * x + (of_char c - 48) in if y > 2 ^ 63 then None else leadingInt y cs)"

fun leadingFraction :: "nat \<Rightarrow> nat \<Rightarrow> bool \<Rightarrow> string \<Rightarrow> nat \<times> nat \<times> string" where
  "leadingFraction x scale overflow [] = (x, scale, [])"
| "leadingFraction x scale overflow (c # cs) =
     (if \<not> is_digit c then (x, scale, c # cs)
      else if overflow \<or> x > (2 ^ 63 - 1) div 10 then leadingFraction x scale True cs
      else let y = 10 * x + (of_char c - 48) in
        if y > 2 ^ 63 then leadingFraction x scale True cs else leadingFraction y (scale * 10) False cs)"

definition micro :: string where "micro = chars [0xC2, 0xB5]"

definition mu :: string where "mu = chars [0xCE, 0xBC]"

definition unitMap :: "string \<Rightarrow> nat option" where
  "unitMap u =
     (if u = ''ns'' then Some 1
      else if u = ''us'' \<or> u = micro @ ''s'' \<or> u = mu @ ''s'' then Some 1000
      else if u = ''ms'' then Some 1000000
      else if u = ''s'' then Some 1000000000
      else if u = ''m'' then Some 60000000000
      else if u = ''h'' then Some 3600000000000
      else None)"

definition unit_char :: "char \<Rightarrow> bool" where
  "unit_char c \<longleftrightarrow> \<not> (c = CHR ''.'' \<or> is_digit c)"

definition bad_duration :: "string \<Rightarrow> msg" where
  "bad_duration orig = Msg ''time: invalid duration %s'' [AQuo orig]"

text \<open>The fraction after a point, its scale, the rest, and whether there was a digit.\<close>

definition fraction :: "string \<Rightarrow> nat \<times> nat \<times> string \<times> bool" where
  "fraction s =
     (case s of
        [] \<Rightarrow> (0, 1, s, False)
      | c # r \<Rightarrow> if c = CHR ''.'' then (case leadingFraction 0 1 False r of (f, scale, s1) \<Rightarrow> (f, scale, s1, length s1 \<noteq> length r))
                  else (0, 1, s, False))"

text \<open>One pass of the loop of \<open>ParseDuration\<close>, up to the sum: the value of the next part and the rest of the text.\<close>

definition dur_part :: "(nat \<Rightarrow> nat \<Rightarrow> nat \<Rightarrow> nat) \<Rightarrow> string \<Rightarrow> string \<Rightarrow> (nat \<times> string) res" where
  "dur_part fl orig s =
     (if unit_char (hd s) then Inl (bad_duration orig)
      else (case leadingInt 0 s of
        None \<Rightarrow> Inl (bad_duration orig)
      | Some (v, s1) \<Rightarrow>
         (case fraction s1 of (f, scale, s2, post) \<Rightarrow>
          if length s1 = length s \<and> \<not> post then Inl (bad_duration orig)
          else let u = takeWhile unit_char s2; s3 = dropWhile unit_char s2 in
            if u = [] then Inl (Msg ''time: missing unit in duration %s'' [AQuo orig])
            else (case unitMap u of
              None \<Rightarrow> Inl (Msg ''time: unknown unit %s in duration %s'' [AQuo u, AQuo orig])
            | Some unit \<Rightarrow>
                if v > 2 ^ 63 div unit then Inl (bad_duration orig)
                else if f > 0 then
                  (let v1 = (v * unit + fl f unit scale) mod 2 ^ 64 in if v1 > 2 ^ 63 then Inl (bad_duration orig) else Inr (v1, s3))
                else Inr (v * unit, s3)))))"

lemma leadingInt_suffix: "leadingInt x s = Some (v, r) \<Longrightarrow> suffix r s"
  by (induction x s rule: leadingInt.induct) (auto simp: Let_def suffix_Cons split: if_splits)

lemma leadingFraction_suffix: "leadingFraction x sc ov s = (f, sc1, r) \<Longrightarrow> suffix r s"
  by (induction x sc ov s rule: leadingFraction.induct) (auto simp: Let_def suffix_Cons split: if_splits)

lemma fraction_length: "fraction s = (f, sc, r, p) \<Longrightarrow> length r \<le> length s"
  by (auto simp: fraction_def split: list.splits if_splits prod.splits dest!: leadingFraction_suffix suffix_length_le)

lemma dur_part_shorter:
  assumes "dur_part fl orig s = Inr (v, r)" shows "length r < length s"
proof -
  obtain w s1 where l: "leadingInt 0 s = Some (w, s1)" using assms by (auto simp: dur_part_def split: if_splits option.splits)
  obtain f sc s2 p where f: "fraction s1 = (f, sc, s2, p)" by (metis prod.collapse)
  have "r = dropWhile unit_char s2 \<and> takeWhile unit_char s2 \<noteq> []"
    using assms l f by (auto simp: dur_part_def Let_def split: if_splits option.splits)
  then have "length r < length s2" using arg_cong[OF takeWhile_dropWhile_id[of unit_char s2], of length] by (metis length_append length_greater_0_conv less_add_same_cancel2)
  also have "\<dots> \<le> length s1" by (rule fraction_length[OF f])
  also have "\<dots> \<le> length s" using leadingInt_suffix[OF l] by (rule suffix_length_le)
  finally show ?thesis .
qed

function dur_loop :: "(nat \<Rightarrow> nat \<Rightarrow> nat \<Rightarrow> nat) \<Rightarrow> string \<Rightarrow> string \<Rightarrow> nat \<Rightarrow> nat res" where
  "dur_loop fl orig s d =
     (if s = [] then Inr d
      else (case dur_part fl orig s of
        Inl e \<Rightarrow> Inl e
      | Inr (v, r) \<Rightarrow>
         (let d1 = (d + v) mod 2 ^ 64 in if d1 > 2 ^ 63 then Inl (bad_duration orig) else dur_loop fl orig r d1)))"
  by pat_completeness auto
termination by (relation "measure (\<lambda>(fl, orig, s, d). length s)") (auto dest: dur_part_shorter)

declare dur_loop.simps [simp del]

definition ParseDuration :: "(nat \<Rightarrow> nat \<Rightarrow> nat \<Rightarrow> nat) \<Rightarrow> string \<Rightarrow> duration res" where
  "ParseDuration fl orig =
     (let signed = (orig \<noteq> [] \<and> (hd orig = CHR ''-'' \<or> hd orig = CHR ''+''));
          neg = (signed \<and> hd orig = CHR ''-'');
          s = (if signed then tl orig else orig)
      in if s = ''0'' then Inr 0
         else if s = [] then Inl (bad_duration orig)
         else (case dur_loop fl orig s 0 of
           Inl e \<Rightarrow> Inl e
         | Inr d \<Rightarrow>
             if neg then Inr (i64 (- i64 (int d)))
             else if d > 2 ^ 63 - 1 then Inl (bad_duration orig)
             else Inr (int d)))"

text \<open>\<open>node.Decode(&s)\<close> is the YAML library's: its result is an argument.\<close>

definition UnmarshalYAML :: "(nat \<Rightarrow> nat \<Rightarrow> nat \<Rightarrow> nat) \<Rightarrow> string res \<Rightarrow> duration res" where
  "UnmarshalYAML fl node =
     (case node of
        Inl e \<Rightarrow> Inl e
      | Inr s \<Rightarrow>
         (case ParseDuration fl s of
            Inl e \<Rightarrow> Inl (Msg ''invalid duration %q: %w'' [AQuo s, AErr e])
          | Inr v \<Rightarrow> Inr v))"

section \<open>Writing\<close>

text \<open>The buffer is filled from its end: an argument is what it already holds.\<close>

fun fmtInt_loop :: "string \<Rightarrow> nat \<Rightarrow> string" where
  "fmtInt_loop buf v = (if v = 0 then buf else fmtInt_loop (char_of (48 + v mod 10) # buf) (v div 10))"

declare fmtInt_loop.simps [simp del]

definition fmtInt :: "string \<Rightarrow> nat \<Rightarrow> string" where
  "fmtInt buf v = (if v = 0 then CHR ''0'' # buf else fmtInt_loop buf v)"

fun fmtFrac_loop :: "nat \<Rightarrow> bool \<Rightarrow> string \<Rightarrow> nat \<Rightarrow> bool \<times> string \<times> nat" where
  "fmtFrac_loop 0 print buf v = (print, buf, v)"
| "fmtFrac_loop (Suc i) print buf v =
     (let digit = v mod 10; print1 = (print \<or> digit \<noteq> 0)
      in fmtFrac_loop i print1 (if print1 then char_of (48 + digit) # buf else buf) (v div 10))"

definition fmtFrac :: "string \<Rightarrow> nat \<Rightarrow> nat \<Rightarrow> string \<times> nat" where
  "fmtFrac buf v prec = (case fmtFrac_loop prec False buf v of (print, b, v1) \<Rightarrow> (if print then CHR ''.'' # b else b, v1))"

definition Duration_format :: "nat \<Rightarrow> string" where
  "Duration_format u =
     (if u < 10 ^ 9 then
        (if u = 0 then ''0s''
         else (case (if u < 1000 then (0, ''ns'') else if u < 1000000 then (3, micro @ ''s'') else (6, ''ms'')) of (prec, buf) \<Rightarrow>
           (case fmtFrac buf u prec of (b, u1) \<Rightarrow> fmtInt b u1)))
      else (case fmtFrac ''s'' u 9 of (b, u1) \<Rightarrow>
        let b1 = fmtInt b (u1 mod 60); u2 = u1 div 60 in
        if u2 > 0 then
          (let b2 = fmtInt (CHR ''m'' # b1) (u2 mod 60); u3 = u2 div 60 in if u3 > 0 then fmtInt (CHR ''h'' # b2) u3 else b2)
        else b1))"

text \<open>\<open>u := uint64(d)\<close>, negated in \<open>uint64\<close> when \<open>d\<close> is negative.\<close>

definition Duration_String :: "duration \<Rightarrow> string" where
  "Duration_String d =
     (let u = d mod 2 ^ 64; b = Duration_format (nat (if d < 0 then (- u) mod 2 ^ 64 else u)) in if d < 0 then CHR ''-'' # b else b)"

definition MarshalYAML :: "duration \<Rightarrow> string" where
  "MarshalYAML d = Duration_String d"

section \<open>Digits\<close>

lemma digits_val_acc: "acc \<le> digits_val acc s"
proof (induction s arbitrary: acc)
  case (Cons c s)
  have "acc \<le> 10 * acc + (of_char c - 48)" by simp
  also have "\<dots> \<le> digits_val acc (c # s)" using Cons by simp
  finally show ?case .
qed simp

lemma leadingInt_digits:
  "list_all is_digit ds \<Longrightarrow> digits_val x ds \<le> 2 ^ 63 \<Longrightarrow> leadingInt x (ds @ r) = leadingInt (digits_val x ds) r"
proof (induction ds arbitrary: x)
  case (Cons c ds)
  let ?y = "10 * x + (of_char c - 48)"
  have "?y \<le> 2 ^ 63" using digits_val_acc[of ?y ds] Cons.prems(2) by simp
  moreover from this have "x \<le> 2 ^ 63 div 10" by simp
  ultimately show ?case using Cons by (simp add: Let_def not_less)
qed simp

lemma leadingFraction_digits:
  "list_all is_digit ds \<Longrightarrow> digits_val x ds \<le> 2 ^ 63 - 1 \<Longrightarrow>
   leadingFraction x sc False (ds @ r) = leadingFraction (digits_val x ds) (sc * 10 ^ length ds) False r"
proof (induction ds arbitrary: x sc)
  case (Cons c ds)
  let ?y = "10 * x + (of_char c - 48)"
  have "?y \<le> 2 ^ 63 - 1" using digits_val_acc[of ?y ds] Cons.prems(2) by simp
  moreover from this have "x \<le> (2 ^ 63 - 1) div 10" by simp
  ultimately show ?case using Cons by (simp add: Let_def not_less mult.assoc)
qed simp

lemma leadingInt_stop: "r = [] \<or> \<not> is_digit (hd r) \<Longrightarrow> leadingInt x r = Some (x, r)"
  by (cases r) auto

lemma leadingFraction_stop: "r = [] \<or> \<not> is_digit (hd r) \<Longrightarrow> leadingFraction x sc ov r = (x, sc, r)"
  by (cases r) auto

lemma fmtInt_loop_digits: "v > 0 \<Longrightarrow> fmtInt_loop buf v = nat_digits v @ buf"
proof (induction buf v rule: fmtInt_loop.induct)
  case (1 buf v)
  show ?case
  proof (cases "v < 10")
    case True
    then show ?thesis using 1 by (subst fmtInt_loop.simps, subst fmtInt_loop.simps, subst nat_digits.simps) simp
  next
    case False
    then have "v div 10 > 0" by simp
    then show ?thesis using 1 False by (subst fmtInt_loop.simps, subst nat_digits.simps) simp
  qed
qed

lemma fmtInt_digits: "fmtInt buf v = nat_digits v @ buf"
proof (cases "v = 0")
  case True
  have "char_of (48 :: nat) = CHR ''0''" by code_simp
  then show ?thesis using True by (subst nat_digits.simps) (simp add: fmtInt_def)
next
  case False
  then show ?thesis by (simp add: fmtInt_def fmtInt_loop_digits)
qed

lemma digit_char: "n < 10 \<Longrightarrow> is_digit (char_of (48 + n :: nat))" "n < 10 \<Longrightarrow> of_char (char_of (48 + n :: nat)) = 48 + n"
  by (auto simp: is_digit_def)

lemma fmtFrac_loop_printing:
  "\<exists>ds. fmtFrac_loop i True buf v = (True, ds @ buf, v div 10 ^ i) \<and> list_all is_digit ds \<and> length ds = i \<and> digits_val 0 ds = v mod 10 ^ i"
proof (induction i arbitrary: buf v)
  case (Suc i)
  let ?c = "char_of (48 + v mod 10)"
  obtain ds where ds: "fmtFrac_loop i True (?c # buf) (v div 10) = (True, ds @ ?c # buf, v div 10 div 10 ^ i)" "list_all is_digit ds" "length ds = i"
    "digits_val 0 ds = v div 10 mod 10 ^ i" using Suc by blast
  have "digits_val 0 (ds @ [?c]) = v mod 10 ^ Suc i"
    using ds(4) by (simp add: mod_mult2_eq digit_char(2))
  then show ?case using ds by (intro exI[of _ "ds @ [?c]"]) (simp add: div_mult2_eq digit_char)
qed simp

lemma fmtFrac_loop_digits:
  "(v mod 10 ^ i = 0 \<longrightarrow> fmtFrac_loop i False buf v = (False, buf, v div 10 ^ i)) \<and>
   (v mod 10 ^ i \<noteq> 0 \<longrightarrow> (\<exists>ds. fmtFrac_loop i False buf v = (True, ds @ buf, v div 10 ^ i) \<and> list_all is_digit ds \<and> ds \<noteq> [] \<and> length ds \<le> i \<and>
      digits_val 0 ds * 10 ^ (i - length ds) = v mod 10 ^ i))"
proof (induction i arbitrary: v)
  case (Suc i)
  have m: "v mod 10 ^ Suc i = v mod 10 + 10 * (v div 10 mod 10 ^ i)" by (simp add: mod_mult2_eq)
  show ?case
  proof (cases "v mod 10 = 0")
    case True
    then show ?thesis using Suc[of "v div 10"] m
      by (auto simp: div_mult2_eq Suc_diff_le)
  next
    case False
    let ?c = "char_of (48 + v mod 10)"
    obtain ds where ds: "fmtFrac_loop i True (?c # buf) (v div 10) = (True, ds @ ?c # buf, v div 10 div 10 ^ i)" "list_all is_digit ds" "length ds = i"
      "digits_val 0 ds = v div 10 mod 10 ^ i" using fmtFrac_loop_printing by blast
    have "digits_val 0 (ds @ [?c]) = v mod 10 ^ Suc i"
      using ds(4) m by (simp add: digit_char(2))
    then show ?thesis using ds False m by (auto intro!: exI[of _ "ds @ [?c]"] simp: div_mult2_eq digit_char)
  qed
qed simp

section \<open>Round trip\<close>

definition float_exact :: "(nat \<Rightarrow> nat \<Rightarrow> nat \<Rightarrow> nat) \<Rightarrow> bool" where
  "float_exact fl \<longleftrightarrow>
     (\<forall>f unit scale. 0 < unit \<and> scale dvd unit \<and> unit < 2 ^ 53 \<and> f * (unit div scale) < 2 ^ 53 \<longrightarrow> fl f unit scale = f * (unit div scale))"

lemma unitMap_pos: "unitMap u = Some unit \<Longrightarrow> 0 < unit \<and> unit < 2 ^ 53"
  by (auto simp: unitMap_def split: if_splits)

text \<open>The text of a fraction \<open>r / unit\<close>: nothing, or a point and digits.\<close>

definition frac_text :: "nat \<Rightarrow> nat \<Rightarrow> string \<Rightarrow> bool" where
  "frac_text unit r fr \<longleftrightarrow> r < unit \<and> (r = 0 \<and> fr = [] \<or>
     (\<exists>ds. fr = CHR ''.'' # ds \<and> ds \<noteq> [] \<and> list_all is_digit ds \<and> 10 ^ length ds dvd unit \<and> r = digits_val 0 ds * (unit div 10 ^ length ds) \<and> 0 < r))"

lemma fmtFrac_text: "\<exists>fr. fmtFrac buf v i = (fr @ buf, v div 10 ^ i) \<and> frac_text (10 ^ i) (v mod 10 ^ i) fr"
proof (cases "v mod 10 ^ i = 0")
  case True
  then show ?thesis using fmtFrac_loop_digits[of v i buf] by (simp add: fmtFrac_def frac_text_def)
next
  case False
  then obtain ds where ds: "fmtFrac_loop i False buf v = (True, ds @ buf, v div 10 ^ i)" "list_all is_digit ds" "ds \<noteq> []" "length ds \<le> i"
    "digits_val 0 ds * 10 ^ (i - length ds) = v mod 10 ^ i" using fmtFrac_loop_digits[of v i buf] by blast
  have "(10 :: nat) ^ length ds dvd 10 ^ i" "(10 :: nat) ^ i div 10 ^ length ds = 10 ^ (i - length ds)"
    using ds(4) by (simp_all add: le_imp_power_dvd power_diff)
  then show ?thesis using ds False by (intro exI[of _ "CHR ''.'' # ds"]) (simp add: fmtFrac_def frac_text_def)
qed

lemma hd_nat_digits: "\<not> unit_char (hd (nat_digits v @ s))"
  using nat_digits_all[of v] by (cases "nat_digits v") (auto simp: unit_char_def nat_digits_nonempty[THEN notE])

lemma takeWhile_unit:
  assumes "list_all unit_char u" and "rest = [] \<or> \<not> unit_char (hd rest)"
  shows "takeWhile unit_char (u @ rest) = u" "dropWhile unit_char (u @ rest) = rest"
proof -
  have "takeWhile unit_char rest = []" "dropWhile unit_char rest = rest" using assms(2) by (cases rest; simp)+
  then show "takeWhile unit_char (u @ rest) = u" "dropWhile unit_char (u @ rest) = rest"
    using assms(1) by (simp_all add: list_all_iff)
qed

lemma fraction_read:
  assumes "frac_text unit r fr" and "unit < 2 ^ 53" and "u \<noteq> []" and "unit_char (hd u)"
  obtains f scale post where "fraction (fr @ u) = (f, scale, u, post)" "f = 0 \<longleftrightarrow> r = 0" "scale dvd unit" "r = f * (unit div scale)"
proof (cases "r = 0")
  case True
  then have "fr = []" using assms(1) by (auto simp: frac_text_def)
  then have "fraction (fr @ u) = (0, 1, u, False)" using assms(3,4) by (cases u) (auto simp: fraction_def unit_char_def)
  then show thesis using that True by auto
next
  case False
  then obtain ds where ds: "fr = CHR ''.'' # ds" "ds \<noteq> []" "list_all is_digit ds" "10 ^ length ds dvd unit" "r = digits_val 0 ds * (unit div 10 ^ length ds)"
    "0 < r" "r < unit" using assms(1) by (auto simp: frac_text_def)
  have "digits_val 0 ds \<le> r" using ds(5,6) by simp
  then have "digits_val 0 ds \<le> 2 ^ 63 - 1" using ds(7) assms(2) by simp
  then have "leadingFraction 0 1 False (ds @ u) = (digits_val 0 ds, 10 ^ length ds, u)"
    using leadingFraction_digits[OF ds(3), of 0 1 u] leadingFraction_stop[of u "digits_val 0 ds" "10 ^ length ds" False] assms(4)
    by (simp add: unit_char_def)
  then have "fraction (fr @ u) = (digits_val 0 ds, 10 ^ length ds, u, True)" using ds(1,2) by (simp add: fraction_def)
  then show thesis using that ds by auto
qed

lemma dur_part_read:
  assumes "float_exact fl" and "unitMap u = Some unit" and "list_all unit_char u" and "u \<noteq> []" and "rest = [] \<or> \<not> unit_char (hd rest)"
    and "frac_text unit r fr" and "v * unit + r \<le> 2 ^ 63"
  shows "dur_part fl orig (nat_digits v @ fr @ u @ rest) = Inr (v * unit + r, rest)"
proof -
  have un: "0 < unit" "unit < 2 ^ 53" using unitMap_pos[OF assms(2)] by simp_all
  have u: "u @ rest \<noteq> []" "unit_char (hd (u @ rest))" using assms(3,4) by (cases u; simp)+
  obtain f scale post where f: "fraction (fr @ u @ rest) = (f, scale, u @ rest, post)" "f = 0 \<longleftrightarrow> r = 0" "scale dvd unit" "r = f * (unit div scale)"
    using fraction_read[OF assms(6) un(2) u] by blast
  have "v * unit \<le> 2 ^ 63" using assms(7) by simp
  then have v: "v \<le> 2 ^ 63 div unit" using un(1) by (simp add: less_eq_div_iff_mult_less_eq)
  have "v \<le> v * unit" using un(1) by simp
  then have "v \<le> 2 ^ 63" using \<open>v * unit \<le> 2 ^ 63\<close> by (rule order_trans)
  moreover have "fr @ u @ rest = [] \<or> \<not> is_digit (hd (fr @ u @ rest))"
    using u assms(6) by (auto simp: frac_text_def unit_char_def is_digit_def)
  ultimately have l: "leadingInt 0 (nat_digits v @ fr @ u @ rest) = Some (v, fr @ u @ rest)"
    using leadingInt_digits[OF nat_digits_all, of 0 v "fr @ u @ rest"] leadingInt_stop by simp
  have "r < 2 ^ 53" using assms(6) un(2) by (simp add: frac_text_def)
  then have "fl f unit scale = r" using assms(1) un f(3,4) unfolding float_exact_def by metis
  moreover have "(v * unit + r) mod 2 ^ 64 = v * unit + r" using assms(7) by simp
  moreover have "length (fr @ u @ rest) \<noteq> length (nat_digits v @ fr @ u @ rest)" by simp
  ultimately show ?thesis
    unfolding dur_part_def l option.case prod.case f(1) using hd_nat_digits v f(2) assms(2,4,7) takeWhile_unit[OF assms(3,5)]
    by (simp add: Let_def not_less)
qed

lemma dur_loop_step:
  assumes "dur_part fl orig s = Inr (v, rest)" and "d + v \<le> 2 ^ 63"
  shows "dur_loop fl orig s d = dur_loop fl orig rest (d + v)"
proof -
  have "s \<noteq> []" using dur_part_shorter[OF assms(1)] by auto
  moreover have "(d + v) mod 2 ^ 64 = d + v" using assms(2) by simp
  ultimately show ?thesis using assms by (subst dur_loop.simps) (simp add: Let_def not_less)
qed

lemma dur_read:
  assumes "float_exact fl" and "unitMap u = Some unit" and "list_all unit_char u" and "u \<noteq> []" and "rest = [] \<or> \<not> unit_char (hd rest)"
    and "frac_text unit r fr" and "d + (v * unit + r) \<le> 2 ^ 63"
  shows "dur_loop fl orig (nat_digits v @ fr @ u @ rest) d = dur_loop fl orig rest (d + (v * unit + r))"
proof -
  have "v * unit + r \<le> 2 ^ 63" using assms(7) by simp
  from dur_loop_step[OF dur_part_read[OF assms(1-6) this] assms(7)] show ?thesis .
qed

lemma unit_texts:
  "list_all unit_char ''s''" "list_all unit_char ''ns''" "list_all unit_char ''ms''" "list_all unit_char (micro @ ''s'')" "list_all unit_char ''m''"
  "list_all unit_char ''h''" "micro @ ''s'' \<noteq> []"
  by code_simp+

lemma unitMap_letters: "unitMap ''s'' = Some 1000000000" "unitMap ''m'' = Some 60000000000" "unitMap ''h'' = Some 3600000000000"
  by (simp_all add: unitMap_def micro_def mu_def chars_def)

lemma unitMap_small: "unitMap ''ns'' = Some 1" "unitMap ''ms'' = Some 1000000"
  by (simp_all add: unitMap_def micro_def mu_def chars_def)

lemma unitMap_micro: "unitMap (micro @ ''s'') = Some 1000"
proof -
  have "micro @ ''s'' \<noteq> ''ns''" by code_simp
  then show ?thesis by (simp add: unitMap_def)
qed

lemma no_frac: "0 < unit \<Longrightarrow> frac_text unit 0 []"
  by (simp add: frac_text_def)

lemma dur_loop_end: "dur_loop fl orig [] d = Inr d"
  by (subst dur_loop.simps) simp

lemma read_power:
  assumes "float_exact fl" and "unitMap w = Some (10 ^ i)" and "list_all unit_char w" and "w \<noteq> []" and "fmtFrac w u i = (b, u1)"
    and "d + (n * 10 ^ i + u mod 10 ^ i) \<le> 2 ^ 63"
  shows "u1 = u div 10 ^ i" "dur_loop fl orig (fmtInt b n) d = Inr (d + (n * 10 ^ i + u mod 10 ^ i))"
proof -
  obtain fr where fr: "fmtFrac w u i = (fr @ w, u div 10 ^ i)" "frac_text (10 ^ i) (u mod 10 ^ i) fr" using fmtFrac_text by blast
  then show "u1 = u div 10 ^ i" using assms(5) by simp
  have "fmtInt b n = nat_digits n @ fr @ w @ []" using fr(1) assms(5) by (simp add: fmtInt_digits)
  then show "dur_loop fl orig (fmtInt b n) d = Inr (d + (n * 10 ^ i + u mod 10 ^ i))"
    using dur_read[OF assms(1-4) _ fr(2) assms(6), of "[]"] by (simp add: dur_loop_end)
qed

lemma read_whole:
  assumes "float_exact fl" and "unitMap [c] = Some unit" and "unit_char c" and "d + n * unit \<le> 2 ^ 63"
  shows "dur_loop fl orig (fmtInt (c # fmtInt b k) n) d = dur_loop fl orig (fmtInt b k) (d + n * unit)"
proof -
  have "fmtInt (c # fmtInt b k) n = nat_digits n @ [] @ [c] @ fmtInt b k" by (simp add: fmtInt_digits)
  moreover have "\<not> unit_char (hd (fmtInt b k))" unfolding fmtInt_digits by (rule hd_nat_digits)
  moreover have "frac_text unit 0 []" using unitMap_pos[OF assms(2)] no_frac by simp
  ultimately show ?thesis using dur_read[OF assms(1,2), of "fmtInt b k" 0 "[]" d n orig] assms(3,4) by simp
qed

lemma read_small:
  assumes "float_exact fl" and "0 < u" and "u < 10 ^ 9"
  shows "dur_loop fl orig (Duration_format u) 0 = Inr u"
proof -
  obtain prec w where w: "(prec, w) \<in> {(0, ''ns''), (3, micro @ ''s''), (6, ''ms'')}"
    and F: "Duration_format u = (case fmtFrac w u prec of (b, u1) \<Rightarrow> fmtInt b u1)"
    using assms(2,3) by (cases "u < 1000"; cases "u < 1000000") (auto simp: Duration_format_def)
  obtain b u1 where b: "fmtFrac w u prec = (b, u1)" by fastforce
  have w: "unitMap w = Some (10 ^ prec)" "list_all unit_char w" "w \<noteq> []"
    using w unit_texts unitMap_micro unitMap_small by auto
  have s: "u div 10 ^ prec * 10 ^ prec + u mod 10 ^ prec = u" by (rule div_mult_mod_eq)
  then have le: "0 + (u div 10 ^ prec * 10 ^ prec + u mod 10 ^ prec) \<le> 2 ^ 63" using assms(3) by simp
  show ?thesis using read_power(1)[OF assms(1) w b le] read_power(2)[OF assms(1) w b le, of orig] F b s by simp
qed

lemma read_large:
  assumes fl: "float_exact fl" and "10 ^ 9 \<le> u" and "u \<le> 2 ^ 63"
  shows "dur_loop fl orig (Duration_format u) 0 = Inr u"
proof -
  define sec where "sec = u div 10 ^ 9"
  define frac where "frac = u mod 10 ^ 9"
  define mins where "mins = sec div 60"
  define hr where "hr = mins div 60"
  have u: "u = sec * 10 ^ 9 + frac" by (simp add: sec_def frac_def)
  have sm: "sec = mins * 60 + sec mod 60" by (simp add: mins_def)
  have mh: "mins = hr * 60 + mins mod 60" by (simp add: hr_def)
  have t: "hr * 3600000000000 + mins mod 60 * 60000000000 + (sec mod 60 * 10 ^ 9 + frac) = u" using u sm mh by simp
  have w: "unitMap ''s'' = Some (10 ^ 9)" "''s'' \<noteq> []" using unitMap_letters by simp_all
  obtain b u1 where b: "fmtFrac ''s'' u 9 = (b, u1)" by fastforce
  have S: "dur_loop fl orig (fmtInt b (sec mod 60)) d = Inr (d + (sec mod 60 * 10 ^ 9 + frac))" if "d + (sec mod 60 * 10 ^ 9 + frac) \<le> 2 ^ 63" for d
    using read_power(2)[OF fl w(1) unit_texts(1) w(2) b, of d "sec mod 60" orig] that by (simp add: frac_def)
  have "0 + (sec * 10 ^ 9 + u mod 10 ^ 9) \<le> 2 ^ 63" using u assms(3) by (simp add: frac_def)
  from read_power(1)[OF fl w(1) unit_texts(1) w(2) b this] have u1: "u1 = sec" by (simp add: sec_def)
  have mc: "unit_char CHR ''m''" "unit_char CHR ''h''" using unit_texts by simp_all
  have M: "dur_loop fl orig (fmtInt (CHR ''m'' # fmtInt b (sec mod 60)) (mins mod 60)) d = Inr (d + mins mod 60 * 60000000000 + (sec mod 60 * 10 ^ 9 + frac))"
    if "d + mins mod 60 * 60000000000 + (sec mod 60 * 10 ^ 9 + frac) \<le> 2 ^ 63" for d
    using read_whole[OF fl unitMap_letters(2) mc(1), of d "mins mod 60" orig b "sec mod 60"] S that by simp
  have F: "Duration_format u = (let b1 = fmtInt b (sec mod 60) in
      if mins > 0 then (let b2 = fmtInt (CHR ''m'' # b1) (mins mod 60) in if hr > 0 then fmtInt (CHR ''h'' # b2) hr else b2) else b1)"
    using assms(2) b u1 by (simp add: Duration_format_def Let_def mins_def hr_def not_less)
  consider "hr > 0" "mins > 0" | "hr = 0" "mins > 0" | "mins = 0" "hr = 0" by (cases "mins > 0"; cases "hr > 0") (simp_all add: hr_def)
  then show ?thesis
  proof cases
    case 1
    then show ?thesis
      using F read_whole[OF fl unitMap_letters(3) mc(2), of 0 hr orig "CHR ''m'' # fmtInt b (sec mod 60)" "mins mod 60"] M[of "hr * 3600000000000"] t assms(3)
      by (simp add: Let_def)
  next
    case 2
    then show ?thesis using F M[of 0] t assms(3) by (simp add: Let_def)
  next
    case 3
    then show ?thesis using F S[of 0] t assms(3) by (simp add: Let_def)
  qed
qed

lemma read_format:
  assumes "float_exact fl" and "u \<le> 2 ^ 63"
  shows "dur_loop fl orig (Duration_format u) 0 = Inr u"
proof (cases "u = 0")
  case True
  then have "Duration_format u = nat_digits 0 @ [] @ ''s'' @ []"
    using fmtInt_digits[of "[]" 0] by (simp add: fmtInt_def Duration_format_def)
  then show ?thesis
    using dur_read[OF assms(1) unitMap_letters(1) unit_texts(1) _ _ no_frac, of "[]" 0 0 orig] True by (simp add: dur_loop_end)
next
  case False
  then show ?thesis using read_small[OF assms(1)] read_large[OF assms(1) _ assms(2)] by (cases "u < 10 ^ 9") (simp_all add: not_less)
qed

lemma format_hd: "Duration_format u \<noteq> [] \<and> \<not> unit_char (hd (Duration_format u))"
proof -
  have "fmtInt b n \<noteq> [] \<and> \<not> unit_char (hd (fmtInt b n))" for b n unfolding fmtInt_digits by (simp add: hd_nat_digits del: hd_append2)
  moreover have "\<not> unit_char CHR ''0''" by code_simp
  ultimately show ?thesis by (auto simp: Duration_format_def Let_def split: prod.splits)
qed

lemma read_sign:
  assumes "float_exact fl" and "u \<le> 2 ^ 63"
  shows "Duration_format u \<noteq> ''0''"
proof
  assume z: "Duration_format u = ''0''"
  have "unit_char CHR ''0'' = False" "is_digit CHR ''0''" by code_simp+
  then have "dur_part fl [] ''0'' = Inl (Msg ''time: missing unit in duration %s'' [AQuo []])"
    by (simp add: dur_part_def fraction_def)
  then have "dur_loop fl [] ''0'' 0 = Inl (Msg ''time: missing unit in duration %s'' [AQuo []])" by (subst dur_loop.simps) simp
  then show False using read_format[OF assms, of "[]"] z by simp
qed

lemma Parse_String:
  assumes "float_exact fl" and "is_i64 d"
  shows "ParseDuration fl (Duration_String d) = Inr d"
proof -
  define u where "u = nat \<bar>d\<bar>"
  have u: "u \<le> 2 ^ 63" "d \<ge> 0 \<longrightarrow> u \<le> 2 ^ 63 - 1" using assms(2) by (auto simp: u_def is_i64_def)
  have S: "Duration_String d = (if d < 0 then CHR ''-'' # Duration_format u else Duration_format u)"
  proof (cases "d < 0")
    case True
    have "(- (d mod 2 ^ 64)) mod 2 ^ 64 = (- d) mod 2 ^ 64" by (rule mod_minus_eq)
    also have "\<dots> = - d" using True assms(2) by (intro mod_pos_pos_trivial) (auto simp: is_i64_def)
    finally show ?thesis using True by (simp add: Duration_String_def Let_def u_def)
  next
    case False
    then have "d mod 2 ^ 64 = d" using assms(2) by (intro mod_pos_pos_trivial) (auto simp: is_i64_def)
    then show ?thesis using False by (simp add: Duration_String_def Let_def u_def)
  qed
  note f = read_format[OF assms(1) u(1)] read_sign[OF assms(1) u(1)] format_hd[of u]
  show ?thesis
  proof (cases "d < 0")
    case True
    have "i64 (- i64 (int u)) = d"
    proof (cases "d = min_i64")
      case True
      then have "int u = 2 ^ 63" by (simp add: u_def)
      then show ?thesis using True by (simp add: i64_def)
    next
      case False
      then have "int u = - d" "is_i64 (- d)" using True assms(2) by (auto simp: u_def is_i64_def)
      then show ?thesis using assms(2) by (simp add: i64_id)
    qed
    then show ?thesis using True S f by (simp add: ParseDuration_def Let_def)
  next
    case False
    have "unit_char CHR ''-''" "unit_char CHR ''+''" by code_simp+
    then have "hd (Duration_format u) \<noteq> CHR ''-''" "hd (Duration_format u) \<noteq> CHR ''+''" using f(3) by auto
    then show ?thesis using False S f u by (auto simp: ParseDuration_def Let_def not_less u_def)
  qed
qed

lemma ParseDuration_range: "ParseDuration fl s = Inr v \<Longrightarrow> is_i64 v"
  using i64_range by (auto simp: ParseDuration_def Let_def is_i64_def split: if_splits sum.splits)

text \<open>
  C16: durations survive the drill file. Let the scaling of fractions be exact where doubles are. A duration that is written with \<open>MarshalYAML\<close> and read with
  \<open>UnmarshalYAML\<close> is the same, for each of the \<open>2 ^ 64\<close> values; and whatever text is read, the result is an \<open>int64\<close> or an error.
\<close>

theorem duration_roundtrip:
  assumes "float_exact fl" and "is_i64 d"
  shows "UnmarshalYAML fl (Inr (MarshalYAML d)) = Inr d \<and> (\<forall>node v. UnmarshalYAML fl node = Inr v \<longrightarrow> is_i64 v)"
  using Parse_String[OF assms] ParseDuration_range by (auto simp: UnmarshalYAML_def MarshalYAML_def split: sum.splits)

definition exact_scaling :: "nat \<Rightarrow> nat \<Rightarrow> nat \<Rightarrow> nat" where
  "exact_scaling f unit scale = f * unit div scale"

lemma exact_scaling_exact: "float_exact exact_scaling"
  by (auto simp: float_exact_def exact_scaling_def div_mult_swap)

theorem duration_roundtrip_witness:
  "UnmarshalYAML exact_scaling (Inr (MarshalYAML min_i64)) = Inr min_i64 \<and> UnmarshalYAML exact_scaling (Inr (MarshalYAML (90 * Minute + 5))) = Inr (90 * Minute + 5)"
  using duration_roundtrip[OF exact_scaling_exact, of min_i64] duration_roundtrip[OF exact_scaling_exact, of "90 * Minute + 5"] by (simp add: is_i64_def)

end
