(* ===== verification/FD_Regex.thy ===== *)
theory FD_Regex
  imports FD_Base
begin

text \<open>
  The anchored regular expressions the sources compile with \<open>regexp.MustCompile\<close>
  (\<open>nameRe\<close> in \<open>pkg/spec\<close>, \<open>identRe\<close> and \<open>rowsExprRe\<close> in \<open>pkg/verify\<close>). An expression is
  a term of \<open>rx\<close>; \<open>rx_lang\<close> says which strings it stands for and \<open>rx_match\<close> decides it by
  derivatives. All classes of these expressions are ASCII, so matching bytes and matching runes
  agree, and each is anchored at both ends, so a match is membership in the language.
\<close>

datatype rx =
    RNone
  | REps
  | RCls "char \<Rightarrow> bool"
  | RSeq rx rx
  | RAlt rx rx
  | RStar rx
  | RUpto nat rx

fun lpow :: "string set \<Rightarrow> nat \<Rightarrow> string set" where
  "lpow A 0 = {[]}"
| "lpow A (Suc n) = {u @ v | u v. u \<in> A \<and> v \<in> lpow A n}"

fun rx_lang :: "rx \<Rightarrow> string set" where
  "rx_lang RNone = {}"
| "rx_lang REps = {[]}"
| "rx_lang (RCls p) = {[c] | c. p c}"
| "rx_lang (RSeq r s) = {u @ v | u v. u \<in> rx_lang r \<and> v \<in> rx_lang s}"
| "rx_lang (RAlt r s) = rx_lang r \<union> rx_lang s"
| "rx_lang (RStar r) = (\<Union>n. lpow (rx_lang r) n)"
| "rx_lang (RUpto n r) = (\<Union>k \<in> {..n}. lpow (rx_lang r) k)"

fun nullable :: "rx \<Rightarrow> bool" where
  "nullable RNone = False"
| "nullable REps = True"
| "nullable (RCls p) = False"
| "nullable (RSeq r s) = (nullable r \<and> nullable s)"
| "nullable (RAlt r s) = (nullable r \<or> nullable s)"
| "nullable (RStar r) = True"
| "nullable (RUpto n r) = True"

fun deriv :: "char \<Rightarrow> rx \<Rightarrow> rx" where
  "deriv c RNone = RNone"
| "deriv c REps = RNone"
| "deriv c (RCls p) = (if p c then REps else RNone)"
| "deriv c (RSeq r s) =
     (if nullable r then RAlt (RSeq (deriv c r) s) (deriv c s) else RSeq (deriv c r) s)"
| "deriv c (RAlt r s) = RAlt (deriv c r) (deriv c s)"
| "deriv c (RStar r) = RSeq (deriv c r) (RStar r)"
| "deriv c (RUpto 0 r) = RNone"
| "deriv c (RUpto (Suc n) r) = RSeq (deriv c r) (RUpto n r)"

fun rx_match :: "rx \<Rightarrow> string \<Rightarrow> bool" where
  "rx_match r [] = nullable r"
| "rx_match r (c # s) = rx_match (deriv c r) s"

section \<open>The matcher decides the language\<close>

lemma nullable_lang: "nullable r \<longleftrightarrow> [] \<in> rx_lang r"
proof (induction r)
  case (RStar r)
  have "[] \<in> lpow (rx_lang r) 0" by simp
  then show ?case by (auto intro!: exI[of _ 0])
next
  case (RUpto n r)
  have "[] \<in> lpow (rx_lang r) 0" by simp
  then show ?case by (auto intro!: bexI[of _ 0])
qed auto

lemma lpow_ConsD:
  "c # w \<in> lpow A k \<Longrightarrow> \<exists>u v j. w = u @ v \<and> c # u \<in> A \<and> v \<in> lpow A j \<and> j < k"
proof (induction k)
  case 0
  then show ?case by simp
next
  case (Suc k)
  then obtain x y where xy: "c # w = x @ y" "x \<in> A" "y \<in> lpow A k" by auto
  show ?case
  proof (cases x)
    case Nil
    then have "c # w \<in> lpow A k" using xy by simp
    then show ?thesis using Suc.IH less_Suc_eq by blast
  next
    case (Cons c' x')
    then have "w = x' @ y \<and> c # x' \<in> A \<and> y \<in> lpow A k \<and> k < Suc k" using xy by simp
    then show ?thesis by blast
  qed
qed

lemma lpow_ConsI: "c # u \<in> A \<Longrightarrow> v \<in> lpow A j \<Longrightarrow> c # u @ v \<in> lpow A (Suc j)"
  by (metis (mono_tags, lifting) append_Cons lpow.simps(2) mem_Collect_eq)

lemma Cons_in_seq:
  "c # w \<in> {u @ v | u v. u \<in> A \<and> v \<in> B} \<longleftrightarrow>
   ([] \<in> A \<and> c # w \<in> B) \<or> (\<exists>u v. w = u @ v \<and> c # u \<in> A \<and> v \<in> B)"
  by (auto simp: Cons_eq_append_conv)

lemma deriv_lang: "w \<in> rx_lang (deriv c r) \<longleftrightarrow> c # w \<in> rx_lang r"
proof (induction c r arbitrary: w rule: deriv.induct)
  case (4 c r s)
  then show ?case
    by (simp only: rx_lang.simps Cons_in_seq deriv.simps nullable_lang) (auto simp: 4)
next
  case (6 c r)
  show ?case
  proof
    assume "w \<in> rx_lang (deriv c (RStar r))"
    then obtain u v j where "w = u @ v" "c # u \<in> rx_lang r" "v \<in> lpow (rx_lang r) j"
      using 6 by auto
    then have "c # w \<in> lpow (rx_lang r) (Suc j)" using lpow_ConsI by simp
    then show "c # w \<in> rx_lang (RStar r)" unfolding rx_lang.simps by blast
  next
    assume "c # w \<in> rx_lang (RStar r)"
    then obtain k where "c # w \<in> lpow (rx_lang r) k" by auto
    then obtain u v j where "w = u @ v" "c # u \<in> rx_lang r" "v \<in> lpow (rx_lang r) j"
      using lpow_ConsD by blast
    then show "w \<in> rx_lang (deriv c (RStar r))" using 6 by auto
  qed
next
  case (8 c n r)
  show ?case
  proof
    assume "w \<in> rx_lang (deriv c (RUpto (Suc n) r))"
    then obtain u v j where "w = u @ v" "c # u \<in> rx_lang r" "v \<in> lpow (rx_lang r) j" "j \<le> n"
      using 8 by auto
    then have "c # w \<in> lpow (rx_lang r) (Suc j)" "Suc j \<in> {..Suc n}" using lpow_ConsI by simp_all
    then show "c # w \<in> rx_lang (RUpto (Suc n) r)" unfolding rx_lang.simps by blast
  next
    assume "c # w \<in> rx_lang (RUpto (Suc n) r)"
    then obtain k where k: "c # w \<in> lpow (rx_lang r) k" "k \<le> Suc n" by auto
    then obtain u v j where "w = u @ v" "c # u \<in> rx_lang r" "v \<in> lpow (rx_lang r) j" "j < k"
      using lpow_ConsD by blast
    then show "w \<in> rx_lang (deriv c (RUpto (Suc n) r))" using 8 k by fastforce
  qed
qed auto

theorem rx_match_lang: "rx_match r s \<longleftrightarrow> s \<in> rx_lang r"
  by (induction s arbitrary: r) (simp_all add: nullable_lang deriv_lang)

section \<open>Repetitions of one character class\<close>

lemma lpow_cls: "lpow {[c] | c. p c} n = {s. length s = n \<and> list_all p s}"
proof (induction n)
  case 0
  then show ?case by auto
next
  case (Suc n)
  have "s \<in> {u @ v | u v. u \<in> {[c] | c. p c} \<and> v \<in> {s. length s = n \<and> list_all p s}} \<longleftrightarrow>
    length s = Suc n \<and> list_all p s" for s
    by (cases s) (auto, metis append_Cons append_Nil)
  then show ?case unfolding lpow.simps Suc by blast
qed

lemma rx_lang_star_cls: "rx_lang (RStar (RCls p)) = {s. list_all p s}"
  by (auto simp: lpow_cls)

lemma rx_lang_upto_cls: "rx_lang (RUpto n (RCls p)) = {s. length s \<le> n \<and> list_all p s}"
  by (auto simp: lpow_cls)

text \<open>A literal string as an expression.\<close>

fun rx_lit :: "string \<Rightarrow> rx" where
  "rx_lit [] = REps"
| "rx_lit (c # cs) = RSeq (RCls (\<lambda>x. x = c)) (rx_lit cs)"

lemma rx_lang_lit [simp]: "rx_lang (rx_lit s) = {s}"
  by (induction s) auto

lemma rx_lang_cls_seq: "rx_lang (RSeq (RCls p) r) = {c # v | c v. p c \<and> v \<in> rx_lang r}"
proof -
  have "(\<exists>u v. s = u @ v \<and> (\<exists>c. u = [c] \<and> p c) \<and> v \<in> rx_lang r) \<longleftrightarrow>
    (\<exists>c v. s = c # v \<and> p c \<and> v \<in> rx_lang r)" for s
    by (metis append_Cons append_Nil)
  then show ?thesis unfolding rx_lang.simps(4) rx_lang.simps(3) by blast
qed

lemma rx_lang_plus_cls:
  "rx_lang (RSeq (RCls p) (RStar (RCls q))) = {s. s \<noteq> [] \<and> p (hd s) \<and> list_all q (tl s)}"
  unfolding rx_lang_cls_seq rx_lang_star_cls by (auto simp: neq_Nil_conv)

end
