(* ===== verification/FD_Path.thy ===== *)
theory FD_Path
  imports FD_Base
begin

text \<open>
  What the sources use of Go's \<open>path\<close>, \<open>path/filepath\<close> (on Unix, where the two agree) and
  \<open>unicode/utf8\<close>: \<open>Match\<close>, \<open>Base\<close>, \<open>Ext\<close>, \<open>Clean\<close>, \<open>Join\<close> and \<open>DecodeRuneInString\<close>.
  \<open>path_Match\<close> follows the library's algorithm chunk by chunk, so that the error it reports for a
  malformed glob is the library's. The main result is that whether a glob is malformed does not
  depend on the name it is matched against: a glob that \<open>Validate\<close> accepts (it probes with
  the name \<open>probe\<close>) never fails during discovery.
\<close>

section \<open>Decoding one rune\<close>

abbreviation byte :: "char \<Rightarrow> nat" where "byte c \<equiv> of_char c"

definition rune_error :: nat where "rune_error = 65533"

definition in_rng :: "nat \<Rightarrow> nat \<Rightarrow> nat \<Rightarrow> bool" where
  "in_rng lo hi b \<longleftrightarrow> lo \<le> b \<and> b \<le> hi"

text \<open>The accepted range of the second byte, by the first one.\<close>

definition second_lo :: "nat \<Rightarrow> nat" where
  "second_lo b = (if b = 224 then 160 else if b = 240 then 144 else 128)"

definition second_hi :: "nat \<Rightarrow> nat" where
  "second_hi b = (if b = 237 then 159 else if b = 244 then 143 else 191)"

fun decodeRune :: "string \<Rightarrow> nat \<times> nat" where
  "decodeRune [] = (rune_error, 0)"
| "decodeRune (c0 # cs) =
     (let b0 = byte c0 in
      if b0 < 128 then (b0, 1)
      else if in_rng 194 223 b0 then
        (case cs of
           c1 # _ \<Rightarrow> if in_rng 128 191 (byte c1)
             then ((b0 - 192) * 64 + (byte c1 - 128), 2) else (rune_error, 1)
         | _ \<Rightarrow> (rune_error, 1))
      else if in_rng 224 239 b0 then
        (case cs of
           c1 # c2 # _ \<Rightarrow>
             if in_rng (second_lo b0) (second_hi b0) (byte c1) \<and> in_rng 128 191 (byte c2)
             then ((b0 - 224) * 4096 + (byte c1 - 128) * 64 + (byte c2 - 128), 3)
             else (rune_error, 1)
         | _ \<Rightarrow> (rune_error, 1))
      else if in_rng 240 244 b0 then
        (case cs of
           c1 # c2 # c3 # _ \<Rightarrow>
             if in_rng (second_lo b0) (second_hi b0) (byte c1) \<and> in_rng 128 191 (byte c2)
               \<and> in_rng 128 191 (byte c3)
             then ((b0 - 240) * 262144 + (byte c1 - 128) * 4096 + (byte c2 - 128) * 64
                   + (byte c3 - 128), 4)
             else (rune_error, 1)
         | _ \<Rightarrow> (rune_error, 1))
      else (rune_error, 1))"

declare decodeRune.simps(2) [simp del]

lemma decodeRune_width: "s \<noteq> [] \<Longrightarrow> 0 < snd (decodeRune s)"
  by (cases s) (auto simp: decodeRune.simps Let_def split: list.splits)

lemma decodeRune_ascii: "byte c < 128 \<Longrightarrow> decodeRune (c # s) = (byte c, 1)"
  by (simp add: decodeRune.simps)

section \<open>path.Match\<close>

datatype bad_pattern = ErrBadPattern

text \<open>\<open>getEsc\<close>: a possibly escaped character of a class and the rest of the chunk, which must
  not be empty.\<close>

definition getEsc :: "string \<Rightarrow> (nat \<times> string) option" where
  "getEsc chunk =
     (if chunk = [] \<or> hd chunk = CHR ''-'' \<or> hd chunk = CHR '']'' then None
      else let c = (if hd chunk = CHR 0x5C then tl chunk else chunk) in
        if c = [] then None
        else let (r, n) = decodeRune c; rest = drop n c in
          if (r = rune_error \<and> n = 1) \<or> rest = [] then None else Some (r, rest))"

lemma getEsc_shorter: "getEsc chunk = Some (r, rest) \<Longrightarrow> length rest < length chunk \<and> rest \<noteq> []"
proof -
  assume a: "getEsc chunk = Some (r, rest)"
  define c where "c = (if hd chunk = CHR 0x5C then tl chunk else chunk)"
  have ne: "chunk \<noteq> []" "c \<noteq> []" and rest: "rest = drop (snd (decodeRune c)) c" "rest \<noteq> []"
    using a by (auto simp: getEsc_def c_def[symmetric] Let_def split: if_splits prod.splits)
  have "length rest < length c" using rest ne decodeRune_width[of c] by simp
  also have "length c \<le> length chunk" by (simp add: c_def)
  finally show ?thesis using rest by simp
qed

text \<open>
  The ranges of a class up to its closing bracket, reading the (possibly absent) rune \<open>r\<close>:
  \<open>None\<close> for a malformed class, otherwise the rest of the chunk and whether a range holds \<open>r\<close>.
\<close>

function matchClass :: "nat \<Rightarrow> bool \<Rightarrow> nat \<Rightarrow> string \<Rightarrow> (string \<times> bool) option" where
  "matchClass r matched nrange chunk =
     (if chunk \<noteq> [] \<and> hd chunk = CHR '']'' \<and> 0 < nrange then Some (tl chunk, matched)
      else case getEsc chunk of
        None \<Rightarrow> None
      | Some (lo, c1) \<Rightarrow>
          (case (if hd c1 = CHR ''-'' then getEsc (tl c1) else Some (lo, c1)) of
             None \<Rightarrow> None
           | Some (hi, c2) \<Rightarrow>
               matchClass r (matched \<or> (lo \<le> r \<and> r \<le> hi)) (Suc nrange) c2))"
  by pat_completeness auto
termination
proof (relation "measure (\<lambda>(r, m, n, chunk). length chunk)", goal_cases)
  case 1
  then show ?case by simp
next
  case (2 r matched nrange chunk p lo c1 q hi c2)
  have c1: "length c1 < length chunk" using 2 getEsc_shorter by auto
  have "length c2 \<le> length c1"
  proof (cases "hd c1 = CHR ''-''")
    case True
    then have "getEsc (tl c1) = Some (hi, c2)" using 2 by simp
    then have "length c2 < length (tl c1)" using getEsc_shorter by blast
    then show ?thesis by simp
  next
    case False
    then show ?thesis using 2 by auto
  qed
  then show ?case using c1 by simp
qed

declare matchClass.simps [simp del]

lemma matchClass_shorter: "matchClass r m n chunk = Some (rest, b) \<Longrightarrow> length rest < length chunk"
proof (induction r m n chunk rule: matchClass.induct)
  case (1 r matched nrange chunk)
  show ?case
  proof (cases "chunk \<noteq> [] \<and> hd chunk = CHR '']'' \<and> 0 < nrange")
    case True
    then show ?thesis using 1(2)
      by (cases chunk) (auto simp: matchClass.simps[of r matched nrange])
  next
    case False
    then obtain lo c1 hi c2 where e: "getEsc chunk = Some (lo, c1)"
      "(if hd c1 = CHR ''-'' then getEsc (tl c1) else Some (lo, c1)) = Some (hi, c2)"
      "matchClass r (matched \<or> (lo \<le> r \<and> r \<le> hi)) (Suc nrange) c2 = Some (rest, b)"
      using 1(2) by (subst (asm) matchClass.simps) (auto split: option.splits)
    have "length rest < length c2" using 1(1)[OF False e(1) refl e(2) refl e(3)] .
    moreover have "length c2 \<le> length c1"
      using e(2) getEsc_shorter[of "tl c1" hi c2] by (auto split: if_splits)
    ultimately show ?thesis using getEsc_shorter[OF e(1)] by simp
  qed
qed

text \<open>Whether a class is malformed, and where it ends, does not depend on the rune read.\<close>

lemma matchClass_rune_indep:
  "map_option fst (matchClass r m n chunk) = map_option fst (matchClass r' m' n chunk)"
proof (induction r m n chunk arbitrary: m' rule: matchClass.induct)
  case (1 r matched nrange chunk)
  show ?case
  proof (cases "chunk \<noteq> [] \<and> hd chunk = CHR '']'' \<and> 0 < nrange")
    case True
    then show ?thesis
      by (simp add: matchClass.simps[of r matched nrange chunk] matchClass.simps[of r' m' nrange chunk])
  next
    case False
    show ?thesis
      unfolding matchClass.simps[of r matched nrange chunk] matchClass.simps[of r' m' nrange chunk]
      using False 1 by (auto split: option.splits)
  qed
qed

text \<open>The class part of \<open>matchChunk\<close> after its opening bracket: an optional negation, then the
  ranges. The result says where the class ends and whether it accepts the rune.\<close>

definition classStep :: "nat \<Rightarrow> string \<Rightarrow> (string \<times> bool) option" where
  "classStep r chunk =
     (let negated = (chunk \<noteq> [] \<and> hd chunk = CHR 0x5E);
          chunk1 = (if negated then tl chunk else chunk)
      in map_option (\<lambda>(rest, matched). (rest, matched \<noteq> negated)) (matchClass r False 0 chunk1))"

lemma classStep_shorter:
  assumes "classStep r chunk = Some (rest, ok)"
  shows "length rest < length chunk"
proof -
  define chunk1 where "chunk1 = (if chunk \<noteq> [] \<and> hd chunk = CHR 0x5E then tl chunk else chunk)"
  obtain m where "matchClass r False 0 chunk1 = Some (rest, m)"
    using assms by (auto simp: classStep_def chunk1_def Let_def)
  then have "length rest < length chunk1" by (rule matchClass_shorter)
  also have "length chunk1 \<le> length chunk" by (simp add: chunk1_def)
  finally show ?thesis .
qed

lemma classStep_rune_indep:
  "map_option fst (classStep r chunk) = map_option fst (classStep r' chunk)"
proof -
  have "map_option fst (map_option (\<lambda>(rest, matched). (rest, matched \<noteq> neg)) x) = map_option fst x"
    for neg and x :: "(string \<times> bool) option"
    by (cases x) auto
  then show ?thesis unfolding classStep_def Let_def
    using matchClass_rune_indep[of r False 0 _ r' False] by (simp only:)
qed

text \<open>\<open>matchChunk\<close>: \<open>None\<close> for a malformed chunk, otherwise the rest of the name and whether the
  chunk matched; after a mismatch the loop only checks the rest of the chunk.\<close>

function matchChunk :: "bool \<Rightarrow> string \<Rightarrow> string \<Rightarrow> (string \<times> bool) option" where
  "matchChunk failed0 [] s = (if failed0 then Some ([], False) else Some (s, True))"
| "matchChunk failed0 (c # chunk) s =
     (let failed = (failed0 \<or> s = []) in
      if c = CHR ''['' then
        (case classStep (if failed then 0 else fst (decodeRune s)) chunk of
           None \<Rightarrow> None
         | Some (rest, ok) \<Rightarrow>
             matchChunk (failed \<or> \<not> ok) rest
               (if failed then s else drop (snd (decodeRune s)) s))
      else if c = CHR ''?'' then
        (if failed then matchChunk True chunk s
         else matchChunk (hd s = CHR ''/'') chunk (drop (snd (decodeRune s)) s))
      else if c = CHR 0x5C then
        (case chunk of
           [] \<Rightarrow> None
         | c' # chunk' \<Rightarrow>
             if failed then matchChunk True chunk' s
             else matchChunk (c' \<noteq> hd s) chunk' (tl s))
      else if failed then matchChunk True chunk s
      else matchChunk (c \<noteq> hd s) chunk (tl s))"
  by pat_completeness auto
termination
  by (relation "measure (\<lambda>(f, chunk, s). length chunk)")
    (auto dest!: classStep_shorter simp: less_Suc_eq)

declare matchChunk.simps(2) [simp del]

text \<open>Whether a chunk is malformed does not depend on the name.\<close>

lemma matchChunk_name_indep:
  "matchChunk f chunk s = None \<longleftrightarrow> matchChunk f' chunk s' = None"
proof (induction chunk arbitrary: f s f' s' rule: length_induct)
  case (1 chunk)
  then have IH: "matchChunk f ch s = None \<longleftrightarrow> matchChunk f' ch s' = None"
    if "length ch < length chunk" for ch f s f' s'
    using that by blast
  show ?case
  proof (cases chunk)
    case Nil
    then show ?thesis by auto
  next
    case (Cons c cs)
    have cls: "(case classStep r cs of None \<Rightarrow> None | Some (rest, ok) \<Rightarrow> matchChunk (F ok) rest S) = None
      \<longleftrightarrow> (case classStep r' cs of None \<Rightarrow> None | Some (rest, ok) \<Rightarrow> matchChunk (F' ok) rest S') = None"
      for r r' F F' S S'
    proof (cases "classStep r cs")
      case None
      then show ?thesis using classStep_rune_indep[of r cs r'] by simp
    next
      case (Some p)
      then obtain rest ok where p: "classStep r cs = Some (rest, ok)" by (cases p) auto
      then obtain ok' where p': "classStep r' cs = Some (rest, ok')"
        using classStep_rune_indep[of r cs r'] by (cases "classStep r' cs") auto
      have "length rest < length chunk" using classStep_shorter[OF p] Cons by simp
      then show ?thesis using p p' IH by simp
    qed
    have small: "length cs < length chunk" "\<And>d ds. cs = d # ds \<Longrightarrow> length ds < length chunk"
      using Cons by auto
    show ?thesis unfolding Cons matchChunk.simps(2) Let_def
      using cls IH[OF small(1)] IH[OF small(2)]
      by (auto split: list.splits)
  qed
qed

text \<open>\<open>scanChunk\<close>: the leading stars, the chunk up to the next star outside a class, the rest.\<close>

fun scanBody :: "bool \<Rightarrow> string \<Rightarrow> string \<times> string" where
  "scanBody inrange [] = ([], [])"
| "scanBody inrange (c # cs) =
     (if c = CHR 0x5C then
        (case cs of
           [] \<Rightarrow> ([c], [])
         | d # ds \<Rightarrow> (let (a, b) = scanBody inrange ds in (c # d # a, b)))
      else if c = CHR ''*'' \<and> \<not> inrange then ([], c # cs)
      else (let (a, b) = scanBody (if c = CHR ''['' then True
                                   else if c = CHR '']'' then False else inrange) cs
            in (c # a, b)))"

definition scanChunk :: "string \<Rightarrow> bool \<times> string \<times> string" where
  "scanChunk pattern =
     (let body = dropWhile (\<lambda>c. c = CHR ''*'') pattern
      in (pattern \<noteq> [] \<and> hd pattern = CHR ''*'', scanBody False body))"

lemma scanBody_append: "scanBody ir p = (a, b) \<Longrightarrow> p = a @ b"
  by (induction ir p arbitrary: a b rule: scanBody.induct)
    (auto split: if_splits list.splits prod.splits)

lemma scanBody_Nil: "scanBody ir p = ([], b) \<Longrightarrow> b = [] \<or> hd b = CHR ''*''"
  by (cases "(ir, p)" rule: scanBody.cases) (auto split: if_splits list.splits prod.splits)

lemma hd_dropWhile_star: "dropWhile (\<lambda>c. c = CHR ''*'') p = [] \<or> hd (dropWhile (\<lambda>c. c = CHR ''*'') p) \<noteq> CHR ''*''"
  by (metis (mono_tags, lifting) hd_dropWhile)

lemma scanChunk_Nil_chunk: "scanChunk p = (star, [], rest) \<Longrightarrow> rest = []"
proof -
  assume a: "scanChunk p = (star, [], rest)"
  define body where "body = dropWhile (\<lambda>c. c = CHR ''*'') p"
  have sb: "scanBody False body = ([], rest)" using a by (simp add: scanChunk_def body_def)
  then have "body = rest" using scanBody_append by fastforce
  then show ?thesis using scanBody_Nil[OF sb] hd_dropWhile_star[of p] body_def by auto
qed

lemma scanChunk_shorter:
  "p \<noteq> [] \<Longrightarrow> scanChunk p = (star, chunk, rest) \<Longrightarrow> length rest < length p"
proof -
  assume ne: "p \<noteq> []" and a: "scanChunk p = (star, chunk, rest)"
  define body where "body = dropWhile (\<lambda>c. c = CHR ''*'') p"
  have sb: "scanBody False body = (chunk, rest)" using a by (simp add: scanChunk_def body_def)
  then have len: "length body = length chunk + length rest" using scanBody_append by fastforce
  have "length body \<le> length p" by (simp add: body_def length_dropWhile_le)
  show ?thesis
  proof (cases "chunk = []")
    case True
    then have "rest = []" using a scanChunk_Nil_chunk by blast
    then show ?thesis using ne by simp
  next
    case False
    then have "0 < length chunk" by simp
    then show ?thesis using len \<open>length body \<le> length p\<close> by linarith
  qed
qed

text \<open>The search for a match of the chunk after the star: the star swallows one more byte at a
  time and never a slash.\<close>

fun starSearch :: "string \<Rightarrow> bool \<Rightarrow> string \<Rightarrow> string option option" where
  "starSearch chunk lst [] = Some None"
| "starSearch chunk lst (c # cs) =
     (if c = CHR ''/'' then Some None
      else case matchChunk False chunk cs of
        None \<Rightarrow> None
      | Some (t, ok) \<Rightarrow>
          if ok \<and> \<not> (lst \<and> t \<noteq> []) then Some (Some t) else starSearch chunk lst cs)"

text \<open>The check of the remaining chunks before a mismatch is reported.\<close>

function glob_ok :: "string \<Rightarrow> bool" where
  "glob_ok pattern =
     (if pattern = [] then True
      else case scanChunk pattern of (star, chunk, rest) \<Rightarrow>
        matchChunk False chunk [] \<noteq> None \<and> glob_ok rest)"
  by pat_completeness auto
termination
  by (relation "measure length") (auto intro: scanChunk_shorter dest: sym)

declare glob_ok.simps [simp del]

function path_Match :: "string \<Rightarrow> string \<Rightarrow> bad_pattern + bool" where
  "path_Match pattern name =
     (if pattern = [] then Inr (name = [])
      else case scanChunk pattern of (star, chunk, rest) \<Rightarrow>
        if star \<and> chunk = [] then Inr (CHR ''/'' \<notin> set name)
        else case matchChunk False chunk name of
          None \<Rightarrow> Inl ErrBadPattern
        | Some (t, ok) \<Rightarrow>
            if ok \<and> (t = [] \<or> rest \<noteq> []) then path_Match rest t
            else (case (if star then starSearch chunk (rest = []) name else Some None) of
                    None \<Rightarrow> Inl ErrBadPattern
                  | Some (Some t') \<Rightarrow> path_Match rest t'
                  | Some None \<Rightarrow> if glob_ok rest then Inr False else Inl ErrBadPattern))"
  by pat_completeness auto
termination
  by (relation "measure (\<lambda>(p, n). length p)") (auto intro: scanChunk_shorter dest: sym)

declare path_Match.simps [simp del]

lemma starSearch_ok: "matchChunk False chunk [] \<noteq> None \<Longrightarrow> starSearch chunk l name \<noteq> None"
proof (induction name)
  case (Cons c cs)
  then have "matchChunk False chunk cs \<noteq> None"
    using matchChunk_name_indep[of False chunk cs False "[]"] by simp
  then show ?case using Cons by (auto split: if_splits)
qed simp

text \<open>A glob is reported malformed for one name exactly when it is for every name.\<close>

lemma path_Match_err_iff: "path_Match pattern name = Inl ErrBadPattern \<longleftrightarrow> \<not> glob_ok pattern"
proof (induction pattern arbitrary: name rule: length_induct)
  case (1 pattern)
  show ?case
  proof (cases "pattern = []")
    case True
    then show ?thesis by (simp add: path_Match.simps glob_ok.simps)
  next
    case False
    obtain star chunk rest where sc: "scanChunk pattern = (star, chunk, rest)"
      by (metis prod_cases3)
    have IH: "path_Match rest n = Inl ErrBadPattern \<longleftrightarrow> \<not> glob_ok rest" for n
      using 1 scanChunk_shorter[OF False sc] by blast
    have go: "glob_ok pattern \<longleftrightarrow> matchChunk False chunk [] \<noteq> None \<and> glob_ok rest"
      using False sc by (simp add: glob_ok.simps[of pattern])
    show ?thesis
    proof (cases "star \<and> chunk = []")
      case True
      then have "rest = []" using sc scanChunk_Nil_chunk by blast
      then have "glob_ok pattern" using go True by (simp add: glob_ok.simps[of "[]"])
      then show ?thesis using True False sc by (simp add: path_Match.simps[of pattern])
    next
      case nostar: False
      show ?thesis
      proof (cases "matchChunk False chunk name")
        case None
        then have "matchChunk False chunk [] = None"
          using matchChunk_name_indep[of False chunk name False "[]"] by simp
        then show ?thesis using None nostar False sc go by (auto simp: path_Match.simps[of pattern])
      next
        case (Some p)
        then have ok: "matchChunk False chunk [] \<noteq> None"
          using matchChunk_name_indep[of False chunk name False "[]"] by simp
        then obtain y where "starSearch chunk (rest = []) name = Some y"
          using starSearch_ok[of chunk "rest = []" name] by auto
        then show ?thesis using Some ok nostar False sc go IH
          by (cases p) (auto simp: path_Match.simps[of pattern] split: option.splits)
      qed
    qed
  qed
qed

section \<open>The shape drills use: literal, star, literal\<close>

text \<open>A literal byte of a glob: none of the characters that have a meaning there.\<close>

definition glob_lit :: "char \<Rightarrow> bool" where
  "glob_lit c \<longleftrightarrow> c \<noteq> CHR ''*'' \<and> c \<noteq> CHR ''?'' \<and> c \<noteq> CHR ''['' \<and> c \<noteq> CHR 0x5C"

lemma matchChunk_failed_lit: "list_all glob_lit l \<Longrightarrow> matchChunk True l s = Some ([], False)"
  by (induction l arbitrary: s) (auto simp: matchChunk.simps glob_lit_def)

lemma matchChunk_lit:
  "list_all glob_lit l \<Longrightarrow>
   matchChunk False l s = (if prefix l s then Some (drop (length l) s, True) else Some ([], False))"
proof (induction l arbitrary: s)
  case Nil
  then show ?case by simp
next
  case IH: (Cons c l)
  then have "glob_lit c" and l: "list_all glob_lit l" by simp_all
  then have c: "c \<noteq> CHR ''*''" "c \<noteq> CHR ''?''" "c \<noteq> CHR ''[''" "c \<noteq> CHR 0x5C"
    by (simp_all add: glob_lit_def)
  show ?case
  proof (cases s)
    case Nil
    then show ?thesis using c matchChunk_failed_lit[OF l] by (simp add: matchChunk.simps(2))
  next
    case (Cons a as)
    then show ?thesis using c IH(1)[OF l] matchChunk_failed_lit[OF l]
      by (cases "c = a") (simp_all add: matchChunk.simps(2))
  qed
qed

lemma scanBody_lit: "list_all glob_lit l \<Longrightarrow> scanBody False l = (l, [])"
  "list_all glob_lit l \<Longrightarrow> scanBody False (l @ CHR ''*'' # r) = (l, CHR ''*'' # r)"
proof -
  show "list_all glob_lit l \<Longrightarrow> scanBody False l = (l, [])"
    by (induction l) (auto simp: glob_lit_def)
  show "list_all glob_lit l \<Longrightarrow> scanBody False (l @ CHR ''*'' # r) = (l, CHR ''*'' # r)"
    by (induction l) (auto simp: glob_lit_def)
qed

lemma starSearch_lit:
  assumes "list_all glob_lit l" "l \<noteq> []"
  shows "starSearch l True s = Some (Some t) \<longleftrightarrow>
    t = [] \<and> (\<exists>m. m \<noteq> [] \<and> s = m @ l \<and> CHR ''/'' \<notin> set m)"
    and "starSearch l True s \<noteq> None"
proof (induction s)
  case Nil
  {
    case 1
    then show ?case using assms by auto
  next
    case 2
    then show ?case by simp
  }
next
  case (Cons c cs)
  have m: "matchChunk False l cs = (if prefix l cs then Some (drop (length l) cs, True) else Some ([], False))"
    using matchChunk_lit[OF assms(1)] .
  have step: "(\<exists>m. m \<noteq> [] \<and> c # cs = m @ l \<and> CHR ''/'' \<notin> set m) \<longleftrightarrow>
    c \<noteq> CHR ''/'' \<and> (cs = l \<or> (\<exists>m. m \<noteq> [] \<and> cs = m @ l \<and> CHR ''/'' \<notin> set m))"
  proof
    assume "\<exists>m. m \<noteq> [] \<and> c # cs = m @ l \<and> CHR ''/'' \<notin> set m"
    then obtain m where "m \<noteq> []" "c # cs = m @ l" "CHR ''/'' \<notin> set m" by blast
    then show "c \<noteq> CHR ''/'' \<and> (cs = l \<or> (\<exists>m. m \<noteq> [] \<and> cs = m @ l \<and> CHR ''/'' \<notin> set m))"
      by (cases m) auto
  next
    assume "c \<noteq> CHR ''/'' \<and> (cs = l \<or> (\<exists>m. m \<noteq> [] \<and> cs = m @ l \<and> CHR ''/'' \<notin> set m))"
    then obtain m where "cs = m @ l" "c \<noteq> CHR ''/''" "CHR ''/'' \<notin> set m"
      by (metis append_Nil empty_iff empty_set)
    then show "\<exists>m. m \<noteq> [] \<and> c # cs = m @ l \<and> CHR ''/'' \<notin> set m"
      by (intro exI[of _ "c # m"]) auto
  qed
  have here: "prefix l cs \<and> drop (length l) cs = [] \<longleftrightarrow> cs = l" by (auto simp: prefix_def)
  {
    case 1
    show ?case unfolding step using Cons.IH(1) m here by auto
  next
    case 2
    show ?case using Cons.IH(2) m by auto
  }
qed

lemma path_Match_lit_star_lit:
  assumes a: "list_all glob_lit a" "a \<noteq> []" and b: "list_all glob_lit b" "b \<noteq> []"
  shows "path_Match (a @ CHR ''*'' # b) name =
    Inr (\<exists>m. name = a @ m @ b \<and> CHR ''/'' \<notin> set m)"
proof -
  have hda: "hd (a @ CHR ''*'' # b) \<noteq> CHR ''*''" "dropWhile (\<lambda>c. c = CHR ''*'') (a @ CHR ''*'' # b) = a @ CHR ''*'' # b"
    using a by (cases a; auto simp: glob_lit_def)+
  have sa: "scanChunk (a @ CHR ''*'' # b) = (False, a, CHR ''*'' # b)"
    using hda scanBody_lit(2)[OF a(1), of b] by (simp add: scanChunk_def)
  have "dropWhile (\<lambda>c. c = CHR ''*'') (CHR ''*'' # b) = b"
    using b by (cases b) (auto simp: glob_lit_def)
  then have sb: "scanChunk (CHR ''*'' # b) = (True, b, [])"
    using scanBody_lit(1)[OF b(1)] by (simp add: scanChunk_def)
  have ok: "glob_ok (CHR ''*'' # b)"
    using sb matchChunk_lit[OF b(1), of "[]"] b
    by (auto simp: glob_ok.simps[of "CHR ''*'' # b"] glob_ok.simps[of "[]"])
  have tail: "path_Match (CHR ''*'' # b) n = Inr (\<exists>m. n = m @ b \<and> CHR ''/'' \<notin> set m)" for n
  proof (cases "n = b")
    case True
    then show ?thesis using sb b matchChunk_lit[OF b(1), of n]
      by (simp add: path_Match.simps[of "CHR ''*'' # b"] path_Match.simps[of "[]"])
  next
    case False
    have "\<not> (prefix b n \<and> drop (length b) n = [])" using False by (auto simp: prefix_def)
    then have "path_Match (CHR ''*'' # b) n =
      (case starSearch b True n of None \<Rightarrow> Inl ErrBadPattern | Some (Some t') \<Rightarrow> path_Match [] t'
       | Some None \<Rightarrow> Inr False)"
      using sb b matchChunk_lit[OF b(1), of n]
      by (auto simp: path_Match.simps[of "CHR ''*'' # b"] glob_ok.simps[of "[]"])
    moreover have "(\<exists>m. n = m @ b \<and> CHR ''/'' \<notin> set m) \<longleftrightarrow> (\<exists>m. m \<noteq> [] \<and> n = m @ b \<and> CHR ''/'' \<notin> set m)"
      using False by auto
    ultimately show ?thesis using starSearch_lit[OF b, of n]
      by (auto simp: path_Match.simps[of "[]"] split: option.splits)
  qed
  show ?thesis
  proof (cases "prefix a name")
    case True
    then show ?thesis using sa a matchChunk_lit[OF a(1), of name] tail
      by (auto simp: path_Match.simps[of "a @ CHR ''*'' # b"] prefix_def)
  next
    case False
    then show ?thesis using sa a matchChunk_lit[OF a(1), of name] ok
      by (auto simp: path_Match.simps[of "a @ CHR ''*'' # b"] prefix_def)
  qed
qed

section \<open>Base, Ext, Clean and Join\<close>

definition path_Base :: "string \<Rightarrow> string" where
  "path_Base p =
     (if p = [] then ''.''
      else let q = rev (dropWhile (\<lambda>c. c = CHR ''/'') (rev p));
               b = rev (takeWhile (\<lambda>c. c \<noteq> CHR ''/'') (rev q))
           in if b = [] then ''/'' else b)"

text \<open>\<open>path.Ext\<close>: the suffix from the last dot of the last element.\<close>

definition path_Ext :: "string \<Rightarrow> string" where
  "path_Ext p =
     (let r = rev p; e = takeWhile (\<lambda>c. c \<noteq> CHR ''/'' \<and> c \<noteq> CHR ''.'') r;
          after = drop (length e) r
      in if after \<noteq> [] \<and> hd after = CHR ''.'' then CHR ''.'' # rev e else [])"

text \<open>\<open>Clean\<close> on the elements of a path: drop empty and dot elements, let a dot-dot cancel the
  element before it, drop a dot-dot at the root.\<close>

fun clean_elems :: "bool \<Rightarrow> string list \<Rightarrow> string list \<Rightarrow> string list" where
  "clean_elems rooted out [] = rev out"
| "clean_elems rooted out (e # es) =
     (if e = [] \<or> e = ''.'' then clean_elems rooted out es
      else if e = ''..'' then
        (case out of
           [] \<Rightarrow> clean_elems rooted (if rooted then [] else [e]) es
         | o1 # os \<Rightarrow> if o1 = ''..'' then clean_elems rooted (e # out) es
                     else clean_elems rooted os es)
      else clean_elems rooted (e # out) es)"

definition path_Clean :: "string \<Rightarrow> string" where
  "path_Clean p =
     (if p = [] then ''.''
      else let rooted = (hd p = CHR ''/'');
               body = join_with ''/'' (clean_elems rooted [] (split1 CHR ''/'' p))
           in if rooted then CHR ''/'' # body else if body = [] then ''.'' else body)"

definition path_Join :: "string list \<Rightarrow> string" where
  "path_Join es =
     (case dropWhile (\<lambda>e. e = []) es of [] \<Rightarrow> [] | es' \<Rightarrow> path_Clean (join_with ''/'' es'))"

end
