(* ===== verification/FD_Spec.thy ===== *)
theory FD_Spec
  imports FD_Regex FD_Path
begin

text \<open>
  \<open>pkg/spec/spec.go\<close>: the RecoveryDrill document and its validation. Every struct is a record
  (a pointer field is an \<open>option\<close>, a \<open>Duration\<close> its nanoseconds), \<open>Validate\<close> collects its errors in
  the order of the source, and \<open>ParseAll\<close> consumes what the YAML decoder yields: a list with one
  decoding result per document, whose end is \<open>io.EOF\<close>. The YAML library itself is not
  modelled; its results are the argument of \<open>ParseAll\<close>.

  The theorems say that \<open>Validate\<close> accepts exactly the documents of \<open>wf_drill\<close>, a table of what each
  driver allows, that \<open>nameRe\<close> accepts exactly the lowercase DNS labels of at most 63
  characters, and what a successful \<open>ParseAll\<close> guarantees.
\<close>

section \<open>The document\<close>

definition APIVersion :: string where "APIVersion = ''firedrill.dev/v1''"

definition Kind :: string where "Kind = ''RecoveryDrill''"

definition is_lower_alnum :: "char \<Rightarrow> bool" where
  "is_lower_alnum c \<longleftrightarrow> is_digit c \<or> (97 \<le> byte c \<and> byte c \<le> 122)"

definition is_label_char :: "char \<Rightarrow> bool" where
  "is_label_char c \<longleftrightarrow> is_lower_alnum c \<or> c = CHR ''-''"

definition nameRe :: rx where
  "nameRe = RSeq (RCls is_lower_alnum)
     (RAlt (RSeq (RUpto 61 (RCls is_label_char)) (RCls is_lower_alnum)) REps)"

record Metadata =
  md_Name :: string

record Objectives =
  obj_RTO :: duration
  obj_RPO :: duration

record Decrypt =
  dec_Type :: string
  dec_IdentityFile :: string
  dec_IdentityEnv :: string
  dec_PassphraseEnv :: string

record From =
  from_Type :: string
  from_URI :: string
  from_CredentialsRef :: string
  from_Region :: string
  from_Endpoint :: string
  from_MaxBytes :: int
  from_MaxUncompressedBytes :: int
  from_Decrypt :: "Decrypt option"
  from_Select :: string
  from_Match :: string
  from_Backup :: string
  from_Namespace :: string

record Source =
  src_Driver :: string
  src_From :: From
  src_Format :: string
  src_Database :: string

record Sandbox =
  sbx_Provider :: string
  sbx_Image :: string
  sbx_TTL :: duration
  sbx_Namespace :: string

record FreshnessCheck =
  fc_MaxAge :: duration

record RowCountCheck =
  rc_Query :: string
  rc_Min :: int

record ChecksumCheck =
  cc_Table :: string
  cc_Column :: string
  cc_Expect :: string

record CanaryCheck =
  cn_SQL :: string
  cn_Query :: string
  cn_Expect :: string

record PodsReadyCheck =
  pr_Timeout :: duration

record ResourceCountCheck =
  rs_Kind :: string
  rs_Min :: int

record SmokeCheck =
  sm_SQL :: string
  sm_Query :: string
  sm_ExpectRows :: string

record Check =
  RestoreSucceeded :: "unit option"
  Freshness :: "FreshnessCheck option"
  RowCount :: "RowCountCheck option"
  Checksum :: "ChecksumCheck option"
  Smoke :: "SmokeCheck option"
  Canary :: "CanaryCheck option"
  PodsReady :: "PodsReadyCheck option"
  ResourceCount :: "ResourceCountCheck option"

record Sink =
  snk_Type :: string
  snk_TextfileDir :: string
  snk_URL :: string
  snk_WebhookEnv :: string
  snk_URLEnv :: string
  snk_OnlyFailures :: bool

record Report =
  rep_Sign :: bool
  rep_HTML :: bool
  rep_Controls :: "string list"
  rep_Dir :: string
  rep_Sinks :: "Sink list"

record Spec =
  sp_Schedule :: string
  sp_Objectives :: Objectives
  sp_Source :: Source
  sp_Sandbox :: Sandbox
  sp_Verify :: "Check list"
  sp_Report :: Report

record Drill =
  dr_APIVersion :: string
  dr_Kind :: string
  dr_Metadata :: Metadata
  dr_Spec :: Spec

abbreviation drillName :: "Drill \<Rightarrow> string" where
  "drillName d \<equiv> md_Name (dr_Metadata d)"

abbreviation drillSource :: "Drill \<Rightarrow> Source" where
  "drillSource d \<equiv> sp_Source (dr_Spec d)"

abbreviation drillFrom :: "Drill \<Rightarrow> From" where
  "drillFrom d \<equiv> src_From (sp_Source (dr_Spec d))"

abbreviation drillDriver :: "Drill \<Rightarrow> string" where
  "drillDriver d \<equiv> src_Driver (sp_Source (dr_Spec d))"

abbreviation drillSandbox :: "Drill \<Rightarrow> Sandbox" where
  "drillSandbox d \<equiv> sp_Sandbox (dr_Spec d)"

abbreviation drillChecks :: "Drill \<Rightarrow> Check list" where
  "drillChecks d \<equiv> sp_Verify (dr_Spec d)"

definition canary_Statement :: "CanaryCheck \<Rightarrow> string" where
  "canary_Statement c = (if cn_Query c \<noteq> [] then cn_Query c else cn_SQL c)"

definition smoke_Statement :: "SmokeCheck \<Rightarrow> string" where
  "smoke_Statement c = (if sm_Query c \<noteq> [] then sm_Query c else sm_SQL c)"

section \<open>Validation of one check\<close>

definition isSQL :: "Check \<Rightarrow> bool" where
  "isSQL c \<longleftrightarrow> RowCount c \<noteq> None \<or> Checksum c \<noteq> None \<or> Smoke c \<noteq> None \<or> Canary c \<noteq> None"

definition isK8s :: "Check \<Rightarrow> bool" where
  "isK8s c \<longleftrightarrow> PodsReady c \<noteq> None \<or> ResourceCount c \<noteq> None"

definition provesData :: "Check \<Rightarrow> bool" where
  "provesData c \<longleftrightarrow> isSQL c \<or> isK8s c"

definition resourceKinds :: "string list" where
  "resourceKinds = [''deployments'', ''statefulsets'', ''services'', ''configmaps'', ''secrets'', ''pods'']"

text \<open>
  \<open>Check.validate\<close> looks at the fields in order; a field that is set counts, and its own checks
  may return at once. \<open>check_fields\<close> lists, in that order, whether the field is set and the
  error its checks return; \<open>validate_fields\<close> is the run of the function over it.
\<close>

definition when_set :: "'a option \<Rightarrow> ('a \<Rightarrow> msg option) \<Rightarrow> bool \<times> msg option" where
  "when_set f e = (case f of None \<Rightarrow> (False, None) | Some x \<Rightarrow> (True, e x))"

definition err_if :: "bool \<Rightarrow> msg \<Rightarrow> msg option" where
  "err_if b m = (if b then Some m else None)"

definition smoke_err :: "SmokeCheck \<Rightarrow> msg option" where
  "smoke_err s =
     (if sm_SQL s \<noteq> [] \<and> sm_Query s \<noteq> []
      then Some (Msg ''smoke: set either sql or query, not both'' [])
      else err_if (smoke_Statement s = []) (Msg ''smoke.sql (or smoke.query) is required'' []))"

definition canary_err :: "CanaryCheck \<Rightarrow> msg option" where
  "canary_err c =
     (if cn_SQL c \<noteq> [] \<and> cn_Query c \<noteq> []
      then Some (Msg ''canary: set either sql or query, not both'' [])
      else err_if (canary_Statement c = [] \<or> cn_Expect c = [])
             (Msg ''canary requires sql (or query) and expect'' []))"

definition check_fields :: "Check \<Rightarrow> (bool \<times> msg option) list" where
  "check_fields c =
     [when_set (RestoreSucceeded c) (\<lambda>_. None),
      when_set (Freshness c) (\<lambda>f. err_if (fc_MaxAge f \<le> 0) (Msg ''freshness.maxAge must be > 0'' [])),
      when_set (RowCount c) (\<lambda>r. err_if (rc_Query r = []) (Msg ''rowCount.query is required'' [])),
      when_set (Checksum c) (\<lambda>k. err_if (cc_Table k = [] \<or> cc_Column k = [])
        (Msg ''checksum requires table and column'' [])),
      when_set (Smoke c) smoke_err,
      when_set (Canary c) canary_err,
      when_set (PodsReady c) (\<lambda>p. err_if (pr_Timeout p \<le> 0) (Msg ''podsReady.timeout must be > 0'' [])),
      when_set (ResourceCount c) (\<lambda>r. err_if (rs_Kind r \<notin> set resourceKinds)
        (Msg ''resourceCount.kind %q unsupported'' [AQuo (rs_Kind r)]))]"

fun validate_fields :: "int \<Rightarrow> (bool \<times> msg option) list \<Rightarrow> msg option" where
  "validate_fields n [] =
     err_if (n \<noteq> 1) (Msg ''exactly one check type must be set, got %d'' [AInt n])"
| "validate_fields n ((is_set, e) # fs) =
     (if is_set then (case e of Some m \<Rightarrow> Some m | None \<Rightarrow> validate_fields (n + 1) fs)
      else validate_fields n fs)"

definition check_validate :: "Check \<Rightarrow> msg option" where
  "check_validate c = validate_fields 0 (check_fields c)"

section \<open>Validation of a drill\<close>

definition errs_if :: "bool \<Rightarrow> msg \<Rightarrow> msg list" where
  "errs_if b m = (if b then [m] else [])"

lemma errs_if_Nil [simp]: "errs_if b m = [] \<longleftrightarrow> \<not> b"
  by (simp add: errs_if_def)

lemma err_if_None [simp]: "err_if b m = None \<longleftrightarrow> \<not> b"
  by (simp add: err_if_def)

definition validate_header :: "Drill \<Rightarrow> msg list" where
  "validate_header d =
     errs_if (dr_APIVersion d \<noteq> APIVersion)
       (Msg ''apiVersion must be %q, got %q'' [AQuo APIVersion, AQuo (dr_APIVersion d)]) @
     errs_if (dr_Kind d \<noteq> Kind) (Msg ''kind must be %q, got %q'' [AQuo Kind, AQuo (dr_Kind d)]) @
     errs_if (\<not> rx_match nameRe (drillName d))
       (Msg ''metadata.name %q must be a lowercase DNS label'' [AQuo (drillName d)])"

definition validate_format :: "Source \<Rightarrow> msg list" where
  "validate_format s =
     (let mongo = (src_Driver s = ''mongodb'') in
      (if src_Format s = '''' then []
       else if src_Format s = ''dump'' then
         errs_if mongo (Msg ''spec.source.format dump is not supported for driver: mongodb (use archive)'' [])
       else if src_Format s = ''basebackup'' then
         errs_if (src_Driver s \<noteq> ''postgres'')
           (Msg ''spec.source.format basebackup is only supported for driver: postgres'' [])
       else if src_Format s = ''archive'' then
         errs_if (\<not> mongo) (Msg ''spec.source.format archive is only supported for driver: mongodb'' [])
       else [Msg ''spec.source.format must be dump, basebackup or archive, got %q'' [AQuo (src_Format s)]]) @
      errs_if (src_Database s \<noteq> [] \<and> src_Format s \<noteq> ''basebackup'' \<and> \<not> mongo)
        (Msg ''spec.source.database is only valid with format: basebackup or driver: mongodb'' []))"

definition validate_driver :: "Source \<Rightarrow> msg list" where
  "validate_driver s =
     errs_if (src_Driver s \<notin> {''postgres'', ''mysql'', ''mongodb'', ''velero''})
       (Msg ''spec.source.driver: unsupported driver %q'' [AQuo (src_Driver s)])"

definition validate_decrypt :: "Decrypt option \<Rightarrow> msg list" where
  "validate_decrypt dec0 =
     (case dec0 of None \<Rightarrow> []
      | Some d \<Rightarrow>
          if dec_Type d = ''age'' then
            errs_if (dec_IdentityFile d = [] \<and> dec_IdentityEnv d = [] \<and> dec_PassphraseEnv d = [])
              (Msg ''spec.source.from.decrypt: age needs identityFile, identityEnv or passphraseEnv'' [])
          else if dec_Type d = ''gpg'' then
            errs_if (dec_IdentityFile d \<noteq> [] \<or> dec_IdentityEnv d \<noteq> [])
              (Msg ''spec.source.from.decrypt: gpg uses the local keyring - set passphraseEnv only'' [])
          else [Msg ''spec.source.from.decrypt.type must be age or gpg, got %q'' [AQuo (dec_Type d)]])"

definition validate_from :: "bool \<Rightarrow> From \<Rightarrow> msg list" where
  "validate_from velero f =
     (if from_Type f \<in> {''file'', ''s3''} then
        errs_if velero (Msg ''spec.source.from.type must be velero when driver is velero'' []) @
        errs_if (from_URI f = []) (Msg ''spec.source.from.uri is required'' []) @
        errs_if (from_Endpoint f \<noteq> [] \<and> from_Type f \<noteq> ''s3'')
          (Msg ''spec.source.from.endpoint is only valid with type: s3'' []) @
        errs_if (from_Select f \<notin> {'''', ''latest''})
          (Msg ''spec.source.from.select must be latest (got %q)'' [AQuo (from_Select f)]) @
        errs_if (from_Match f \<noteq> [] \<and> from_Select f = [])
          (Msg ''spec.source.from.match requires select: latest'' []) @
        errs_if (path_Match (from_Match f) ''probe'' = Inl ErrBadPattern)
          (Msg ''spec.source.from.match %q is not a valid glob: %v'' [AQuo (from_Match f)]) @
        validate_decrypt (from_Decrypt f)
      else if from_Type f = ''velero'' then
        errs_if (\<not> velero) (Msg ''spec.source.from.type velero requires driver: velero'' []) @
        errs_if (from_Select f \<noteq> [] \<or> from_Match f \<noteq> [])
          (Msg ''spec.source.from.select/match are not valid for velero sources'' []) @
        errs_if (from_Decrypt f \<noteq> None)
          (Msg ''spec.source.from.decrypt is not valid for velero sources'' []) @
        errs_if (from_Backup f = []) (Msg ''spec.source.from.backup (Velero Backup name) is required'' []) @
        errs_if (from_Namespace f = []) (Msg ''spec.source.from.namespace (source namespace) is required'' [])
      else [Msg ''spec.source.from.type must be file, s3 or velero, got %q'' [AQuo (from_Type f)]])"

definition validate_sandbox :: "bool \<Rightarrow> Sandbox \<Rightarrow> msg list" where
  "validate_sandbox velero s =
     (if sbx_Provider s \<in> {''docker'', ''kubernetes''} then
        errs_if (velero \<and> sbx_Provider s \<noteq> ''kubernetes'')
          (Msg ''spec.sandbox.provider must be kubernetes for velero drills'' [])
      else [Msg ''spec.sandbox.provider: unsupported provider %q'' [AQuo (sbx_Provider s)]]) @
     errs_if (sbx_Image s = [] \<and> \<not> velero) (Msg ''spec.sandbox.image is required'' []) @
     errs_if (sbx_TTL s \<le> 0) (Msg ''spec.sandbox.ttl must be > 0 (hard teardown guardrail)'' [])"

definition validate_objectives :: "Objectives \<Rightarrow> msg list" where
  "validate_objectives ob =
     errs_if (obj_RTO ob \<le> 0) (Msg ''spec.objectives.rto must be > 0'' []) @
     errs_if (obj_RPO ob \<le> 0) (Msg ''spec.objectives.rpo must be > 0'' [])"

fun validate_each_check :: "bool \<Rightarrow> int \<Rightarrow> Check list \<Rightarrow> msg list" where
  "validate_each_check velero i [] = []"
| "validate_each_check velero i (c # cs) =
     (case check_validate c of None \<Rightarrow> [] | Some e \<Rightarrow> [Msg ''spec.verify[%d]: %w'' [AInt i, AErr e]]) @
     errs_if (velero \<and> isSQL c)
       (Msg ''spec.verify[%d]: SQL checks are not valid for velero drills'' [AInt i]) @
     errs_if (\<not> velero \<and> isK8s c)
       (Msg ''spec.verify[%d]: kubernetes checks are only valid for velero drills'' [AInt i]) @
     validate_each_check velero (i + 1) cs"

definition validate_checks :: "bool \<Rightarrow> Check list \<Rightarrow> msg list" where
  "validate_checks velero cs =
     errs_if (cs = []) (Msg ''spec.verify must contain at least one check'' []) @
     errs_if (cs \<noteq> [] \<and> \<not> list_ex provesData cs)
       (Msg ''spec.verify must include at least one data-proving check'' []) @
     validate_each_check velero 0 cs"

fun validate_sinks :: "int \<Rightarrow> Sink list \<Rightarrow> msg list" where
  "validate_sinks i [] = []"
| "validate_sinks i (s # ss) =
     (if snk_Type s = ''prometheus'' then
        errs_if (snk_TextfileDir s = []) (Msg ''spec.report.sinks[%d]: prometheus sink requires textfileDir'' [AInt i])
      else if snk_Type s = ''pushgateway'' then
        errs_if (snk_URL s = []) (Msg ''spec.report.sinks[%d]: pushgateway sink requires url'' [AInt i])
      else if snk_Type s = ''slack'' then
        errs_if (snk_WebhookEnv s = []) (Msg ''spec.report.sinks[%d]: slack sink requires webhookEnv'' [AInt i])
      else if snk_Type s = ''webhook'' then
        errs_if (snk_URLEnv s = []) (Msg ''spec.report.sinks[%d]: webhook sink requires urlEnv'' [AInt i])
      else [Msg ''spec.report.sinks[%d]: unsupported sink type %q'' [AInt i, AQuo (snk_Type s)]]) @
     validate_sinks (i + 1) ss"

definition Validate :: "Drill \<Rightarrow> msg option" where
  "Validate d =
     (let velero = (drillDriver d = ''velero'') in
      errors_Join
        (validate_header d @ validate_format (drillSource d) @ validate_driver (drillSource d) @
         validate_from velero (drillFrom d) @ validate_sandbox velero (drillSandbox d) @
         validate_objectives (sp_Objectives (dr_Spec d)) @
         validate_checks velero (drillChecks d) @
         validate_sinks 0 (rep_Sinks (sp_Report (dr_Spec d)))))"

section \<open>Loading\<close>

fun parse_docs :: "Drill list \<Rightarrow> Drill res list \<Rightarrow> Drill list res" where
  "parse_docs drills [] = Inr drills"
| "parse_docs drills (Inl e # rest) =
     Inl (Msg ''parsing drill spec (document %d): %w'' [AInt (int (length drills) + 1), AErr e])"
| "parse_docs drills (Inr d # rest) =
     (case Validate d of
        Some e \<Rightarrow> Inl (Msg ''document %d (%s): %w''
          [AInt (int (length drills) + 1), AStr (drillName d), AErr e])
      | None \<Rightarrow>
          if drillName d \<in> drillName ` set drills
          then Inl (Msg ''duplicate drill name %q'' [AQuo (drillName d)])
          else parse_docs (drills @ [d]) rest)"

definition ParseAll :: "Drill res list \<Rightarrow> Drill list res" where
  "ParseAll docs =
     (case parse_docs [] docs of
        Inl e \<Rightarrow> Inl e
      | Inr drills \<Rightarrow> if drills = [] then Inl (Msg ''no drill documents found'' []) else Inr drills)"

text \<open>\<open>LoadAll\<close>: the file is opened (the argument is \<open>os.Open\<close>'s result: an error, or the
  documents the decoder reads from it) and parsed.\<close>

definition LoadAll :: "Drill res list res \<Rightarrow> Drill list res" where
  "LoadAll opened = (case opened of Inl e \<Rightarrow> Inl e | Inr docs \<Rightarrow> ParseAll docs)"

text \<open>\<open>Parse\<close> and \<open>Load\<close> return \<open>drills[0]\<close>, which would panic on an empty slice: the
  outer option is that panic.\<close>

definition first_drill :: "Drill list res \<Rightarrow> Drill res option" where
  "first_drill r = (case r of Inl e \<Rightarrow> Some (Inl e) | Inr [] \<Rightarrow> None | Inr (d # _) \<Rightarrow> Some (Inr d))"

definition Load :: "Drill res list res \<Rightarrow> Drill res option" where
  "Load opened = first_drill (LoadAll opened)"

definition Parse :: "Drill res list \<Rightarrow> Drill res option" where
  "Parse docs = first_drill (ParseAll docs)"

fun find_drill :: "string list \<Rightarrow> Drill list \<Rightarrow> string \<Rightarrow> Drill res" where
  "find_drill names [] name =
     Inl (Msg ''drill %q not found (file contains: %s)'' [AQuo name, AStr (join_with '', '' names)])"
| "find_drill names (d # ds) name =
     (if drillName d = name then Inr d else find_drill (names @ [drillName d]) ds name)"

definition FindDrill :: "Drill list \<Rightarrow> string \<Rightarrow> Drill res" where
  "FindDrill drills name = find_drill [] drills name"

section \<open>Names\<close>

text \<open>A lowercase DNS label: 1 to 63 letters, digits and dashes, no dash at either end.\<close>

definition dns_label :: "string \<Rightarrow> bool" where
  "dns_label s \<longleftrightarrow> s \<noteq> [] \<and> length s \<le> 63 \<and> list_all is_label_char s \<and>
     is_lower_alnum (hd s) \<and> is_lower_alnum (last s)"

lemma lower_alnum_label [simp]: "is_lower_alnum c \<Longrightarrow> is_label_char c"
  by (simp add: is_label_char_def)

lemma nameRe_lang: "s \<in> rx_lang nameRe \<longleftrightarrow>
  (\<exists>c. is_lower_alnum c \<and> (s = [c] \<or>
     (\<exists>m e. s = c # m @ [e] \<and> length m \<le> 61 \<and> list_all is_label_char m \<and> is_lower_alnum e)))"
proof -
  define T where "T = {m @ [e] | m e. length m \<le> 61 \<and> list_all is_label_char m \<and> is_lower_alnum e}"
  have t: "rx_lang (RSeq (RUpto 61 (RCls is_label_char)) (RCls is_lower_alnum)) = T"
    unfolding rx_lang.simps(4) rx_lang_upto_cls rx_lang.simps(3) T_def by blast
  have "rx_lang nameRe = {[c] @ v | c v. is_lower_alnum c \<and> (v \<in> T \<or> v = [])}"
    unfolding nameRe_def rx_lang.simps(4)[of "RCls is_lower_alnum"] rx_lang.simps(5) t rx_lang.simps(2,3)
    by blast
  then have "s \<in> rx_lang nameRe \<longleftrightarrow> (\<exists>c v. s = c # v \<and> is_lower_alnum c \<and> (v \<in> T \<or> v = []))"
    by simp
  then show ?thesis unfolding T_def by blast
qed

lemma nameRe_dns_label: "rx_match nameRe s \<longleftrightarrow> dns_label s"
proof
  assume "rx_match nameRe s"
  then show "dns_label s" by (auto simp: rx_match_lang nameRe_lang dns_label_def)
next
  assume d: "dns_label s"
  then obtain c t where s: "s = c # t" and c: "is_lower_alnum c"
    by (cases s) (auto simp: dns_label_def)
  show "rx_match nameRe s"
  proof (cases t rule: rev_cases)
    case Nil
    then show ?thesis using s c by (auto simp: rx_match_lang nameRe_lang)
  next
    case (snoc m e)
    then have "length m \<le> 61" "list_all is_label_char m" "is_lower_alnum e"
      using d s by (auto simp: dns_label_def)
    then show ?thesis using s c snoc by (auto simp: rx_match_lang nameRe_lang)
  qed
qed

section \<open>What a valid document is\<close>

definition set_fields :: "Check \<Rightarrow> nat" where
  "set_fields c = length (filter (\<lambda>b. b)
     [RestoreSucceeded c \<noteq> None, Freshness c \<noteq> None, RowCount c \<noteq> None, Checksum c \<noteq> None,
      Smoke c \<noteq> None, Canary c \<noteq> None, PodsReady c \<noteq> None, ResourceCount c \<noteq> None])"

definition one_of :: "string \<Rightarrow> string \<Rightarrow> bool" where
  "one_of a b \<longleftrightarrow> (a = []) \<noteq> (b = [])"

text \<open>A well-formed check: exactly one kind is set and its parameters are usable.\<close>

definition wf_check :: "Check \<Rightarrow> bool" where
  "wf_check c \<longleftrightarrow> set_fields c = 1 \<and>
     pred_option (\<lambda>f. 0 < fc_MaxAge f) (Freshness c) \<and>
     pred_option (\<lambda>r. rc_Query r \<noteq> []) (RowCount c) \<and>
     pred_option (\<lambda>k. cc_Table k \<noteq> [] \<and> cc_Column k \<noteq> []) (Checksum c) \<and>
     pred_option (\<lambda>s. one_of (sm_SQL s) (sm_Query s)) (Smoke c) \<and>
     pred_option (\<lambda>k. one_of (cn_SQL k) (cn_Query k) \<and> cn_Expect k \<noteq> []) (Canary c) \<and>
     pred_option (\<lambda>p. 0 < pr_Timeout p) (PodsReady c) \<and>
     pred_option (\<lambda>r. rs_Kind r \<in> set resourceKinds) (ResourceCount c)"

definition allowed_formats :: "string \<Rightarrow> string set" where
  "allowed_formats drv =
     (if drv = ''postgres'' then {[], ''dump'', ''basebackup''}
      else if drv = ''mongodb'' then {[], ''archive''}
      else {[], ''dump''})"

definition wf_decrypt :: "Decrypt \<Rightarrow> bool" where
  "wf_decrypt d \<longleftrightarrow>
     (dec_Type d = ''age'' \<and> (dec_IdentityFile d \<noteq> [] \<or> dec_IdentityEnv d \<noteq> [] \<or> dec_PassphraseEnv d \<noteq> [])) \<or>
     (dec_Type d = ''gpg'' \<and> dec_IdentityFile d = [] \<and> dec_IdentityEnv d = [])"

text \<open>An artifact source (postgres, mysql, mongodb) and a Velero source.\<close>

definition wf_artifact :: "From \<Rightarrow> bool" where
  "wf_artifact f \<longleftrightarrow> (from_Type f = ''file'' \<and> from_Endpoint f = [] \<or> from_Type f = ''s3'') \<and>
     from_URI f \<noteq> [] \<and>
     (from_Select f = ''latest'' \<or> from_Select f = [] \<and> from_Match f = []) \<and>
     glob_ok (from_Match f) \<and> pred_option wf_decrypt (from_Decrypt f)"

definition wf_velero_from :: "From \<Rightarrow> bool" where
  "wf_velero_from f \<longleftrightarrow> from_Type f = ''velero'' \<and> from_Select f = [] \<and> from_Match f = [] \<and>
     from_Decrypt f = None \<and> from_Backup f \<noteq> [] \<and> from_Namespace f \<noteq> []"

definition wf_sink :: "Sink \<Rightarrow> bool" where
  "wf_sink s \<longleftrightarrow>
     (snk_Type s = ''prometheus'' \<and> snk_TextfileDir s \<noteq> []) \<or> (snk_Type s = ''pushgateway'' \<and> snk_URL s \<noteq> []) \<or>
     (snk_Type s = ''slack'' \<and> snk_WebhookEnv s \<noteq> []) \<or> (snk_Type s = ''webhook'' \<and> snk_URLEnv s \<noteq> [])"

text \<open>What depends on the kind of drill: an engine drill restores an artifact into a docker or
  kubernetes sandbox with a given image and runs SQL checks, a Velero drill restores a namespace
  in kubernetes and runs kubernetes checks.\<close>

definition wf_engine_drill :: "Drill \<Rightarrow> bool" where
  "wf_engine_drill d \<longleftrightarrow> drillDriver d \<in> {''postgres'', ''mysql'', ''mongodb''} \<and>
     wf_artifact (drillFrom d) \<and> sbx_Provider (drillSandbox d) \<in> {''docker'', ''kubernetes''} \<and>
     sbx_Image (drillSandbox d) \<noteq> [] \<and> list_all (\<lambda>c. \<not> isK8s c) (drillChecks d)"

definition wf_velero_drill :: "Drill \<Rightarrow> bool" where
  "wf_velero_drill d \<longleftrightarrow> drillDriver d = ''velero'' \<and> wf_velero_from (drillFrom d) \<and>
     sbx_Provider (drillSandbox d) = ''kubernetes'' \<and> list_all (\<lambda>c. \<not> isSQL c) (drillChecks d)"

definition wf_drill :: "Drill \<Rightarrow> bool" where
  "wf_drill d \<longleftrightarrow> dr_APIVersion d = APIVersion \<and> dr_Kind d = Kind \<and> dns_label (drillName d) \<and>
     src_Format (drillSource d) \<in> allowed_formats (drillDriver d) \<and>
     (src_Database (drillSource d) = [] \<or> drillDriver d = ''mongodb'' \<or>
      src_Format (drillSource d) = ''basebackup'') \<and>
     (wf_engine_drill d \<or> wf_velero_drill d) \<and>
     0 < sbx_TTL (drillSandbox d) \<and> 0 < obj_RTO (sp_Objectives (dr_Spec d)) \<and>
     0 < obj_RPO (sp_Objectives (dr_Spec d)) \<and>
     list_all wf_check (drillChecks d) \<and> list_ex provesData (drillChecks d) \<and>
     list_all wf_sink (rep_Sinks (sp_Report (dr_Spec d)))"

section \<open>Validate accepts exactly the valid documents\<close>

lemma validate_fields_None:
  "validate_fields n fs = None \<longleftrightarrow>
   (\<forall>(b, e) \<in> set fs. b \<longrightarrow> e = None) \<and> n + int (length (filter fst fs)) = 1"
  by (induction n fs rule: validate_fields.induct) (auto split: option.splits)

lemma when_set_fst [simp]: "fst (when_set f e) \<longleftrightarrow> f \<noteq> None"
  by (simp add: when_set_def split: option.splits)

lemma when_set_ok: "(case when_set f e of (b, x) \<Rightarrow> b \<longrightarrow> x = None) \<longleftrightarrow> pred_option (\<lambda>x. e x = None) f"
  by (simp add: when_set_def split: option.splits)

lemma smoke_err_None: "smoke_err s = None \<longleftrightarrow> one_of (sm_SQL s) (sm_Query s)"
  by (auto simp: smoke_err_def smoke_Statement_def one_of_def)

lemma canary_err_None:
  "canary_err k = None \<longleftrightarrow> one_of (cn_SQL k) (cn_Query k) \<and> cn_Expect k \<noteq> []"
  by (auto simp: canary_err_def canary_Statement_def one_of_def)

lemma pred_option_True [simp]: "pred_option (\<lambda>_. True) x"
  by (cases x) auto

lemma check_validate_None: "check_validate c = None \<longleftrightarrow> wf_check c"
proof -
  have n: "length (filter fst (check_fields c)) = set_fields c"
    by (simp add: check_fields_def set_fields_def)
  have f: "(\<forall>(b, e) \<in> set (check_fields c). b \<longrightarrow> e = None) \<longleftrightarrow>
     pred_option (\<lambda>f. 0 < fc_MaxAge f) (Freshness c) \<and>
     pred_option (\<lambda>r. rc_Query r \<noteq> []) (RowCount c) \<and>
     pred_option (\<lambda>k. cc_Table k \<noteq> [] \<and> cc_Column k \<noteq> []) (Checksum c) \<and>
     pred_option (\<lambda>s. one_of (sm_SQL s) (sm_Query s)) (Smoke c) \<and>
     pred_option (\<lambda>k. one_of (cn_SQL k) (cn_Query k) \<and> cn_Expect k \<noteq> []) (Canary c) \<and>
     pred_option (\<lambda>p. 0 < pr_Timeout p) (PodsReady c) \<and>
     pred_option (\<lambda>r. rs_Kind r \<in> set resourceKinds) (ResourceCount c)"
    by (simp add: check_fields_def when_set_ok smoke_err_None canary_err_None not_le)
  show ?thesis
    unfolding check_validate_def validate_fields_None wf_check_def n f by auto
qed

lemma validate_each_check_Nil:
  "validate_each_check velero i cs = [] \<longleftrightarrow>
   list_all wf_check cs \<and> list_all (\<lambda>c. if velero then \<not> isSQL c else \<not> isK8s c) cs"
  by (induction cs arbitrary: i) (auto simp: check_validate_None[symmetric] split: option.splits)

lemma validate_sinks_Nil: "validate_sinks i ss = [] \<longleftrightarrow> list_all wf_sink ss"
  by (induction ss arbitrary: i) (auto simp: wf_sink_def)

lemma validate_decrypt_Nil: "validate_decrypt x = [] \<longleftrightarrow> pred_option wf_decrypt x"
  by (cases x) (auto simp: validate_decrypt_def wf_decrypt_def)

lemma validate_from_Nil:
  "validate_from velero f = [] \<longleftrightarrow> (if velero then wf_velero_from f else wf_artifact f)"
  by (auto simp: validate_from_def wf_velero_from_def wf_artifact_def path_Match_err_iff
      validate_decrypt_Nil)

lemma validate_format_Nil:
  "validate_format s = [] \<longleftrightarrow> src_Format s \<in> allowed_formats (src_Driver s) \<and>
   (src_Database s = [] \<or> src_Driver s = ''mongodb'' \<or> src_Format s = ''basebackup'')"
  by (auto simp: validate_format_def allowed_formats_def Let_def)

lemma validate_sandbox_Nil:
  "validate_sandbox velero s = [] \<longleftrightarrow> 0 < sbx_TTL s \<and>
   (if velero then sbx_Provider s = ''kubernetes''
    else sbx_Provider s \<in> {''docker'', ''kubernetes''} \<and> sbx_Image s \<noteq> [])"
  by (auto simp: validate_sandbox_def)

lemma validate_checks_Nil:
  "validate_checks velero cs = [] \<longleftrightarrow> list_ex provesData cs \<and> list_all wf_check cs \<and>
   list_all (\<lambda>c. if velero then \<not> isSQL c else \<not> isK8s c) cs"
  by (auto simp: validate_checks_def validate_each_check_Nil)

lemma validate_header_Nil:
  "validate_header d = [] \<longleftrightarrow> dr_APIVersion d = APIVersion \<and> dr_Kind d = Kind \<and> dns_label (drillName d)"
  by (simp add: validate_header_def nameRe_dns_label)

lemmas validate_Nils = validate_header_Nil validate_format_Nil validate_from_Nil validate_sandbox_Nil
  validate_checks_Nil validate_sinks_Nil

lemma Validate_None: "Validate d = None \<longleftrightarrow> wf_drill d"
proof (cases "drillDriver d = ''velero''")
  case True
  then show ?thesis
    by (auto simp: Validate_def Let_def validate_Nils validate_driver_def validate_objectives_def
        wf_drill_def wf_engine_drill_def wf_velero_drill_def)
next
  case False
  then show ?thesis
    by (auto simp: Validate_def Let_def validate_Nils validate_driver_def validate_objectives_def
        wf_drill_def wf_engine_drill_def wf_velero_drill_def)
qed

text \<open>
  C9: \<open>Validate\<close> accepts a document exactly when it is well formed: its header and name are right,
  its driver, format, database, source, sandbox provider and check kinds fit together as the
  table \<open>wf_drill\<close> says, every duration is positive, every check sets exactly one kind with
  usable parameters, at least one check inspects restored data, and every sink is configured.
\<close>

theorem Validate_iff_wf_drill: "Validate d = None \<longleftrightarrow> wf_drill d"
  by (rule Validate_None)

section \<open>Documents loaded from a file\<close>

lemma parse_docs_Inr:
  "parse_docs ds docs = Inr out \<longleftrightarrow>
   (\<exists>new. docs = map Inr new \<and> out = ds @ new \<and> list_all (\<lambda>d. Validate d = None) new \<and>
      distinct (map drillName new) \<and> drillName ` set ds \<inter> drillName ` set new = {})"
proof (induction ds docs arbitrary: out rule: parse_docs.induct)
  case (3 ds d rest)
  show ?case
  proof (cases "Validate d = None \<and> drillName d \<notin> drillName ` set ds")
    case True
    have "(\<exists>new. Inr d # rest = map Inr new \<and> out = ds @ new \<and> list_all (\<lambda>d. Validate d = None) new \<and>
        distinct (map drillName new) \<and> drillName ` set ds \<inter> drillName ` set new = {}) \<longleftrightarrow>
      (\<exists>new. rest = map Inr new \<and> out = (ds @ [d]) @ new \<and> list_all (\<lambda>d. Validate d = None) new \<and>
        distinct (map drillName new) \<and> drillName ` set (ds @ [d]) \<inter> drillName ` set new = {})"
      (is "?L \<longleftrightarrow> ?R")
    proof (intro iffI; elim exE conjE)
      fix new assume n: "Inr d # rest = map Inr new" "out = ds @ new" "list_all (\<lambda>d. Validate d = None) new"
        "distinct (map drillName new)" "drillName ` set ds \<inter> drillName ` set new = {}"
      then obtain new' where "new = d # new'" "rest = map Inr new'" by (cases new) auto
      then show ?R using n by (intro exI[of _ new']) auto
    next
      fix new assume "rest = map Inr new" "out = (ds @ [d]) @ new" "list_all (\<lambda>d. Validate d = None) new"
        "distinct (map drillName new)" "drillName ` set (ds @ [d]) \<inter> drillName ` set new = {}"
      then show ?L using True by (intro exI[of _ "d # new"]) auto
    qed
    then show ?thesis using 3 True by simp
  next
    case False
    then show ?thesis by (auto split: option.splits)
  qed
qed auto

lemma ParseAll_Inr:
  "ParseAll docs = Inr ds \<longleftrightarrow>
   docs = map Inr ds \<and> ds \<noteq> [] \<and> list_all (\<lambda>d. Validate d = None) ds \<and> distinct (map drillName ds)"
proof (cases "parse_docs [] docs")
  case (Inl e)
  then show ?thesis using parse_docs_Inr[of "[]" docs ds] by (auto simp: ParseAll_def)
next
  case (Inr out)
  then show ?thesis using parse_docs_Inr[of "[]" docs ds] parse_docs_Inr[of "[]" docs out]
    by (auto simp: ParseAll_def)
qed

lemma find_drill_Inr:
  "distinct (map drillName ds) \<Longrightarrow> find_drill names ds n = Inr d \<longleftrightarrow> d \<in> set ds \<and> drillName d = n"
proof (induction ds arbitrary: names)
  case (Cons a ds)
  have "drillName a \<notin> drillName ` set ds" using Cons.prems by simp
  then have "drillName d = drillName a \<Longrightarrow> d \<notin> set ds" using image_eqI[of "drillName d" drillName d "set ds"] by auto
  then show ?case using Cons by auto
qed simp

text \<open>
  C15: a drill file loads exactly when every document of it decodes, every document is well formed,
  there is at least one and no two share a name; the drills are then those of the file in order.
\<close>

theorem ParseAll_ok_iff:
  "ParseAll docs = Inr ds \<longleftrightarrow>
   docs = map Inr ds \<and> ds \<noteq> [] \<and> (\<forall>d. d \<in> set ds \<longrightarrow> wf_drill d) \<and> distinct (map drillName ds)"
  unfolding ParseAll_Inr list_all_iff Validate_None by auto

text \<open>A concrete drill, on which the hypotheses of the properties are evaluated.\<close>

definition demo_check :: Check where
  "demo_check = \<lparr>RestoreSucceeded = None, Freshness = None, RowCount = None, Checksum = None,
     Smoke = None, Canary = None, PodsReady = None, ResourceCount = None\<rparr>"

definition demo_drill :: Drill where
  "demo_drill = \<lparr>dr_APIVersion = APIVersion, dr_Kind = Kind, dr_Metadata = \<lparr>md_Name = ''pay-1''\<rparr>,
     dr_Spec = \<lparr>sp_Schedule = '''', sp_Objectives = \<lparr>obj_RTO = 15 * Minute, obj_RPO = Hour\<rparr>,
       sp_Source = \<lparr>src_Driver = ''postgres'',
         src_From = \<lparr>from_Type = ''file'', from_URI = ''/b'', from_CredentialsRef = '''', from_Region = '''',
           from_Endpoint = '''', from_MaxBytes = 0, from_MaxUncompressedBytes = 0, from_Decrypt = None,
           from_Select = ''latest'', from_Match = ''p*.gz'', from_Backup = '''', from_Namespace = ''''\<rparr>,
         src_Format = '''', src_Database = ''''\<rparr>,
       sp_Sandbox = \<lparr>sbx_Provider = ''docker'', sbx_Image = ''postgres:16'', sbx_TTL = Hour, sbx_Namespace = ''''\<rparr>,
       sp_Verify = [demo_check\<lparr>RestoreSucceeded := Some ()\<rparr>,
         demo_check\<lparr>RowCount := Some \<lparr>rc_Query = ''q'', rc_Min = 1\<rparr>\<rparr>],
       sp_Report = \<lparr>rep_Sign = True, rep_HTML = False, rep_Controls = [''SOC2''], rep_Dir = '''', rep_Sinks = []\<rparr>\<rparr>\<rparr>"

lemma demo_drill_wf: "wf_drill demo_drill"
proof -
  have "glob_ok ''p*.gz''" by code_simp
  then show ?thesis by (simp add: wf_drill_def wf_engine_drill_def wf_artifact_def dns_label_def demo_drill_def
    demo_check_def wf_check_def set_fields_def provesData_def isSQL_def isK8s_def allowed_formats_def
    is_lower_alnum_def is_label_char_def is_digit_def)
qed

theorem ParseAll_ok_iff_witness:
  "ParseAll [Inr demo_drill] = Inr [demo_drill] \<and> ParseAll [Inr demo_drill, Inr demo_drill] \<noteq> Inr [demo_drill, demo_drill]"
  using ParseAll_ok_iff[of "[Inr demo_drill]" "[demo_drill]"]
    ParseAll_ok_iff[of "[Inr demo_drill, Inr demo_drill]" "[demo_drill, demo_drill]"] demo_drill_wf
  by simp

text \<open>
  The \<open>drills[0]\<close> of \<open>Load\<close> never panics: whatever the file holds, \<open>Load\<close> returns either the
  error of \<open>LoadAll\<close> or a well-formed drill, the first of the file.
\<close>

lemma Load_total:
  "(\<exists>e. LoadAll opened = Inl e \<and> Load opened = Some (Inl e)) \<or>
   (\<exists>d ds. LoadAll opened = Inr (d # ds) \<and> Load opened = Some (Inr d) \<and> wf_drill d)"
proof (cases "LoadAll opened")
  case (Inl e)
  then show ?thesis by (simp add: Load_def first_drill_def)
next
  case (Inr ds)
  then obtain docs where "ParseAll docs = Inr ds"
    by (auto simp: LoadAll_def split: sum.splits)
  then have "ds \<noteq> []" "list_all wf_drill ds"
    by (simp_all add: ParseAll_Inr list_all_iff Validate_None)
  then show ?thesis using Inr by (cases ds) (auto simp: Load_def first_drill_def)
qed

lemma find_drill_missing:
  "n \<notin> drillName ` set ds \<Longrightarrow> find_drill names ds n =
   Inl (Msg ''drill %q not found (file contains: %s)'' [AQuo n, AStr (join_with '', '' (names @ map drillName ds))])"
  by (induction ds arbitrary: names) auto

text \<open>
  In a file that loads, \<open>FindDrill\<close> finds a drill exactly when the file holds one of that name,
  and returns that one; otherwise the error lists the names of the file in order.
\<close>

lemma FindDrill_loaded:
  assumes "ParseAll docs = Inr ds"
  shows "(FindDrill ds n = Inr d \<longleftrightarrow> d \<in> set ds \<and> drillName d = n) \<and>
    (n \<notin> drillName ` set ds \<longrightarrow> FindDrill ds n =
      Inl (Msg ''drill %q not found (file contains: %s)'' [AQuo n, AStr (join_with '', '' (map drillName ds))]))"
  using assms by (auto simp: FindDrill_def ParseAll_Inr find_drill_Inr find_drill_missing)

lemma FindDrill_loaded_example:
  "FindDrill [demo_drill] ''pay-1'' = Inr demo_drill \<and> FindDrill [demo_drill] ''x'' =
      Inl (Msg ''drill %q not found (file contains: %s)'' [AQuo ''x'', AStr ''pay-1''])"
proof -
  have p: "ParseAll [Inr demo_drill] = Inr [demo_drill]"
    using demo_drill_wf by (simp add: ParseAll_Inr Validate_None)
  show ?thesis using FindDrill_loaded[OF p, of "''pay-1''" demo_drill] FindDrill_loaded[OF p, of "''x''" demo_drill]
    by (simp add: demo_drill_def)
qed

end
