(* ===== verification/FD_Verify.thy ===== *)
theory FD_Verify
  imports FD_Spec
begin

text \<open>
  \<open>pkg/verify\<close>: the checks that run against what was restored (\<open>verify.go\<close>), the SQL engine
  behind them (\<open>engine.go\<close>) and the kubernetes checks (\<open>k8s.go\<close>).

  The \<open>Engine\<close> interface is a record of its four operations and the kubernetes client the two list
  calls the code makes; both act on the outside state \<open>'w\<close>. \<open>database/sql\<close> is a record
  of the scans the code performs. The text of a \<open>Detail\<close> is a \<open>msg\<close>.

  The theorems: what is reported when the restore failed, what the row expectation accepts, that a
  canary result carries nothing of the sentinel, that identifiers reach the engine only after
  \<open>identRe\<close> accepted them, and that \<open>podsReady\<close> passes exactly when three consecutive
  polls before the deadline saw every pod ready.
\<close>

section \<open>Interfaces\<close>

record Result =
  vr_Name :: string
  vr_Passed :: bool
  vr_Detail :: msg
  vr_Skipped :: bool

abbreviation result :: "string \<Rightarrow> bool \<Rightarrow> msg \<Rightarrow> Result" where
  "result n p d \<equiv> \<lparr>vr_Name = n, vr_Passed = p, vr_Detail = d, vr_Skipped = False\<rparr>"

record 'w Engine =
  eng_Count :: "string \<Rightarrow> 'w \<Rightarrow> int res \<times> 'w"
  eng_Rows :: "string \<Rightarrow> 'w \<Rightarrow> int res \<times> 'w"
  eng_Scalar :: "string \<Rightarrow> 'w \<Rightarrow> string res \<times> 'w"
  eng_Checksum :: "string \<Rightarrow> string \<Rightarrow> 'w \<Rightarrow> string res \<times> 'w"

record PodCondition =
  pc_Type :: string
  pc_Status :: string

record Pod =
  pod_Phase :: string
  pod_Conditions :: "PodCondition list"

text \<open>\<open>k8s_Pods\<close> lists the pods of a namespace; \<open>k8s_Len\<close> is the number of items the list call of
  the given kind returns.\<close>

record 'w K8s =
  k8s_Pods :: "string \<Rightarrow> 'w \<Rightarrow> Pod list res \<times> 'w"
  k8s_Len :: "string \<Rightarrow> string \<Rightarrow> 'w \<Rightarrow> nat res \<times> 'w"

record 'w Context =
  dc_RestoreErr :: "msg option"
  dc_BackupAge :: duration
  dc_RTO :: duration
  dc_K8s :: "'w K8s option"
  dc_Namespace :: string

section \<open>The SQL engine\<close>

definition errNoChecksumDialect :: msg where
  "errNoChecksumDialect = Msg ''no checksum dialect configured'' []"

text \<open>\<open>database/sql\<close>: one row scanned into an \<open>int64\<close> or a string, and a query whose rows are
  counted (the number of rows \<open>Next\<close> yields, then \<open>rows.Err\<close>).\<close>

record 'w DB =
  db_ScanInt :: "string \<Rightarrow> 'w \<Rightarrow> int res \<times> 'w"
  db_ScanString :: "string \<Rightarrow> 'w \<Rightarrow> string res \<times> 'w"
  db_Query :: "string \<Rightarrow> 'w \<Rightarrow> (nat \<times> msg option) res \<times> 'w"

record 'w sqlEngine =
  se_db :: "'w DB option"
  se_checksumQuery :: "(string \<Rightarrow> string \<Rightarrow> string) option"

abbreviation noConnection :: msg where
  "noConnection \<equiv> Msg ''no database connection'' []"

definition sql_Count :: "'w sqlEngine \<Rightarrow> string \<Rightarrow> 'w \<Rightarrow> int res \<times> 'w" where
  "sql_Count e q w = (case se_db e of None \<Rightarrow> (Inl noConnection, w) | Some db \<Rightarrow> db_ScanInt db q w)"

definition sql_Rows :: "'w sqlEngine \<Rightarrow> string \<Rightarrow> 'w \<Rightarrow> int res \<times> 'w" where
  "sql_Rows e q w =
     (case se_db e of
        None \<Rightarrow> (Inl noConnection, w)
      | Some db \<Rightarrow>
          (case db_Query db q w of
             (Inl err, w1) \<Rightarrow> (Inl err, w1)
           | (Inr (n, Some err), w1) \<Rightarrow> (Inl err, w1)
           | (Inr (n, None), w1) \<Rightarrow> (Inr (int n), w1)))"

definition sql_Scalar :: "'w sqlEngine \<Rightarrow> string \<Rightarrow> 'w \<Rightarrow> string res \<times> 'w" where
  "sql_Scalar e q w = (case se_db e of None \<Rightarrow> (Inl noConnection, w) | Some db \<Rightarrow> db_ScanString db q w)"

definition sql_Checksum :: "'w sqlEngine \<Rightarrow> string \<Rightarrow> string \<Rightarrow> 'w \<Rightarrow> string res \<times> 'w" where
  "sql_Checksum e table column w =
     (case se_checksumQuery e of
        None \<Rightarrow> (Inl errNoChecksumDialect, w)
      | Some cq \<Rightarrow>
          (case se_db e of
             None \<Rightarrow> (Inl noConnection, w)
           | Some db \<Rightarrow> db_ScanString db (cq table column) w))"

definition NewSQL :: "'w DB option \<Rightarrow> (string \<Rightarrow> string \<Rightarrow> string) option \<Rightarrow> 'w Engine option" where
  "NewSQL db cq =
     (case db of
        None \<Rightarrow> None
      | Some _ \<Rightarrow>
          let e = \<lparr>se_db = db, se_checksumQuery = cq\<rparr> in
          Some \<lparr>eng_Count = sql_Count e, eng_Rows = sql_Rows e, eng_Scalar = sql_Scalar e,
                eng_Checksum = sql_Checksum e\<rparr>)"

section \<open>Row expectations\<close>

definition re_space :: "char \<Rightarrow> bool" where
  "re_space c \<longleftrightarrow> byte c \<in> {9, 10, 12, 13, 32}"

definition rows_ops :: "string list" where
  "rows_ops = [''>='', ''<='', ''=='', ''>'', ''<'']"

definition rowsExprRe :: rx where
  "rowsExprRe =
     RSeq (foldr (\<lambda>lit r. RAlt (rx_lit lit) r) rows_ops RNone)
       (RSeq (RStar (RCls re_space)) (RSeq (RCls is_digit) (RStar (RCls is_digit))))"

text \<open>\<open>FindStringSubmatch\<close>: the operator and the digits of a match. The alternatives are tried
  in the order they are written.\<close>

definition rows_tail :: "string \<Rightarrow> string option" where
  "rows_tail r = (let t = dropWhile re_space r in if t \<noteq> [] \<and> list_all is_digit t then Some t else None)"

fun rows_submatch :: "string list \<Rightarrow> string \<Rightarrow> (string \<times> string) option" where
  "rows_submatch [] s = None"
| "rows_submatch (op # ops) s =
     (if hasPrefix s op
      then (case rows_tail (drop (length op) s) of
              Some t \<Rightarrow> Some (op, t)
            | None \<Rightarrow> rows_submatch ops s)
      else rows_submatch ops s)"

text \<open>\<open>strconv.Atoi\<close> of a digit string; out of range it returns the largest \<open>int\<close> (and an error
  that \<open>evalRows\<close> drops).\<close>

definition atoi_digits :: "string \<Rightarrow> int" where
  "atoi_digits t = min (int (digits_val 0 t)) max_i64"

definition rows_cmp :: "string \<Rightarrow> int \<Rightarrow> int \<Rightarrow> bool" where
  "rows_cmp op n v =
     (if op = ''>='' then n \<ge> v
      else if op = ''<='' then n \<le> v
      else if op = ''=='' then n = v
      else if op = ''>'' then n > v
      else if op = ''<'' then n < v
      else False)"

definition evalRows :: "int \<Rightarrow> string \<Rightarrow> bool res" where
  "evalRows n expr =
     (case rows_submatch rows_ops (strings_TrimSpace expr) of
        None \<Rightarrow> Inl (Msg ''invalid expectRows %q (want e.g. >=1)'' [AQuo expr])
      | Some (op, t) \<Rightarrow> Inr (rows_cmp op n (atoi_digits t)))"

section \<open>Data checks\<close>

definition is_ident_start :: "char \<Rightarrow> bool" where
  "is_ident_start c \<longleftrightarrow> (97 \<le> byte c \<and> byte c \<le> 122) \<or> (65 \<le> byte c \<and> byte c \<le> 90) \<or> c = CHR ''_''"

definition is_ident_char :: "char \<Rightarrow> bool" where
  "is_ident_char c \<longleftrightarrow> is_ident_start c \<or> is_digit c \<or> c = CHR ''.''"

definition identRe :: rx where
  "identRe = RSeq (RCls is_ident_start) (RStar (RCls is_ident_char))"

definition checksum :: "'w Engine \<Rightarrow> ChecksumCheck \<Rightarrow> 'w \<Rightarrow> Result \<times> 'w" where
  "checksum eng c w =
     (if \<not> rx_match identRe (cc_Table c) \<or> \<not> rx_match identRe (cc_Column c)
      then (result ''checksum'' False (Msg ''invalid table/column identifier'' []), w)
      else (case eng_Checksum eng (cc_Table c) (cc_Column c) w of
        (Inl err, w1) \<Rightarrow>
          (if errors_Is err errNoChecksumDialect
           then result ''checksum'' False errNoChecksumDialect
           else result ''checksum'' False (Msg ''query failed: '' [AErr err]), w1)
      | (Inr got, w1) \<Rightarrow>
          (if cc_Expect c \<noteq> [] \<and> got \<noteq> cc_Expect c
           then result ''checksum'' False (Msg ''%s.%s = %s, expected %s''
             [AStr (cc_Table c), AStr (cc_Column c), AStr got, AStr (cc_Expect c)])
           else result ''checksum'' True
             (Msg ''%s.%s md5=%s'' [AStr (cc_Table c), AStr (cc_Column c), AStr got]), w1)))"

definition smoke :: "'w Engine \<Rightarrow> SmokeCheck \<Rightarrow> 'w \<Rightarrow> Result \<times> 'w" where
  "smoke eng c w =
     (case eng_Rows eng (smoke_Statement c) w of
        (Inl err, w1) \<Rightarrow> (result ''smoke'' False (Msg ''query failed: '' [AErr err]), w1)
      | (Inr n, w1) \<Rightarrow>
          let expect = (if sm_ExpectRows c = [] then ''>=1'' else sm_ExpectRows c) in
          (case evalRows n expect of
             Inl err \<Rightarrow> (result ''smoke'' False err, w1)
           | Inr ok \<Rightarrow> (result ''smoke'' ok (Msg ''%d rows (expect %s)'' [AInt n, AStr expect]), w1)))"

definition canary :: "'w Engine \<Rightarrow> CanaryCheck \<Rightarrow> 'w \<Rightarrow> Result \<times> 'w" where
  "canary eng c w =
     (case eng_Scalar eng (canary_Statement c) w of
        (Inl err, w1) \<Rightarrow> (result ''canary'' False (Msg ''query failed: '' [AErr err]), w1)
      | (Inr got, w1) \<Rightarrow>
          if got \<noteq> cn_Expect c
          then (result ''canary'' False (Msg ''sentinel value mismatch - possible ransomware/corruption'' []), w1)
          else (result ''canary'' True (Msg ''sentinel restored intact'' []), w1))"

definition rowCount :: "'w Engine \<Rightarrow> RowCountCheck \<Rightarrow> 'w \<Rightarrow> Result \<times> 'w" where
  "rowCount eng c w =
     (case eng_Count eng (rc_Query c) w of
        (Inl err, w1) \<Rightarrow> (result ''rowCount'' False (Msg ''query failed: '' [AErr err]), w1)
      | (Inr n, w1) \<Rightarrow>
          (result ''rowCount'' (n \<ge> rc_Min c) (Msg ''%d rows (min %d)'' [AInt n, AInt (rc_Min c)]), w1))"

section \<open>Kubernetes checks\<close>

definition stablePolls :: int where "stablePolls = 3"

fun ready_condition :: "PodCondition list \<Rightarrow> bool" where
  "ready_condition [] = False"
| "ready_condition (cond # cs) =
     (if pc_Type cond = ''Ready'' then pc_Status cond = ''True'' else ready_condition cs)"

definition podIsReady :: "Pod \<Rightarrow> bool" where
  "podIsReady p = (if pod_Phase p \<noteq> ''Running'' then False else ready_condition (pod_Conditions p))"

definition notReady :: "Pod list \<Rightarrow> nat" where
  "notReady ps = length (filter (\<lambda>p. \<not> podIsReady p) (filter (\<lambda>p. pod_Phase p \<noteq> ''Succeeded'') ps))"

definition podsReady_timeout :: "PodsReadyCheck \<Rightarrow> msg \<Rightarrow> Result" where
  "podsReady_timeout c lastDetail =
     result ''podsReady'' False (Msg ''timeout after %s: %s'' [ADur (pr_Timeout c), AErr lastDetail])"

text \<open>The loop, with fuel: \<open>None\<close> when the fuel runs out. Each iteration sleeps two seconds, so
  \<open>podsReady_fuel\<close> iterations outlast the deadline (\<open>podsReady_loop_returns\<close>).\<close>

fun podsReady_loop ::
  "'w Runtime \<Rightarrow> 'w K8s \<Rightarrow> string \<Rightarrow> PodsReadyCheck \<Rightarrow> gotime \<Rightarrow> nat \<Rightarrow> int \<Rightarrow> msg \<Rightarrow> 'w \<Rightarrow> (Result \<times> 'w) option"
where
  "podsReady_loop rt cli ns c deadline 0 streak lastDetail w = None"
| "podsReady_loop rt cli ns c deadline (Suc fuel) streak lastDetail w =
     (if \<not> rt_Now rt w < deadline then Some (podsReady_timeout c lastDetail, w)
      else (case rt_CtxErr rt w of
        Some e \<Rightarrow> Some (result ''podsReady'' False e, w)
      | None \<Rightarrow>
          (case k8s_Pods cli ns w of
             (Inl err, w1) \<Rightarrow>
               podsReady_loop rt cli ns c deadline fuel 0 (Msg ''listing pods: '' [AErr err])
                 (rt_Sleep rt (2 * Second) w1)
           | (Inr pods, w1) \<Rightarrow>
               if pods = [] then
                 podsReady_loop rt cli ns c deadline fuel 0 (Msg ''no pods in restored namespace'' [])
                   (rt_Sleep rt (2 * Second) w1)
               else if notReady pods = 0 then
                 (if streak + 1 \<ge> stablePolls
                  then Some (result ''podsReady'' True (Msg ''%d pod(s) ready (stable over %d checks)''
                    [AInt (int (length pods)), AInt stablePolls]), w1)
                  else podsReady_loop rt cli ns c deadline fuel (streak + 1) lastDetail
                    (rt_Sleep rt (2 * Second) w1))
               else
                 podsReady_loop rt cli ns c deadline fuel 0 (Msg ''%d/%d pod(s) not ready''
                   [AInt (int (notReady pods)), AInt (int (length pods))]) (rt_Sleep rt (2 * Second) w1))))"

definition podsReady_fuel :: "PodsReadyCheck \<Rightarrow> nat" where
  "podsReady_fuel c = nat (pr_Timeout c div (2 * Second)) + 2"

definition podsReady ::
  "'w Runtime \<Rightarrow> 'w K8s option \<Rightarrow> string \<Rightarrow> PodsReadyCheck \<Rightarrow> 'w \<Rightarrow> Result \<times> 'w" where
  "podsReady rt cli ns c w =
     (case cli of
        None \<Rightarrow> (result ''podsReady'' False (Msg ''no kubernetes client configured'' []), w)
      | Some k \<Rightarrow>
          (case podsReady_loop rt k ns c (rt_Now rt w + pr_Timeout c) (podsReady_fuel c) 0 (Msg [] []) w of
             Some r \<Rightarrow> r
           | None \<Rightarrow> (podsReady_timeout c (Msg [] []), w)))"

definition resourceCount :: "'w K8s option \<Rightarrow> string \<Rightarrow> ResourceCountCheck \<Rightarrow> 'w \<Rightarrow> Result \<times> 'w" where
  "resourceCount cli ns c w =
     (case cli of
        None \<Rightarrow> (result ''resourceCount'' False (Msg ''no kubernetes client configured'' []), w)
      | Some k \<Rightarrow>
          (let kind = rs_Kind c;
               finish = (\<lambda>r. case r of
                 (Inl err, w1) \<Rightarrow>
                   (result ''resourceCount'' False (Msg ''listing %s: %s'' [AStr kind, AErr err]), w1)
               | (Inr n, w1) \<Rightarrow>
                   (result ''resourceCount'' (int n \<ge> rs_Min c)
                     (Msg ''%d %s (min %d)'' [AInt (int n), AStr kind, AInt (rs_Min c)]), w1))
           in if kind \<in> {''deployments'', ''statefulsets'', ''services'', ''configmaps'', ''secrets''}
              then finish (k8s_Len k kind ns w)
              else if kind = ''pods''
              then finish (map_prod (map_sum id length) id (k8s_Pods k ns w))
              else (result ''resourceCount'' False (Msg ''unsupported kind %q'' [AQuo kind]), w)))"

section \<open>Running the checks\<close>

definition dataCheck :: "'w Context \<Rightarrow> string \<Rightarrow> ('w \<Rightarrow> Result \<times> 'w) \<Rightarrow> 'w \<Rightarrow> Result \<times> 'w" where
  "dataCheck dc name run w =
     (if dc_RestoreErr dc \<noteq> None
      then (\<lparr>vr_Name = name, vr_Passed = False, vr_Detail = Msg ''skipped: restore failed'' [],
             vr_Skipped = True\<rparr>, w)
      else run w)"

definition requireEngine ::
  "'w Engine option \<Rightarrow> string \<Rightarrow> ('w Engine \<Rightarrow> 'w \<Rightarrow> Result \<times> 'w) \<Rightarrow> 'w \<Rightarrow> Result \<times> 'w" where
  "requireEngine eng name run w =
     (case eng of
        None \<Rightarrow> (result name False (Msg ''no database connection configured for this drill type'' []), w)
      | Some e \<Rightarrow> run e w)"

definition runOne ::
  "'w Runtime \<Rightarrow> 'w Engine option \<Rightarrow> Check \<Rightarrow> 'w Context \<Rightarrow> 'w \<Rightarrow> Result \<times> 'w" where
  "runOne rt eng c dc w =
     (case RestoreSucceeded c of Some _ \<Rightarrow>
        (case dc_RestoreErr dc of
           Some e \<Rightarrow> (result ''restoreSucceeded'' False e, w)
         | None \<Rightarrow> (result ''restoreSucceeded'' True (Msg ''restore completed'' []), w))
      | None \<Rightarrow> (case Freshness c of Some f \<Rightarrow>
        (result ''freshness'' (dc_BackupAge dc \<le> fc_MaxAge f)
           (Msg ''backup age %s (max %s)'' [ADur (dur_Round (dc_BackupAge dc) Second), ADur (fc_MaxAge f)]), w)
      | None \<Rightarrow> (case RowCount c of Some k \<Rightarrow>
        dataCheck dc ''rowCount'' (requireEngine eng ''rowCount'' (\<lambda>e. rowCount e k)) w
      | None \<Rightarrow> (case Checksum c of Some k \<Rightarrow>
        dataCheck dc ''checksum'' (requireEngine eng ''checksum'' (\<lambda>e. checksum e k)) w
      | None \<Rightarrow> (case Smoke c of Some k \<Rightarrow>
        dataCheck dc ''smoke'' (requireEngine eng ''smoke'' (\<lambda>e. smoke e k)) w
      | None \<Rightarrow> (case Canary c of Some k \<Rightarrow>
        dataCheck dc ''canary'' (requireEngine eng ''canary'' (\<lambda>e. canary e k)) w
      | None \<Rightarrow> (case PodsReady c of Some k \<Rightarrow>
        dataCheck dc ''podsReady'' (podsReady rt (dc_K8s dc) (dc_Namespace dc) k) w
      | None \<Rightarrow> (case ResourceCount c of Some k \<Rightarrow>
        dataCheck dc ''resourceCount'' (resourceCount (dc_K8s dc) (dc_Namespace dc) k) w
      | None \<Rightarrow> (result ''unknown'' False (Msg ''unrecognized check'' []), w)))))))))"

fun Run ::
  "'w Runtime \<Rightarrow> 'w Engine option \<Rightarrow> Check list \<Rightarrow> 'w Context \<Rightarrow> 'w \<Rightarrow> Result list \<times> 'w" where
  "Run rt eng [] dc w = ([], w)"
| "Run rt eng (c # cs) dc w =
     (let (r, w1) = runOne rt eng c dc w; (rs, w2) = Run rt eng cs dc w1 in (r # rs, w2))"

section \<open>One result per check\<close>

lemma Run_length: "length (fst (Run rt eng cs dc w)) = length cs"
  by (induction cs arbitrary: w) (auto simp: split_beta Let_def)

text \<open>The kind of a well-formed check is the first field that is set.\<close>

definition check_name :: "Check \<Rightarrow> string" where
  "check_name c =
     (if RestoreSucceeded c \<noteq> None then ''restoreSucceeded'' else if Freshness c \<noteq> None then ''freshness''
      else if RowCount c \<noteq> None then ''rowCount'' else if Checksum c \<noteq> None then ''checksum''
      else if Smoke c \<noteq> None then ''smoke'' else if Canary c \<noteq> None then ''canary''
      else if PodsReady c \<noteq> None then ''podsReady'' else if ResourceCount c \<noteq> None then ''resourceCount''
      else ''unknown'')"

text \<open>With exactly one field set, the data checks are those that are neither \<open>restoreSucceeded\<close>
  nor \<open>freshness\<close>.\<close>

lemma wf_check_provesData:
  "wf_check c \<Longrightarrow> provesData c \<longleftrightarrow> RestoreSucceeded c = None \<and> Freshness c = None"
  by (cases "RestoreSucceeded c"; cases "Freshness c")
    (auto simp: wf_check_def set_fields_def provesData_def isSQL_def isK8s_def split: if_splits)

lemma wf_check_some_field:
  "wf_check c \<Longrightarrow> RestoreSucceeded c = None \<Longrightarrow> Freshness c = None \<Longrightarrow> RowCount c = None \<Longrightarrow>
   Checksum c = None \<Longrightarrow> Smoke c = None \<Longrightarrow> Canary c = None \<Longrightarrow> PodsReady c = None \<Longrightarrow>
   ResourceCount c \<noteq> None"
  by (cases "ResourceCount c") (simp_all add: wf_check_def set_fields_def)

lemma vr_Name_data:
  "vr_Name (fst (rowCount e k w)) = ''rowCount''" "vr_Name (fst (checksum e k' w)) = ''checksum''"
  "vr_Name (fst (smoke e s w)) = ''smoke''" "vr_Name (fst (canary e n w)) = ''canary''"
  by (simp_all add: rowCount_def checksum_def smoke_def canary_def Let_def split: prod.splits sum.splits)

lemma podsReady_loop_name:
  "podsReady_loop rt k ns c dl fuel st ld w = Some (r, w') \<Longrightarrow> vr_Name r = ''podsReady''"
  by (induction rt k ns c dl fuel st ld w rule: podsReady_loop.induct)
    (auto simp: podsReady_timeout_def split: if_splits option.splits prod.splits sum.splits)

lemma podsReady_name: "vr_Name (fst (podsReady rt cli ns c w)) = ''podsReady''"
  by (auto simp: podsReady_def podsReady_timeout_def dest: podsReady_loop_name split: option.splits)

lemma resourceCount_name: "vr_Name (fst (resourceCount cli ns c w)) = ''resourceCount''"
  by (auto simp: resourceCount_def Let_def split: option.splits prod.splits sum.splits)

lemma dataCheck_name:
  "(\<And>w. vr_Name (fst (run w)) = n) \<Longrightarrow> vr_Name (fst (dataCheck dc n run w)) = n"
  by (simp add: dataCheck_def)

lemma requireEngine_name:
  "(\<And>e w. vr_Name (fst (run e w)) = n) \<Longrightarrow> vr_Name (fst (requireEngine eng n run w)) = n"
  by (simp add: requireEngine_def split: option.splits)

lemma runOne_name: "vr_Name (fst (runOne rt eng c dc w)) = check_name c"
  unfolding runOne_def check_name_def
  by (auto simp: dataCheck_name requireEngine_name vr_Name_data podsReady_name resourceCount_name
      split: option.splits)

lemma Run_names: "map vr_Name (fst (Run rt eng cs dc w)) = map check_name cs"
  by (induction cs arbitrary: w) (simp_all add: split_beta Let_def runOne_name)

lemma check_name_known: "wf_check c \<Longrightarrow> check_name c \<noteq> ''unknown''"
  using wf_check_some_field[of c] by (cases "RestoreSucceeded c") (auto simp: check_name_def)

text \<open>
  \<open>Run\<close> returns one result per check, in the order of the checks and under the name of its
  kind; on validated checks the \<open>unrecognized check\<close> branch is never taken.
\<close>

lemma Run_one_result_per_check:
  assumes "list_all wf_check cs"
  shows "map vr_Name (fst (Run rt eng cs dc w)) = map check_name cs \<and>
    ''unknown'' \<notin> set (map vr_Name (fst (Run rt eng cs dc w)))"
proof -
  have "''unknown'' \<notin> check_name ` set cs"
    using assms check_name_known by (fastforce simp: list_all_iff)
  then show ?thesis by (simp add: Run_names del: set_map) simp
qed

lemma Run_one_result_per_check_example:
  "\<forall>(rt :: nat Runtime) eng dc w.
     map vr_Name (fst (Run rt eng (drillChecks demo_drill) dc w)) = [''restoreSucceeded'', ''rowCount'']"
proof (intro allI)
  fix rt :: "nat Runtime" and eng dc w
  have "list_all wf_check (drillChecks demo_drill)" using demo_drill_wf by (simp add: wf_drill_def)
  then show "map vr_Name (fst (Run rt eng (drillChecks demo_drill) dc w)) = [''restoreSucceeded'', ''rowCount'']"
    using Run_one_result_per_check[of "drillChecks demo_drill" rt eng dc w]
    by (simp add: demo_drill_def demo_check_def check_name_def)
qed

section \<open>A failed restore\<close>

lemma runOne_restore_failed:
  assumes "dc_RestoreErr dc = Some e" and "wf_check c"
  shows "snd (runOne rt eng c dc w) = w" and "vr_Skipped (fst (runOne rt eng c dc w)) \<longleftrightarrow> provesData c"
    and "vr_Passed (fst (runOne rt eng c dc w)) \<longleftrightarrow>
      (\<exists>f. Freshness c = Some f \<and> dc_BackupAge dc \<le> fc_MaxAge f)"
proof -
  have "RestoreSucceeded c \<noteq> None \<Longrightarrow> Freshness c = None"
    using assms(2) by (auto simp: wf_check_def set_fields_def split: if_splits)
  then show "snd (runOne rt eng c dc w) = w" "vr_Skipped (fst (runOne rt eng c dc w)) \<longleftrightarrow> provesData c"
    "vr_Passed (fst (runOne rt eng c dc w)) \<longleftrightarrow>
      (\<exists>f. Freshness c = Some f \<and> dc_BackupAge dc \<le> fc_MaxAge f)"
    using assms wf_check_some_field[of c] wf_check_provesData[of c]
    by (cases "RestoreSucceeded c"; auto simp: runOne_def dataCheck_def split: option.splits)+
qed

lemma Run_restore_failed_aux:
  assumes "dc_RestoreErr dc = Some e" and "list_all wf_check cs"
  shows "snd (Run rt eng cs dc w) = w \<and>
    map vr_Skipped (fst (Run rt eng cs dc w)) = map provesData cs \<and>
    map vr_Passed (fst (Run rt eng cs dc w)) =
      map (\<lambda>c. \<exists>f. Freshness c = Some f \<and> dc_BackupAge dc \<le> fc_MaxAge f) cs"
  using assms(2)
  by (induction cs) (auto simp: split_beta Let_def runOne_restore_failed[OF assms(1)])

text \<open>
  C12: when the restore failed, \<open>Run\<close> touches neither engine nor cluster, every data-proving check is
  reported as skipped (and no other), and only a freshness check can still pass.
\<close>

theorem Run_restore_failed:
  assumes "dc_RestoreErr dc = Some e" and "list_all wf_check cs"
  shows "snd (Run rt eng cs dc w) = w \<and>
    map vr_Skipped (fst (Run rt eng cs dc w)) = map provesData cs \<and>
    map vr_Passed (fst (Run rt eng cs dc w)) =
      map (\<lambda>c. \<exists>f. Freshness c = Some f \<and> dc_BackupAge dc \<le> fc_MaxAge f) cs"
  by (rule Run_restore_failed_aux[OF assms])

theorem Run_restore_failed_witness:
  "\<forall>(rt :: nat Runtime) eng w.
     map vr_Skipped (fst (Run rt eng (drillChecks demo_drill)
       \<lparr>dc_RestoreErr = Some (Msg ''boom'' []), dc_BackupAge = 0, dc_RTO = 0, dc_K8s = None, dc_Namespace = []\<rparr> w))
     = [False, True]"
proof (intro allI)
  fix rt :: "nat Runtime" and eng w
  let ?dc = "\<lparr>dc_RestoreErr = Some (Msg ''boom'' []), dc_BackupAge = 0, dc_RTO = 0, dc_K8s = None,
    dc_Namespace = []\<rparr>"
  have "list_all wf_check (drillChecks demo_drill)" using demo_drill_wf by (simp add: wf_drill_def)
  then show "map vr_Skipped (fst (Run rt eng (drillChecks demo_drill) ?dc w)) = [False, True]"
    using Run_restore_failed[of ?dc "Msg ''boom'' []" "drillChecks demo_drill" rt eng w]
    by (simp add: demo_drill_def demo_check_def provesData_def isSQL_def isK8s_def)
qed

section \<open>Row expectations\<close>

definition rows_expr :: "string \<Rightarrow> string \<Rightarrow> string \<Rightarrow> bool" where
  "rows_expr s op t \<longleftrightarrow> op \<in> set rows_ops \<and> t \<noteq> [] \<and> list_all is_digit t \<and>
     (\<exists>sp. list_all re_space sp \<and> s = op @ sp @ t)"

lemma digit_not_space [simp]: "is_digit c \<Longrightarrow> \<not> re_space c"
  by (auto simp: is_digit_def re_space_def)

lemma dropWhile_space_digits:
  "list_all re_space sp \<Longrightarrow> t \<noteq> [] \<Longrightarrow> list_all is_digit t \<Longrightarrow> dropWhile re_space (sp @ t) = t"
  by (induction sp) (auto simp: neq_Nil_conv)

lemma rows_tail_Some:
  "rows_tail r = Some t \<longleftrightarrow> t \<noteq> [] \<and> list_all is_digit t \<and> (\<exists>sp. list_all re_space sp \<and> r = sp @ t)"
proof
  assume a: "rows_tail r = Some t"
  then have "r = takeWhile re_space r @ t" "list_all re_space (takeWhile re_space r)"
    by (auto simp: rows_tail_def Let_def list_all_iff dest: set_takeWhileD split: if_splits)
  then show "t \<noteq> [] \<and> list_all is_digit t \<and> (\<exists>sp. list_all re_space sp \<and> r = sp @ t)"
    using a by (auto simp: rows_tail_def Let_def split: if_splits)
next
  assume "t \<noteq> [] \<and> list_all is_digit t \<and> (\<exists>sp. list_all re_space sp \<and> r = sp @ t)"
  moreover from this have "dropWhile re_space r = t" using dropWhile_space_digits by blast
  ultimately show "rows_tail r = Some t" unfolding rows_tail_def by (simp only: Let_def if_True simp_thms)
qed

lemma rows_submatch_sound:
  "rows_submatch ops s = Some (op, t) \<Longrightarrow> op \<in> set ops \<and> hasPrefix s op \<and> rows_tail (drop (length op) s) = Some t"
  by (induction ops) (auto split: if_splits option.splits)

lemma rows_submatch_complete:
  "rows_submatch ops s = None \<Longrightarrow> op \<in> set ops \<Longrightarrow> hasPrefix s op \<Longrightarrow> rows_tail (drop (length op) s) = None"
  by (induction ops) (auto split: if_splits option.splits)

lemma rows_expr_tail:
  "rows_expr s op t \<longleftrightarrow> op \<in> set rows_ops \<and> hasPrefix s op \<and> rows_tail (drop (length op) s) = Some t"
  by (auto simp: rows_expr_def rows_tail_Some hasPrefix_def prefix_def)

text \<open>The operator is the longest prefix made of comparison characters, so it is unique.\<close>

lemma rows_expr_op:
  assumes "rows_expr s op t"
  shows "takeWhile (\<lambda>c. c \<in> set ''<>='') s = op"
proof -
  obtain sp where s: "s = op @ sp @ t" "list_all re_space sp" "t \<noteq> []" "list_all is_digit t"
    and op: "op \<in> set rows_ops"
    using assms by (auto simp: rows_expr_def)
  have "hd (sp @ t) \<notin> set ''<>=''" "sp @ t \<noteq> []"
    using s by (cases sp; cases t; auto simp: re_space_def is_digit_def)+
  then have "takeWhile (\<lambda>c. c \<in> set ''<>='') (sp @ t) = []"
    by (cases "sp @ t") auto
  moreover have "\<forall>c \<in> set op. c \<in> set ''<>=''" using op by (auto simp: rows_ops_def)
  ultimately show ?thesis using s(1) by (simp only: takeWhile_append2 append_Nil2)
qed

lemma rows_submatch_iff: "rows_submatch rows_ops s = Some (op, t) \<longleftrightarrow> rows_expr s op t"
proof
  assume e: "rows_expr s op t"
  then obtain op' t' where r: "rows_submatch rows_ops s = Some (op', t')"
    using rows_submatch_complete[of rows_ops s op] by (cases "rows_submatch rows_ops s") (auto simp: rows_expr_tail)
  then have e': "rows_expr s op' t'" using rows_submatch_sound rows_expr_tail by blast
  then have "op' = op" using e rows_expr_op by blast
  then show "rows_submatch rows_ops s = Some (op, t)" using r e e' by (simp add: rows_expr_tail)
qed (use rows_submatch_sound rows_expr_tail in blast)

lemma rowsExprRe_match: "rx_match rowsExprRe s \<longleftrightarrow> (\<exists>op t. rows_expr s op t)"
proof -
  have d: "rx_lang (RSeq (RCls is_digit) (RStar (RCls is_digit))) = {t. t \<noteq> [] \<and> list_all is_digit t}"
    unfolding rx_lang_plus_cls by (auto simp: neq_Nil_conv)
  have o: "rx_lang (foldr (\<lambda>lit r. RAlt (rx_lit lit) r) ops RNone) = set ops" for ops
    by (induction ops) auto
  show ?thesis
    unfolding rx_match_lang rowsExprRe_def rows_expr_def rx_lang.simps(4)[of "foldr _ _ _"] o
      rx_lang.simps(4)[of "RStar _"] d rx_lang_star_cls by blast
qed

text \<open>What an expectation says, read off its text: the operator with the comparison it stands for,
  white space, and a decimal number.\<close>

definition rows_reads :: "string \<Rightarrow> (int \<Rightarrow> int \<Rightarrow> bool) \<Rightarrow> nat \<Rightarrow> bool" where
  "rows_reads s rel v \<longleftrightarrow>
     (\<exists>op sp t. s = op @ sp @ t \<and>
        ((op = ''>='' \<and> rel = (\<ge>)) \<or> (op = ''<='' \<and> rel = (\<le>)) \<or> (op = ''=='' \<and> rel = (=)) \<or>
         (op = ''>'' \<and> rel = (>)) \<or> (op = ''<'' \<and> rel = (<))) \<and>
        (\<forall>c \<in> set sp. byte c \<in> {9, 10, 12, 13, 32}) \<and>
        t \<noteq> [] \<and> (\<forall>c \<in> set t. 48 \<le> byte c \<and> byte c \<le> 57) \<and>
        v = foldl (\<lambda>a c. 10 * a + (byte c - 48)) 0 t)"

lemma digits_val_foldl: "digits_val a t = foldl (\<lambda>a c. 10 * a + (byte c - 48)) a t"
  by (induction t arbitrary: a) auto

lemma rows_cmp_ops:
  "rows_cmp ''>='' = (\<ge>)" "rows_cmp ''<='' = (\<le>)" "rows_cmp ''=='' = (=)" "rows_cmp ''>'' = (>)"
  "rows_cmp ''<'' = (<)"
  by (intro ext, simp add: rows_cmp_def)+

lemma rows_reads_expr:
  "rows_reads s rel v \<longleftrightarrow> (\<exists>op t. rows_expr s op t \<and> rel = rows_cmp op \<and> v = digits_val 0 t)"
proof -
  have ops: "op \<in> set rows_ops \<and> rel = rows_cmp op \<longleftrightarrow>
    (op = ''>='' \<and> rel = (\<ge>)) \<or> (op = ''<='' \<and> rel = (\<le>)) \<or> (op = ''=='' \<and> rel = (=)) \<or>
    (op = ''>'' \<and> rel = (>)) \<or> (op = ''<'' \<and> rel = (<))" for op
    unfolding rows_ops_def using rows_cmp_ops by (auto simp only: list.set insert_iff empty_iff)
  show ?thesis
    unfolding rows_reads_def rows_expr_def ops[symmetric] digits_val_foldl list_all_iff is_digit_def re_space_def
    by blast
qed

text \<open>
  C13: what \<open>expectRows\<close> means. After trimming white space the expression must be one of the five
  operators, white space and a decimal number; the check then compares the row count with that
  number, clipped to the largest \<open>int\<close>, by the comparison the operator is written for. Anything else,
  which is exactly what \<open>rowsExprRe\<close> does not match, is an error.
\<close>

theorem evalRows_spec:
  "(evalRows n expr = Inr b \<longleftrightarrow>
     (\<exists>rel v. rows_reads (strings_TrimSpace expr) rel v \<and> b = rel n (min (int v) (2 ^ 63 - 1)))) \<and>
   ((\<exists>e. evalRows n expr = Inl e) \<longleftrightarrow> (\<nexists>rel v. rows_reads (strings_TrimSpace expr) rel v)) \<and>
   ((\<exists>e. evalRows n expr = Inl e) \<longleftrightarrow> \<not> rx_match rowsExprRe (strings_TrimSpace expr))"
  by (auto simp: evalRows_def rowsExprRe_match rows_reads_expr rows_submatch_iff[symmetric] atoi_digits_def
      split: option.splits)

section \<open>The canary leaks nothing\<close>

text \<open>
  C11: a canary result depends on the sentinel and on the restored value only through whether they
  are equal: two runs, with whatever expected and restored values, that agree on that report the
  same result, detail text included. It passes exactly when the query returned the expected value.
\<close>

theorem canary_no_leak:
  assumes "eng_Scalar e1 (canary_Statement c1) w1 = (Inr got1, w1')"
    and "eng_Scalar e2 (canary_Statement c2) w2 = (Inr got2, w2')"
  shows "((got1 = cn_Expect c1) = (got2 = cn_Expect c2) \<longrightarrow> fst (canary e1 c1 w1) = fst (canary e2 c2 w2)) \<and>
    (vr_Passed (fst (canary e1 c1 w1)) \<longleftrightarrow> got1 = cn_Expect c1)"
  using assms by (auto simp: canary_def)

definition const_engine :: "string \<Rightarrow> nat Engine" where
  "const_engine s = \<lparr>eng_Count = \<lambda>q w. (Inr 2, w), eng_Rows = \<lambda>q w. (Inr 2, w),
     eng_Scalar = \<lambda>q w. (Inr s, w + 1), eng_Checksum = \<lambda>t c w. (Inr (t @ c), w)\<rparr>"

theorem canary_no_leak_witness:
  "fst (canary (const_engine ''s3cret'') \<lparr>cn_SQL = ''q'', cn_Query = [], cn_Expect = ''s3cret''\<rparr> 0) =
   fst (canary (const_engine ''other'') \<lparr>cn_SQL = ''p'', cn_Query = [], cn_Expect = ''other''\<rparr> 7) \<and>
   \<not> vr_Passed (fst (canary (const_engine ''x'') \<lparr>cn_SQL = ''q'', cn_Query = [], cn_Expect = ''s3cret''\<rparr> 0))"
  using canary_no_leak[of "const_engine ''s3cret''" "\<lparr>cn_SQL = ''q'', cn_Query = [], cn_Expect = ''s3cret''\<rparr>" 0
      "''s3cret''" 1 "const_engine ''other''" "\<lparr>cn_SQL = ''p'', cn_Query = [], cn_Expect = ''other''\<rparr>" 7 "''other''" 8]
    canary_no_leak[of "const_engine ''x''" "\<lparr>cn_SQL = ''q'', cn_Query = [], cn_Expect = ''s3cret''\<rparr>" 0 "''x''" 1
      "const_engine ''x''" "\<lparr>cn_SQL = ''q'', cn_Query = [], cn_Expect = ''s3cret''\<rparr>" 0 "''x''" 1]
  by (simp add: const_engine_def)

section \<open>Identifiers\<close>

definition ident :: "string \<Rightarrow> bool" where
  "ident s \<longleftrightarrow> s \<noteq> [] \<and> is_ident_start (hd s) \<and> list_all is_ident_char s"

lemma identRe_ident: "rx_match identRe s \<longleftrightarrow> ident s"
  unfolding rx_match_lang identRe_def rx_lang_plus_cls
  by (cases s) (auto simp: ident_def is_ident_char_def)

text \<open>
  C14: the engine's \<open>Checksum\<close> is only ever called with a table and a column made of letters, digits,
  underscores and dots, the first of them no digit and no dot: engines that answer such calls
  alike give the same checksum result on every other input too, and an invalid identifier
  leaves the database untouched.
\<close>

theorem checksum_only_identifiers:
  assumes "\<And>t k w. ident t \<Longrightarrow> ident k \<Longrightarrow> eng_Checksum e1 t k w = eng_Checksum e2 t k w"
  shows "checksum e1 c w = checksum e2 c w \<and>
    (\<not> (ident (cc_Table c) \<and> ident (cc_Column c)) \<longrightarrow>
       snd (checksum e1 c w) = w \<and> \<not> vr_Passed (fst (checksum e1 c w)))"
  using assms by (auto simp: checksum_def identRe_ident)

theorem checksum_only_identifiers_witness:
  "checksum (const_engine ''a'') \<lparr>cc_Table = ''t; drop'', cc_Column = ''c'', cc_Expect = []\<rparr> 0 =
   checksum (const_engine ''b'') \<lparr>cc_Table = ''t; drop'', cc_Column = ''c'', cc_Expect = []\<rparr> 0 \<and>
   snd (checksum (const_engine ''a'') \<lparr>cc_Table = ''t; drop'', cc_Column = ''c'', cc_Expect = []\<rparr> 0) = 0"
  using checksum_only_identifiers[of "const_engine ''a''" "const_engine ''b''"
      "\<lparr>cc_Table = ''t; drop'', cc_Column = ''c'', cc_Expect = []\<rparr>" 0]
  by (auto simp: const_engine_def ident_def is_ident_char_def is_ident_start_def is_digit_def)

section \<open>podsReady\<close>

text \<open>The state before the \<open>k\<close>-th poll, whether that poll is made (deadline not reached, context
  alive), and whether it sees a non-empty namespace with every pod ready.\<close>

fun poll_state :: "'w Runtime \<Rightarrow> 'w K8s \<Rightarrow> string \<Rightarrow> nat \<Rightarrow> 'w \<Rightarrow> 'w" where
  "poll_state rt cli ns 0 w = w"
| "poll_state rt cli ns (Suc k) w =
     poll_state rt cli ns k (rt_Sleep rt (2 * Second) (snd (k8s_Pods cli ns w)))"

definition poll_made :: "'w Runtime \<Rightarrow> gotime \<Rightarrow> 'w \<Rightarrow> bool" where
  "poll_made rt deadline w \<longleftrightarrow> rt_Now rt w < deadline \<and> rt_CtxErr rt w = None"

text \<open>A pod counts as up when it has succeeded, or runs and the first of its conditions that is
  about readiness is true.\<close>

definition pod_up :: "Pod \<Rightarrow> bool" where
  "pod_up p \<longleftrightarrow> pod_Phase p = ''Succeeded'' \<or>
     (pod_Phase p = ''Running'' \<and>
      (\<exists>cond. find (\<lambda>x. pc_Type x = ''Ready'') (pod_Conditions p) = Some cond \<and> pc_Status cond = ''True''))"

definition poll_ready :: "'w K8s \<Rightarrow> string \<Rightarrow> 'w \<Rightarrow> bool" where
  "poll_ready cli ns w \<longleftrightarrow> (\<exists>pods. fst (k8s_Pods cli ns w) = Inr pods \<and> pods \<noteq> [] \<and> list_all pod_up pods)"

lemma ready_condition_find:
  "ready_condition cs \<longleftrightarrow> (\<exists>cond. find (\<lambda>x. pc_Type x = ''Ready'') cs = Some cond \<and> pc_Status cond = ''True'')"
  by (induction cs) auto

lemma pod_up_iff: "pod_up p \<longleftrightarrow> pod_Phase p = ''Succeeded'' \<or> podIsReady p"
  by (simp add: pod_up_def podIsReady_def ready_condition_find)

lemma notReady_0: "notReady ps = 0 \<longleftrightarrow> list_all pod_up ps"
  by (auto simp: notReady_def pod_up_iff list_all_iff filter_empty_conv)

lemma podsReady_loop_unready:
  "poll_made rt dl w \<Longrightarrow> \<not> poll_ready cli ns w \<Longrightarrow>
   \<exists>d. podsReady_loop rt cli ns c dl (Suc n) st ld w =
     podsReady_loop rt cli ns c dl n 0 d (poll_state rt cli ns 1 w)"
  by (auto simp: poll_made_def poll_ready_def notReady_0 split: prod.splits sum.splits)

lemma podsReady_loop_ready:
  "poll_made rt dl w \<Longrightarrow> poll_ready cli ns w \<Longrightarrow> st < 2 \<Longrightarrow>
   podsReady_loop rt cli ns c dl (Suc n) st ld w =
     podsReady_loop rt cli ns c dl n (st + 1) ld (poll_state rt cli ns 1 w)"
  by (auto simp: poll_made_def poll_ready_def notReady_0 stablePolls_def split: prod.splits sum.splits)

lemma podsReady_loop_pass:
  "poll_made rt dl w \<Longrightarrow> poll_ready cli ns w \<Longrightarrow> 2 \<le> st \<Longrightarrow>
   \<exists>r w'. podsReady_loop rt cli ns c dl (Suc n) st ld w = Some (r, w') \<and> vr_Passed r"
  by (auto simp: poll_made_def poll_ready_def notReady_0 stablePolls_def split: prod.splits sum.splits)

lemma podsReady_loop_stop:
  "\<not> poll_made rt dl w \<Longrightarrow> \<exists>r w'. podsReady_loop rt cli ns c dl (Suc n) st ld w = Some (r, w') \<and> \<not> vr_Passed r"
  by (auto simp: poll_made_def podsReady_timeout_def split: option.splits)

declare podsReady_loop.simps(2) [simp del]

text \<open>A run of ready polls that ends with poll \<open>k\<close> and, with \<open>s\<close> ready polls before poll 0, is
  three long.\<close>

definition streak_at :: "'w Runtime \<Rightarrow> 'w K8s \<Rightarrow> string \<Rightarrow> gotime \<Rightarrow> nat \<Rightarrow> nat \<Rightarrow> 'w \<Rightarrow> bool" where
  "streak_at rt cli ns dl s k w \<longleftrightarrow>
     (\<forall>j \<le> k. poll_made rt dl (poll_state rt cli ns j w)) \<and>
     (\<exists>m \<le> k. (\<forall>j. m \<le> j \<and> j \<le> k \<longrightarrow> poll_ready cli ns (poll_state rt cli ns j w)) \<and>
        3 \<le> k - m + 1 + (if m = 0 then s else 0))"

lemma all_le_Suc: "(\<forall>j \<le> Suc k. P j) \<longleftrightarrow> P 0 \<and> (\<forall>j \<le> k. P (Suc j))"
  by (metis Suc_le_mono le0 not0_implies_Suc)

lemma ex_le_Suc: "(\<exists>j \<le> Suc k. P j) \<longleftrightarrow> P 0 \<or> (\<exists>j \<le> k. P (Suc j))"
  by (metis Suc_le_mono le0 not0_implies_Suc)

lemma streak_at_0: "streak_at rt cli ns dl s 0 w \<longleftrightarrow> poll_made rt dl w \<and> poll_ready cli ns w \<and> 2 \<le> s"
  by (auto simp: streak_at_def)

lemma streak_at_Suc:
  "streak_at rt cli ns dl s (Suc k) w \<longleftrightarrow> poll_made rt dl w \<and>
     streak_at rt cli ns dl (if poll_ready cli ns w then s + 1 else 0) k (poll_state rt cli ns 1 w)"
proof -
  define R where "R j = poll_ready cli ns (poll_state rt cli ns j w)" for j
  have sh: "poll_state rt cli ns j (poll_state rt cli ns 1 w) = poll_state rt cli ns (Suc j) w" for j
    by simp
  have r0: "R 0 = poll_ready cli ns w" by (simp add: R_def)
  have "(\<exists>m \<le> Suc k. (\<forall>j. m \<le> j \<and> j \<le> Suc k \<longrightarrow> R j) \<and> 3 \<le> Suc k - m + 1 + (if m = 0 then s else 0)) \<longleftrightarrow>
    (\<exists>m \<le> k. (\<forall>j. m \<le> j \<and> j \<le> k \<longrightarrow> R (Suc j)) \<and>
      3 \<le> k - m + 1 + (if m = 0 then (if R 0 then s + 1 else 0) else 0))" (is "?L \<longleftrightarrow> ?M")
  proof
    assume ?L
    then obtain m where m: "m \<le> Suc k" "\<forall>j. m \<le> j \<and> j \<le> Suc k \<longrightarrow> R j"
      "3 \<le> Suc k - m + 1 + (if m = 0 then s else 0)" by blast
    then show ?M by (intro exI[of _ "m - 1"]) (auto split: if_splits)
  next
    assume ?M
    then obtain m where m: "m \<le> k" "\<forall>j. m \<le> j \<and> j \<le> k \<longrightarrow> R (Suc j)"
      "3 \<le> k - m + 1 + (if m = 0 then (if R 0 then s + 1 else 0) else 0)" by blast
    show ?L
    proof (cases "m = 0 \<and> R 0")
      case True
      then have "R j" if "j \<le> Suc k" for j using m(2) that by (cases j) auto
      then show ?thesis using True m by (intro exI[of _ 0]) auto
    next
      case False
      have "R j" if "Suc m \<le> j" "j \<le> Suc k" for j using m(2) that by (cases j) auto
      then show ?thesis using False m by (intro exI[of _ "Suc m"]) (auto split: if_splits)
    qed
  qed
  then show ?thesis
    unfolding streak_at_def sh all_le_Suc R_def[symmetric] r0[symmetric] by (auto simp: R_def)
qed

lemma podsReady_loop_passes:
  "(\<exists>r w'. podsReady_loop rt cli ns c dl n (int s) ld w = Some (r, w') \<and> vr_Passed r) \<longleftrightarrow>
   (\<exists>k < n. streak_at rt cli ns dl s k w)"
proof (induction n arbitrary: s ld w)
  case (Suc n)
  have ex: "(\<exists>k < Suc n. streak_at rt cli ns dl s k w) \<longleftrightarrow>
    streak_at rt cli ns dl s 0 w \<or> (\<exists>k < n. streak_at rt cli ns dl s (Suc k) w)"
    by (metis Suc_less_eq not0_implies_Suc zero_less_Suc)
  show ?case
  proof (cases "poll_made rt dl w")
    case False
    then show ?thesis using podsReady_loop_stop[of rt dl w cli ns c n "int s" ld] ex streak_at_0 streak_at_Suc
      by fastforce
  next
    case made: True
    show ?thesis
    proof (cases "poll_ready cli ns w")
      case ready: True
      show ?thesis
      proof (cases "2 \<le> s")
        case True
        then show ?thesis
          using podsReady_loop_pass[OF made ready, of "int s" c n ld] made ready ex streak_at_0 by fastforce
      next
        case False
        then show ?thesis
          using podsReady_loop_ready[OF made ready, of "int s" c n ld] made ready ex Suc.IH[of "s + 1" ld]
          by (simp add: streak_at_0 streak_at_Suc add.commute)
      qed
    next
      case unready: False
      obtain d where "podsReady_loop rt cli ns c dl (Suc n) (int s) ld w =
        podsReady_loop rt cli ns c dl n 0 d (poll_state rt cli ns 1 w)"
        using podsReady_loop_unready[OF made unready] by blast
      then show ?thesis using made unready ex Suc.IH[of 0 d "poll_state rt cli ns 1 w"]
        by (simp add: streak_at_0 streak_at_Suc)
    qed
  qed
qed simp

lemma podsReady_loop_returns_aux:
  assumes "rt_clock rt" and "rt_forward rt (k8s_Pods cli ns)"
  shows "dl - rt_Now rt w < int n * (2 * Second) \<Longrightarrow> podsReady_loop rt cli ns c dl (Suc n) st ld w \<noteq> None"
proof (induction n arbitrary: st ld w)
  case 0
  then have "\<not> poll_made rt dl w" by (simp add: poll_made_def)
  then show ?case using podsReady_loop_stop by fastforce
next
  case (Suc n)
  let ?w = "poll_state rt cli ns 1 w"
  have "rt_Now rt w \<le> rt_Now rt (snd (k8s_Pods cli ns w))" using assms(2) by (simp add: rt_forward_def)
  moreover have "rt_Now rt (snd (k8s_Pods cli ns w)) + 2 * Second \<le> rt_Now rt ?w"
    using assms(1) by (simp add: rt_clock_def)
  ultimately have "dl - rt_Now rt ?w < int n * (2 * Second)" using Suc.prems by (simp add: algebra_simps)
  then have ih: "podsReady_loop rt cli ns c dl (Suc n) st' ld' ?w \<noteq> None" for st' ld' using Suc.IH by blast
  show ?case
    using ih podsReady_loop_stop[of rt dl w] podsReady_loop_unready[of rt dl w cli ns c "Suc n" st ld]
      podsReady_loop_ready[of rt dl w cli ns st c "Suc n" ld] podsReady_loop_pass[of rt dl w cli ns st c "Suc n" ld]
    by (metis not_le option.discI)
qed

lemma podsReady_fuel_enough:
  assumes "rt_clock rt" and "rt_forward rt (k8s_Pods cli ns)"
  shows "podsReady_loop rt cli ns c (rt_Now rt w + pr_Timeout c) (podsReady_fuel c + n) st ld w \<noteq> None"
proof -
  have "pr_Timeout c < (pr_Timeout c div (2 * Second) + 1) * (2 * Second)"
    by simp
  also have "\<dots> \<le> int (nat (pr_Timeout c div (2 * Second)) + 1 + n) * (2 * Second)"
    by (rule mult_right_mono) auto
  finally show ?thesis
    using podsReady_loop_returns_aux[OF assms, of "rt_Now rt w + pr_Timeout c" w
        "nat (pr_Timeout c div (2 * Second)) + 1 + n"]
    by (simp add: podsReady_fuel_def)
qed

text \<open>More fuel than the loop uses changes nothing.\<close>

lemma podsReady_loop_mono:
  "podsReady_loop rt cli ns c dl n st ld w = Some r \<Longrightarrow> podsReady_loop rt cli ns c dl (n + m) st ld w = Some r"
proof (induction rt cli ns c dl n st ld w rule: podsReady_loop.induct)
  case (2 rt cli ns c dl n st ld w)
  then show ?case
    unfolding add_Suc podsReady_loop.simps(2)
    by (auto split: option.splits prod.splits sum.splits if_splits)
qed simp

text \<open>A failed check ended at the first poll that was not made, and a cancelled context is what it
  reports.\<close>

lemma podsReady_loop_fails:
  "podsReady_loop rt cli ns c dl n st ld w = Some (r, w1) \<Longrightarrow> \<not> vr_Passed r \<Longrightarrow>
   \<exists>k < n. (\<forall>j < k. poll_made rt dl (poll_state rt cli ns j w)) \<and> w1 = poll_state rt cli ns k w \<and>
     \<not> poll_made rt dl w1 \<and> (rt_Now rt w1 < dl \<longrightarrow> rt_CtxErr rt w1 = Some (vr_Detail r))"
proof (induction n arbitrary: st ld w)
  case (Suc n)
  show ?case
  proof (cases "poll_made rt dl w")
    case False
    then show ?thesis using Suc.prems
      by (intro exI[of _ 0]) (auto simp: podsReady_loop.simps(2) poll_made_def split: if_splits option.splits)
  next
    case True
    then obtain st' ld' where "podsReady_loop rt cli ns c dl n st' ld' (poll_state rt cli ns 1 w) = Some (r, w1)"
      using Suc.prems podsReady_loop_unready[of rt dl w cli ns c n st ld]
        podsReady_loop_ready[of rt dl w cli ns st c n ld] podsReady_loop_pass[of rt dl w cli ns st c n ld]
      by (metis not_le option.inject prod.inject)
    from Suc.IH[OF this Suc.prems(2)] obtain k where
      k: "k < n" "\<forall>j < k. poll_made rt dl (poll_state rt cli ns (Suc j) w)" "w1 = poll_state rt cli ns (Suc k) w"
        "\<not> poll_made rt dl w1" "rt_Now rt w1 < dl \<longrightarrow> rt_CtxErr rt w1 = Some (vr_Detail r)" by auto
    then show ?thesis using True by (intro exI[of _ "Suc k"]) (auto simp: less_Suc_eq_0_disj)
  qed
qed simp

text \<open>
  C10: \<open>podsReady\<close> ends: its loop returns within \<open>podsReady_fuel\<close> polls, and that is the result of
  the check. It passes exactly when three consecutive polls, all of them made before the deadline
  and before the context was cancelled, each saw a non-empty namespace in which every pod is ready
  or has succeeded. When it fails it has stopped at the first poll that was due after the deadline or
  under a cancelled context, without making it, and a cancelled context is reported. The clock is assumed to advance by what is slept and
  not to run backwards.
\<close>

theorem podsReady_passes_iff:
  assumes "rt_clock rt" and "rt_forward rt (k8s_Pods cli ns)"
  shows "\<exists>r w1. podsReady_loop rt cli ns c (rt_Now rt w + pr_Timeout c) (podsReady_fuel c) 0 (Msg [] []) w = Some (r, w1) \<and>
    podsReady rt (Some cli) ns c w = (r, w1) \<and>
    (vr_Passed r \<longleftrightarrow>
      (\<exists>k. (\<forall>j \<le> k + 2. poll_made rt (rt_Now rt w + pr_Timeout c) (poll_state rt cli ns j w)) \<and>
         (\<forall>j. k \<le> j \<and> j \<le> k + 2 \<longrightarrow> poll_ready cli ns (poll_state rt cli ns j w)))) \<and>
    (\<not> vr_Passed r \<longrightarrow>
      (\<exists>k. (\<forall>j < k. poll_made rt (rt_Now rt w + pr_Timeout c) (poll_state rt cli ns j w)) \<and>
         w1 = poll_state rt cli ns k w \<and> \<not> poll_made rt (rt_Now rt w + pr_Timeout c) w1 \<and>
         (rt_Now rt w1 < rt_Now rt w + pr_Timeout c \<longrightarrow> rt_CtxErr rt w1 = Some (vr_Detail r))))"
    (is "\<exists>r w1. _ \<and> _ \<and> (_ \<longleftrightarrow> (\<exists>k. ?S k)) \<and> _")
proof -
  let ?dl = "rt_Now rt w + pr_Timeout c"
  let ?loop = "\<lambda>n. podsReady_loop rt cli ns c ?dl n 0 (Msg [] []) w"
  obtain r w' where r: "?loop (podsReady_fuel c) = Some (r, w')"
    using podsReady_fuel_enough[OF assms, of c w 0 0 "Msg [] []"] by auto
  have "podsReady rt (Some cli) ns c w = (r, w')" using r by (simp add: podsReady_def)
  moreover note podsReady_loop_fails[OF r]
  moreover have "vr_Passed r \<longleftrightarrow> (\<exists>k < podsReady_fuel c + m. streak_at rt cli ns ?dl 0 k w)" for m
    using podsReady_loop_passes[of rt cli ns c ?dl "podsReady_fuel c + m" 0 "Msg [] []" w]
      podsReady_loop_mono[OF r, of m] by auto
  moreover have "(\<exists>m. \<exists>k < podsReady_fuel c + m. streak_at rt cli ns ?dl 0 k w) \<longleftrightarrow> (\<exists>k. streak_at rt cli ns ?dl 0 k w)"
    using less_add_Suc2 by blast
  moreover have "(\<exists>k. streak_at rt cli ns ?dl 0 k w) \<longleftrightarrow> (\<exists>k. ?S k)"
  proof
    assume "\<exists>k. streak_at rt cli ns ?dl 0 k w"
    then obtain k m where k: "\<forall>j \<le> k. poll_made rt ?dl (poll_state rt cli ns j w)" "m \<le> k"
      "\<forall>j. m \<le> j \<and> j \<le> k \<longrightarrow> poll_ready cli ns (poll_state rt cli ns j w)" "3 \<le> k - m + 1"
      by (auto simp: streak_at_def)
    moreover from k have "m \<le> k - 2" "k - 2 + 2 = k" by linarith+
    ultimately have "?S (k - 2)" by (metis le_trans)
    then show "\<exists>k. ?S k" by blast
  next
    assume "\<exists>k. ?S k"
    then obtain k where "?S k" by blast
    then have "streak_at rt cli ns ?dl 0 (k + 2) w" unfolding streak_at_def by (intro conjI exI[of _ k]) auto
    then show "\<exists>k. streak_at rt cli ns ?dl 0 k w" by blast
  qed
  ultimately show ?thesis using r by blast
qed

text \<open>A cluster whose state is the number of seconds that have passed, ready from the second on.\<close>

definition demo_runtime :: "int Runtime" where
  "demo_runtime = \<lparr>rt_Now = \<lambda>w. w, rt_Sleep = \<lambda>d w. w + max 0 d, rt_CtxErr = \<lambda>w. None\<rparr>"

definition demo_k8s :: "int K8s" where
  "demo_k8s = \<lparr>k8s_Pods = \<lambda>ns w. (Inr [\<lparr>pod_Phase = ''Running'',
      pod_Conditions = [\<lparr>pc_Type = ''Ready'', pc_Status = if Second \<le> w then ''True'' else ''False''\<rparr>]\<rparr>], w),
     k8s_Len = \<lambda>k ns w. (Inr 0, w)\<rparr>"

lemma demo_runtime_clock: "rt_clock demo_runtime" "rt_forward demo_runtime (k8s_Pods demo_k8s ns)"
  by (auto simp: rt_clock_def rt_forward_def demo_runtime_def demo_k8s_def)

theorem podsReady_passes_iff_witness:
  "vr_Passed (fst (podsReady demo_runtime (Some demo_k8s) ''ns'' \<lparr>pr_Timeout = 10 * Second\<rparr> 0))"
proof -
  have st: "poll_state demo_runtime demo_k8s ns j w = w + int j * (2 * Second)" for ns j w
    by (induction j arbitrary: w) (auto simp: demo_runtime_def demo_k8s_def)
  have "poll_made demo_runtime (rt_Now demo_runtime 0 + 10 * Second) w \<longleftrightarrow> w < 10 * Second" for w
    by (simp add: poll_made_def demo_runtime_def)
  moreover have "poll_ready demo_k8s ns w \<longleftrightarrow> Second \<le> w" for ns w
    by (auto simp: poll_ready_def demo_k8s_def pod_up_def)
  ultimately have "(\<forall>j \<le> 1 + 2. poll_made demo_runtime (rt_Now demo_runtime 0 + 10 * Second)
      (poll_state demo_runtime demo_k8s ''ns'' j 0)) \<and>
    (\<forall>j. 1 \<le> j \<and> j \<le> 1 + 2 \<longrightarrow> poll_ready demo_k8s ''ns'' (poll_state demo_runtime demo_k8s ''ns'' j 0))"
    by (auto simp: st)
  then show ?thesis
    using podsReady_passes_iff[OF demo_runtime_clock, of "''ns''" "\<lparr>pr_Timeout = 10 * Second\<rparr>" 0]
    by (metis (no_types, lifting) PodsReadyCheck.select_convs(1) fst_conv)
qed

end
