(* ===== verification/FD_OS.thy ===== *)
theory FD_OS
  imports FD_Path
begin

text \<open>
  The operating system as the sources use it: files by path, with every call able to fail.

  \<open>os_fs\<close> maps a path to what is there. Which call fails, what a failing write leaves behind and
  which random name a temporary file gets are oracles indexed by the number of the call, so a
  theorem about a function of the development holds for faults at any point of it; a crash is the
  case in which every later call fails. A missing parent directory or permission is one of the
  faults. A file that is opened and read as a stream can fail anywhere in it: \<open>FileStream\<close> is what such a
  stream delivers and the error it ends with. \<open>os.Rename\<close> is atomic, \<open>os.WriteFile\<close> is not: a failing write may leave a
  truncated file.

  The lemmas are frame properties: which paths an operation can change at all.
\<close>

datatype node = File string gotime | Dir

record DirEntry =
  de_Name :: string
  de_IsDir :: bool
  de_Info :: "(int \<times> gotime) res"

record OS =
  os_fs :: "string \<Rightarrow> node option"
  os_tick :: nat
  os_fault :: "nat \<Rightarrow> msg option"
  os_partial :: "nat \<Rightarrow> nat option"
  os_temp :: "nat \<Rightarrow> string \<Rightarrow> string"
  os_clock :: "nat \<Rightarrow> gotime"
  os_env :: "string \<Rightarrow> string"
  os_entries :: "string \<Rightarrow> DirEntry list"

definition os_step :: "OS \<Rightarrow> OS" where
  "os_step s = s\<lparr>os_tick := Suc (os_tick s)\<rparr>"

definition os_put :: "string \<Rightarrow> node option \<Rightarrow> OS \<Rightarrow> OS" where
  "os_put p n s = (os_step s)\<lparr>os_fs := (os_fs s)(p := n)\<rparr>"

abbreviation os_failing :: "OS \<Rightarrow> msg option" where
  "os_failing s \<equiv> os_fault s (os_tick s)"

definition os_notExist :: "string \<Rightarrow> msg" where
  "os_notExist p = Msg ''no such file or directory'' [AStr p]"

definition os_isDir :: "string \<Rightarrow> msg" where
  "os_isDir p = Msg ''is a directory'' [AStr p]"

definition os_ReadFile :: "string \<Rightarrow> OS \<Rightarrow> string res \<times> OS" where
  "os_ReadFile p s =
     ((case os_failing s of
         Some e \<Rightarrow> Inl e
       | None \<Rightarrow> (case os_fs s p of
           Some (File d m) \<Rightarrow> Inr d
         | Some Dir \<Rightarrow> Inl (os_isDir p)
         | None \<Rightarrow> Inl (os_notExist p))), os_step s)"

text \<open>\<open>os.Stat\<close>: whether it is a directory, the size and the modification time.\<close>

definition os_Stat :: "string \<Rightarrow> OS \<Rightarrow> (bool \<times> int \<times> gotime) res \<times> OS" where
  "os_Stat p s =
     ((case os_failing s of
         Some e \<Rightarrow> Inl e
       | None \<Rightarrow> (case os_fs s p of
           Some (File d m) \<Rightarrow> Inr (False, int (length d), m)
         | Some Dir \<Rightarrow> Inr (True, 0, 0)
         | None \<Rightarrow> Inl (os_notExist p))), os_step s)"

definition os_WriteFile :: "string \<Rightarrow> string \<Rightarrow> OS \<Rightarrow> msg option \<times> OS" where
  "os_WriteFile p d s =
     (case os_failing s of
        Some e \<Rightarrow>
          (Some e, (case os_partial s (os_tick s) of
             None \<Rightarrow> os_step s
           | Some k \<Rightarrow> if os_fs s p = Some Dir then os_step s
                       else os_put p (Some (File (take k d) (os_clock s (os_tick s)))) s))
      | None \<Rightarrow>
          if os_fs s p = Some Dir then (Some (os_isDir p), os_step s)
          else (None, os_put p (Some (File d (os_clock s (os_tick s)))) s))"

definition os_Rename :: "string \<Rightarrow> string \<Rightarrow> OS \<Rightarrow> msg option \<times> OS" where
  "os_Rename a b s =
     (case os_failing s of
        Some e \<Rightarrow> (Some e, os_step s)
      | None \<Rightarrow> (case os_fs s a of
          None \<Rightarrow> (Some (os_notExist a), os_step s)
        | Some n \<Rightarrow>
            if os_fs s b = Some Dir then (Some (os_isDir b), os_step s)
            else (None, (os_step s)\<lparr>os_fs := ((os_fs s)(a := None))(b := Some n)\<rparr>)))"

definition os_Remove :: "string \<Rightarrow> OS \<Rightarrow> msg option \<times> OS" where
  "os_Remove p s =
     (case os_failing s of
        Some e \<Rightarrow> (Some e, os_step s)
      | None \<Rightarrow> if os_fs s p = None then (Some (os_notExist p), os_step s) else (None, os_put p None s))"

definition os_MkdirAll :: "string \<Rightarrow> OS \<Rightarrow> msg option \<times> OS" where
  "os_MkdirAll p s =
     (case os_failing s of
        Some e \<Rightarrow> (Some e, os_step s)
      | None \<Rightarrow> (case os_fs s p of
          None \<Rightarrow> (None, os_put p (Some Dir) s)
        | Some Dir \<Rightarrow> (None, os_step s)
        | Some (File d m) \<Rightarrow> (Some (Msg ''not a directory'' [AStr p]), os_step s)))"

text \<open>\<open>os.CreateTemp\<close> creates an empty file under a name that was free.\<close>

definition os_CreateTemp :: "string \<Rightarrow> OS \<Rightarrow> string res \<times> OS" where
  "os_CreateTemp pattern s =
     (case os_failing s of
        Some e \<Rightarrow> (Inl e, os_step s)
      | None \<Rightarrow>
          let p = os_temp s (os_tick s) pattern in
          if os_fs s p \<noteq> None then (Inl (Msg ''file exists'' [AStr p]), os_step s)
          else (Inr p, os_put p (Some (File [] (os_clock s (os_tick s)))) s))"

definition os_ReadDir :: "string \<Rightarrow> OS \<Rightarrow> DirEntry list res \<times> OS" where
  "os_ReadDir p s =
     ((case os_failing s of Some e \<Rightarrow> Inl e | None \<Rightarrow> Inr (os_entries s p)), os_step s)"

text \<open>\<open>os.Open\<close> gives the open file; a directory can be opened too. Reading it to the end, as \<open>io.Copy\<close> does, yields a
  stream: the bytes that were read, and the read error that cut it short, if there was one (a directory cannot be read).\<close>

record FileStream =
  fs_Data :: string
  fs_Err :: "msg option"

definition os_Open :: "string \<Rightarrow> OS \<Rightarrow> node res \<times> OS" where
  "os_Open p s =
     ((case os_failing s of
         Some e \<Rightarrow> Inl e
       | None \<Rightarrow> (case os_fs s p of None \<Rightarrow> Inl (os_notExist p) | Some n \<Rightarrow> Inr n)), os_step s)"

definition os_Stream :: "node \<Rightarrow> OS \<Rightarrow> FileStream \<times> OS" where
  "os_Stream f s =
     ((case f of
         Dir \<Rightarrow> \<lparr>fs_Data = [], fs_Err = Some (os_isDir [])\<rparr>
       | File d m \<Rightarrow>
           (case os_failing s of
              None \<Rightarrow> \<lparr>fs_Data = d, fs_Err = None\<rparr>
            | Some e \<Rightarrow> \<lparr>fs_Data = (case os_partial s (os_tick s) of None \<Rightarrow> [] | Some k \<Rightarrow> take k d), fs_Err = Some e\<rparr>)), os_step s)"

text \<open>\<open>os.Getenv\<close> does not fail: an unset variable is empty.\<close>

definition os_Getenv :: "OS \<Rightarrow> string \<Rightarrow> string" where
  "os_Getenv s v = os_env s v"

section \<open>Frames\<close>

lemmas os_ops_defs = os_ReadFile_def os_Stat_def os_WriteFile_def os_Rename_def os_Remove_def
  os_MkdirAll_def os_CreateTemp_def os_ReadDir_def os_Open_def os_Stream_def

lemma os_step_simps [simp]:
  "os_fs (os_step s) = os_fs s" "os_tick (os_step s) = Suc (os_tick s)" "os_fault (os_step s) = os_fault s"
  "os_partial (os_step s) = os_partial s" "os_temp (os_step s) = os_temp s" "os_env (os_step s) = os_env s"
  "os_clock (os_step s) = os_clock s" "os_entries (os_step s) = os_entries s"
  by (simp_all add: os_step_def)

lemma os_put_simps [simp]:
  "os_fs (os_put p n s) = (os_fs s)(p := n)" "os_tick (os_put p n s) = Suc (os_tick s)"
  "os_fault (os_put p n s) = os_fault s" "os_partial (os_put p n s) = os_partial s"
  "os_temp (os_put p n s) = os_temp s" "os_env (os_put p n s) = os_env s"
  "os_clock (os_put p n s) = os_clock s" "os_entries (os_put p n s) = os_entries s"
  by (simp_all add: os_put_def)

text \<open>\<open>os_frame P s t\<close>: going from \<open>s\<close> to \<open>t\<close> changed only paths in \<open>P\<close>, and none of the oracles.\<close>

definition os_frame :: "string set \<Rightarrow> OS \<Rightarrow> OS \<Rightarrow> bool" where
  "os_frame P s t \<longleftrightarrow> (\<forall>p. p \<notin> P \<longrightarrow> os_fs t p = os_fs s p) \<and> os_fault t = os_fault s \<and>
     os_partial t = os_partial s \<and> os_temp t = os_temp s \<and> os_env t = os_env s \<and> os_clock t = os_clock s \<and>
     os_entries t = os_entries s"

lemma os_frame_refl [simp]: "os_frame P s s"
  by (simp add: os_frame_def)

lemma os_frame_trans [trans]: "os_frame P s t \<Longrightarrow> os_frame Q t u \<Longrightarrow> os_frame (P \<union> Q) s u"
  by (auto simp: os_frame_def)

lemma os_frame_trans_same: "os_frame P s t \<Longrightarrow> os_frame P t u \<Longrightarrow> os_frame P s u"
  using os_frame_trans[of P s t P u] by simp

lemma os_frame_mono: "os_frame P s t \<Longrightarrow> P \<subseteq> Q \<Longrightarrow> os_frame Q s t"
  by (auto simp: os_frame_def)

lemma os_frame_step [simp]: "os_frame P s (os_step s)"
  by (simp add: os_frame_def)

lemma os_frame_fs: "os_frame P s t \<Longrightarrow> p \<notin> P \<Longrightarrow> os_fs t p = os_fs s p"
  by (simp add: os_frame_def)

lemma os_read_frame [simp]:
  "os_frame P s (snd (os_ReadFile p s))" "os_frame P s (snd (os_Stat p s))" "os_frame P s (snd (os_ReadDir p s))"
  "os_frame P s (snd (os_Open p s))" "os_frame P s (snd (os_Stream f s))"
  by (simp_all add: os_ops_defs)

lemma os_ReadFile_frame: "os_ReadFile p s = (x, t) \<Longrightarrow> os_frame P s t"
  by (auto simp: os_ReadFile_def)

lemma os_Stat_frame: "os_Stat p s = (x, t) \<Longrightarrow> os_frame P s t"
  by (auto simp: os_Stat_def)

lemma os_ReadDir_frame: "os_ReadDir p s = (x, t) \<Longrightarrow> os_frame P s t"
  by (auto simp: os_ReadDir_def)

lemma os_read_fs [simp]:
  "os_fs (snd (os_ReadFile p s)) = os_fs s" "os_fs (snd (os_Stat p s)) = os_fs s"
  "os_fs (snd (os_ReadDir p s)) = os_fs s"
  by (simp_all add: os_ops_defs)

lemma os_WriteFile_frame: "os_frame {p} s (snd (os_WriteFile p d s))"
  by (auto simp: os_WriteFile_def os_frame_def split: option.splits)

lemma os_Rename_frame: "os_frame {a, b} s (snd (os_Rename a b s))"
  by (auto simp: os_Rename_def os_frame_def os_step_def split: option.splits)

lemma os_Remove_frame: "os_frame {p} s (snd (os_Remove p s))"
  by (auto simp: os_Remove_def os_frame_def split: option.splits)

lemma os_MkdirAll_frame: "os_frame {p} s (snd (os_MkdirAll p s))"
  by (auto simp: os_MkdirAll_def os_frame_def split: option.splits node.splits)

text \<open>A call succeeds when no fault hits it and the path is what it needs.\<close>

lemma os_WriteFile_ok:
  "os_WriteFile p d s = (None, t) \<Longrightarrow> \<exists>m. os_fs t = (os_fs s)(p \<mapsto> File d m) \<and> os_fs s p \<noteq> Some Dir"
  by (auto simp: os_WriteFile_def split: option.splits if_splits)

lemma os_ReadFile_Inr: "os_ReadFile p s = (Inr d, t) \<Longrightarrow> \<exists>m. os_fs s p = Some (File d m)"
  by (auto simp: os_ReadFile_def split: option.splits node.splits)

lemma os_Open_Inr: "os_Open p s = (Inr f, t) \<Longrightarrow> os_fs s p = Some f \<and> t = os_step s"
  by (auto simp: os_Open_def split: option.splits)

text \<open>What a stream delivers of an open file: all of it if it ends without an error, else a part from its beginning.\<close>

definition streams :: "node \<Rightarrow> FileStream \<Rightarrow> bool" where
  "streams f st \<longleftrightarrow> (case f of
     Dir \<Rightarrow> fs_Data st = [] \<and> fs_Err st \<noteq> None
   | File d m \<Rightarrow> (\<exists>rest. d = fs_Data st @ rest) \<and> (fs_Err st = None \<longrightarrow> fs_Data st = d))"

lemma os_Stream_streams: "os_Stream f s = (st, t) \<Longrightarrow> streams f st \<and> (os_failing s = None \<and> f \<noteq> Dir \<longrightarrow> fs_Err st = None)"
  by (auto simp: os_Stream_def streams_def split: node.splits option.splits)
    (metis append_take_drop_id)

lemma os_Rename_ok:
  "os_Rename a b s = (None, t) \<Longrightarrow> os_fs t = (os_fs s)(a := None, b := os_fs s a) \<and> os_fs s a \<noteq> None"
  by (auto simp: os_Rename_def split: option.splits if_splits)

lemma os_Rename_err: "os_Rename a b s = (Some e, t) \<Longrightarrow> os_fs t = os_fs s"
  by (auto simp: os_Rename_def split: option.splits if_splits)

definition os_healthy :: "OS \<Rightarrow> bool" where
  "os_healthy s \<longleftrightarrow> (\<forall>n. os_fault s n = None)"

lemma os_frame_healthy: "os_frame P s t \<Longrightarrow> os_healthy s \<Longrightarrow> os_healthy t"
  by (simp add: os_frame_def os_healthy_def)

lemma healthy_failing [simp]: "os_healthy s \<Longrightarrow> os_fault s n = None"
  by (simp add: os_healthy_def)

text \<open>A concrete system without faults and without files.\<close>

definition demo_os :: OS where
  "demo_os = \<lparr>os_fs = (\<lambda>p. None), os_tick = 0, os_fault = (\<lambda>n. None), os_partial = (\<lambda>n. None),
     os_temp = (\<lambda>n pat. ''/tmp/x'' @ pat), os_clock = (\<lambda>n. int n), os_env = (\<lambda>v. []),
     os_entries = (\<lambda>p. [\<lparr>de_Name = ''p1.gz'', de_IsDir = False, de_Info = Inr (5, 100)\<rparr>,
       \<lparr>de_Name = ''p2.gz'', de_IsDir = False, de_Info = Inr (7, 300)\<rparr>,
       \<lparr>de_Name = ''p3.gz'', de_IsDir = False, de_Info = Inr (0, 400)\<rparr>,
       \<lparr>de_Name = ''q.gz'', de_IsDir = False, de_Info = Inr (9, 500)\<rparr>])\<rparr>"

lemma demo_os_healthy [simp]: "os_healthy demo_os" "os_fs demo_os p = None"
  by (simp_all add: os_healthy_def demo_os_def)

end
