(* ===== verification/FD_Source.thy ===== *)
theory FD_Source
  imports FD_Spec FD_OS
begin

text \<open>
  \<open>pkg/source\<close>: selecting and fetching a backup (\<open>source.go\<close>), detecting and undoing compression
  (\<open>compress.go\<close>) and encryption (\<open>decrypt.go\<close>).

  An \<open>io.Reader\<close> is the list of chunks its successive \<open>Read\<close> calls return, how it ends (an error or
  end of file) and the number of bytes of the underlying transfer it consumes when read to the
  end. The decoders (gzip, zstd, bzip2, age, gpg) are arguments (\<open>Codecs\<close>), as is the S3 API.
  Closing decoders is not modelled.

  The theorems: the newest matching artifact is selected, the size caps hold (and where the
  \<open>int64\<close> arithmetic of the caps overflows), a failed spool leaves no file, fetching and
  cleaning up changes no file that was there before, and a backup decrypted by gpg is what a gpg
  that exited with success wrote.
\<close>

section \<open>Readers\<close>

record Reader =
  rd_chunks :: "string list"
  rd_end :: "msg option"
  rd_used :: int

definition rd_data :: "Reader \<Rightarrow> string" where
  "rd_data r = concat (rd_chunks r)"

definition bytes_reader :: "string \<Rightarrow> Reader" where
  "bytes_reader d = \<lparr>rd_chunks = [d], rd_end = None, rd_used = int (length d)\<rparr>"

text \<open>\<open>bufio.Reader.Peek\<close>: the bytes, and the error when there are fewer than asked for
  (\<open>Some None\<close> is \<open>io.EOF\<close>).\<close>

definition peek :: "nat \<Rightarrow> Reader \<Rightarrow> string \<times> msg option option" where
  "peek n r =
     (take n (rd_data r), if n \<le> length (rd_data r) then None else Some (rd_end r))"

text \<open>\<open>io.LimitReader\<close>: end of file once \<open>n\<close> bytes were read, without reading on.\<close>

definition io_LimitReader :: "Reader \<Rightarrow> int \<Rightarrow> Reader" where
  "io_LimitReader r n =
     (if n \<le> int (length (rd_data r))
      then r\<lparr>rd_chunks := [take (nat n) (rd_data r)], rd_end := None\<rparr> else r)"

text \<open>\<open>capReader.Read\<close> over the chunks of \<open>c.r\<close>: a chunk that crosses the limit is still handed
  over, with the error.\<close>

fun cap_chunks :: "int \<Rightarrow> string \<Rightarrow> int \<Rightarrow> string list \<Rightarrow> string list \<times> msg option \<times> int" where
  "cap_chunks limit what n [] = ([], None, n)"
| "cap_chunks limit what n (c # cs) =
     (let n' = i64 (n + int (length c)) in
      if limit > 0 \<and> n' > limit
      then ([c], Some (Msg ''%s exceeds maxBytes %d'' [AStr what, AInt limit]), n')
      else let (cs', e, m) = cap_chunks limit what n' cs in (c # cs', e, m))"

definition capReader :: "Reader \<Rightarrow> int \<Rightarrow> string \<Rightarrow> Reader" where
  "capReader r limit what =
     (let (cs, e, n) = cap_chunks limit what 0 (rd_chunks r) in
      \<lparr>rd_chunks = cs, rd_end = (case e of Some m \<Rightarrow> Some m | None \<Rightarrow> rd_end r), rd_used = n\<rparr>)"

section \<open>Codecs\<close>

text \<open>What the sources call of the decoders and of gpg. \<open>cd_gpg\<close> starts gpg on a standard input with
  arguments and the passphrase written to file descriptor 3; when it starts, it yields its
  standard output, the error of \<open>Wait\<close> and its standard error.\<close>

record Codecs =
  cd_gzip :: "Reader \<Rightarrow> Reader res"
  cd_zstd :: "Reader \<Rightarrow> Reader res"
  cd_bzip2 :: "Reader \<Rightarrow> Reader"
  cd_armorHeader :: string
  cd_armor :: "Reader \<Rightarrow> Reader"
  cd_age :: "Reader \<Rightarrow> string list \<Rightarrow> Reader res"
  cd_ParseIdentities :: "string \<Rightarrow> string list res"
  cd_NewScryptIdentity :: "string \<Rightarrow> string res"
  cd_LookPath :: "string \<Rightarrow> string res"
  cd_Pipe :: "msg option"
  cd_gpg :: "string \<Rightarrow> string list \<Rightarrow> string option \<Rightarrow> Reader \<Rightarrow> (Reader \<times> msg option \<times> string) res"

definition magics :: "(string \<times> string) list" where
  "magics = [(''zstd'', chars [0x28, 0xb5, 0x2f, 0xfd]), (''gzip'', chars [0x1f, 0x8b]), (''bzip2'', ''BZh'')]"

definition maxMagic :: nat where "maxMagic = 4"

fun detect_magic :: "(string \<times> string) list \<Rightarrow> string \<Rightarrow> string option" where
  "detect_magic [] head = None"
| "detect_magic ((name, magic) # ms) head =
     (if length head \<ge> length magic \<and> take (length magic) head = magic then Some name
      else detect_magic ms head)"

definition detect :: "string \<Rightarrow> string" where
  "detect head = (case detect_magic magics head of Some n \<Rightarrow> n | None \<Rightarrow> [])"

definition decompress :: "Codecs \<Rightarrow> Reader \<Rightarrow> (Reader \<times> string) res" where
  "decompress cd r =
     (let (head, err) = peek maxMagic r in
      if err \<noteq> None \<and> head = []
      then (case the err of None \<Rightarrow> Inr (r, []) | Some e \<Rightarrow> Inl e)
      else if detect head = ''gzip'' then
        (case cd_gzip cd r of Inl e \<Rightarrow> Inl (Msg ''gzip: %w'' [AErr e]) | Inr z \<Rightarrow> Inr (z, ''gzip''))
      else if detect head = ''zstd'' then
        (case cd_zstd cd r of Inl e \<Rightarrow> Inl (Msg ''zstd: %w'' [AErr e]) | Inr z \<Rightarrow> Inr (z, ''zstd''))
      else if detect head = ''bzip2'' then Inr (cd_bzip2 cd r, ''bzip2'')
      else Inr (r, []))"

definition uncompressedLimit :: "int \<Rightarrow> int \<Rightarrow> int" where
  "uncompressedLimit maxBytes maxUncompressed =
     (if maxUncompressed > 0 then maxUncompressed
      else if maxBytes > 0 then i64 (maxBytes * 100)
      else 0)"

section \<open>Decryption\<close>

definition encryptionMagics :: "Codecs \<Rightarrow> (string \<times> string) list" where
  "encryptionMagics cd =
     [(''age'', ''age-encryption.org/v1''), (''age'', cd_armorHeader cd), (''gpg'', ''-----BEGIN PGP MESSAGE-----'')]"

definition pgpPacketTags :: "nat list" where
  "pgpPacketTags = [0x84, 0x85, 0x8c, 0xc1, 0xc3]"

definition detectEncryption :: "Codecs \<Rightarrow> string \<Rightarrow> string" where
  "detectEncryption cd head =
     (case detect_magic (encryptionMagics cd) head of
        Some n \<Rightarrow> n
      | None \<Rightarrow> if head \<noteq> [] \<and> byte (hd head) \<in> set pgpPacketTags then ''gpg'' else [])"

definition maxEncryptionMagic :: "Codecs \<Rightarrow> nat" where
  "maxEncryptionMagic cd = fold (\<lambda>m n. if length (snd m) > n then length (snd m) else n) (encryptionMagics cd) 1"

text \<open>Each of the three sources of identities yields identities or an error; \<open>append_ids\<close> is the
  early return between them.\<close>

definition identity_file :: "Codecs \<Rightarrow> Decrypt \<Rightarrow> OS \<Rightarrow> string list res \<times> OS" where
  "identity_file cd cfg s =
     (if dec_IdentityFile cfg = [] then (Inr [], s)
      else (case os_ReadFile (dec_IdentityFile cfg) s of
        (Inl e, s1) \<Rightarrow> (Inl (Msg ''age identity file: %w'' [AErr e]), s1)
      | (Inr d, s1) \<Rightarrow>
          (case cd_ParseIdentities cd d of
             Inl e \<Rightarrow> (Inl (Msg ''parsing %s: %w'' [AStr (dec_IdentityFile cfg), AErr e]), s1)
           | Inr ids \<Rightarrow> (Inr ids, s1))))"

definition identity_env :: "Codecs \<Rightarrow> Decrypt \<Rightarrow> OS \<Rightarrow> string list res" where
  "identity_env cd cfg s =
     (if dec_IdentityEnv cfg = [] then Inr []
      else let v = os_Getenv s (dec_IdentityEnv cfg) in
        if v = [] then Inl (Msg ''age identity: env var %s is empty or unset'' [AStr (dec_IdentityEnv cfg)])
        else (case cd_ParseIdentities cd v of
          Inl e \<Rightarrow> Inl (Msg ''parsing identity from %s: %w'' [AStr (dec_IdentityEnv cfg), AErr e])
        | Inr ids \<Rightarrow> Inr ids))"

definition identity_passphrase :: "Codecs \<Rightarrow> Decrypt \<Rightarrow> OS \<Rightarrow> string list res" where
  "identity_passphrase cd cfg s =
     (if dec_PassphraseEnv cfg = [] then Inr []
      else let v = os_Getenv s (dec_PassphraseEnv cfg) in
        if v = [] then Inl (Msg ''age passphrase: env var %s is empty or unset'' [AStr (dec_PassphraseEnv cfg)])
        else map_sum id (\<lambda>i. [i]) (cd_NewScryptIdentity cd v))"

definition append_ids :: "string list res \<Rightarrow> string list res \<Rightarrow> string list res" where
  "append_ids a b = (case a of Inl e \<Rightarrow> Inl e | Inr xs \<Rightarrow> (case b of Inl e \<Rightarrow> Inl e | Inr ys \<Rightarrow> Inr (xs @ ys)))"

definition ageIdentities :: "Codecs \<Rightarrow> Decrypt \<Rightarrow> OS \<Rightarrow> string list res \<times> OS" where
  "ageIdentities cd cfg s =
     (let (f, s1) = identity_file cd cfg s;
          ids = append_ids (append_ids f (identity_env cd cfg s1)) (identity_passphrase cd cfg s1)
      in (case ids of
            Inl e \<Rightarrow> Inl e
          | Inr xs \<Rightarrow>
              if xs = [] then Inl (Msg ''decrypt.type age needs identityFile, identityEnv or passphraseEnv'' [])
              else Inr xs, s1))"

definition decryptAge :: "Codecs \<Rightarrow> Reader \<Rightarrow> string \<Rightarrow> Decrypt \<Rightarrow> OS \<Rightarrow> Reader res \<times> OS" where
  "decryptAge cd r head cfg s =
     (case ageIdentities cd cfg s of
        (Inl e, s1) \<Rightarrow> (Inl e, s1)
      | (Inr ids, s1) \<Rightarrow>
          let src = (if hasPrefix head (cd_armorHeader cd) then cd_armor cd r else r) in
          (case cd_age cd src ids of
             Inl e \<Rightarrow> (Inl (Msg ''decrypting age backup (wrong identity?): %w'' [AErr e]), s1)
           | Inr out \<Rightarrow> (Inr out, s1)))"

text \<open>\<open>gpgReader\<close>: at end of file the exit status of gpg decides between end of file and an error.\<close>

definition gpgReader :: "Reader \<Rightarrow> msg option \<Rightarrow> string \<Rightarrow> Reader" where
  "gpgReader out waitErr errBuf =
     (case rd_end out of
        Some e \<Rightarrow> out
      | None \<Rightarrow>
          if waitErr \<noteq> None
          then out\<lparr>rd_end := Some (Msg ''gpg decryption failed: %s'' [AStr (strings_TrimSpace errBuf)])\<rparr>
          else out)"

definition gpg_args :: "string list" where
  "gpg_args = [''--batch'', ''--yes'', ''--quiet'', ''--decrypt'']"

definition gpg_passphrase_args :: "string list" where
  "gpg_passphrase_args = [''--pinentry-mode'', ''loopback'', ''--passphrase-fd'', ''3'']"

definition decryptGPG :: "Codecs \<Rightarrow> Reader \<Rightarrow> Decrypt \<Rightarrow> OS \<Rightarrow> (Reader \<times> string) res" where
  "decryptGPG cd r cfg s =
     (case cd_LookPath cd ''gpg'' of
        Inl e \<Rightarrow> Inl (Msg ''decrypt.type gpg needs the gpg binary on PATH: %w'' [AErr e])
      | Inr bin \<Rightarrow>
          (let pass = os_Getenv s (dec_PassphraseEnv cfg);
               start = (\<lambda>args fd3.
                 case cd_gpg cd bin args fd3 r of
                   Inl e \<Rightarrow> Inl (Msg ''starting gpg: %w'' [AErr e])
                 | Inr (out, werr, ebuf) \<Rightarrow> Inr (gpgReader out werr ebuf, ''gpg''))
           in if dec_PassphraseEnv cfg = [] then start gpg_args None
              else if pass = []
              then Inl (Msg ''gpg passphrase: env var %s is empty or unset'' [AStr (dec_PassphraseEnv cfg)])
              else (case cd_Pipe cd of
                Some e \<Rightarrow> Inl e
              | None \<Rightarrow> start (gpg_args @ gpg_passphrase_args) (Some pass))))"

definition decrypt :: "Codecs \<Rightarrow> Reader \<Rightarrow> Decrypt option \<Rightarrow> OS \<Rightarrow> (Reader \<times> string) res \<times> OS" where
  "decrypt cd r cfg s =
     (let (head, err) = peek (maxEncryptionMagic cd) r;
          detected = detectEncryption cd head
      in case (head, err) of
           ([], Some (Some e)) \<Rightarrow> (Inl e, s)
         | _ \<Rightarrow>
         (case cfg of
            None \<Rightarrow>
              (if detected \<noteq> [] then Inl (Msg ''backup looks %s-encrypted'' [AStr detected]) else Inr (r, []), s)
          | Some c \<Rightarrow>
              if dec_Type c = ''age'' then
                (case decryptAge cd r head c s of
                   (Inl e, s1) \<Rightarrow> (Inl e, s1)
                 | (Inr rd, s1) \<Rightarrow> (Inr (rd, ''age''), s1))
              else if dec_Type c = ''gpg'' then (decryptGPG cd r c s, s)
              else (Inl (Msg ''unsupported decrypt.type %q'' [AQuo (dec_Type c)]), s)))"

section \<open>Spooling to disk\<close>

text \<open>\<open>io.Copy\<close> into an open file: everything the reader yields is written, then its end decides.
  The count is what reached the file.\<close>

definition io_Copy :: "string \<Rightarrow> Reader \<Rightarrow> OS \<Rightarrow> (int \<times> msg option) \<times> OS" where
  "io_Copy p r s =
     (case os_WriteFile p (rd_data r) s of
        (Some e, s1) \<Rightarrow>
          ((case os_partial s (os_tick s) of None \<Rightarrow> 0 | Some k \<Rightarrow> int (min k (length (rd_data r))), Some e), s1)
      | (None, s1) \<Rightarrow> ((int (length (rd_data r)), rd_end r), s1))"

definition copyLimited :: "string \<Rightarrow> Reader \<Rightarrow> int \<Rightarrow> string \<Rightarrow> OS \<Rightarrow> (int \<times> msg option) \<times> OS" where
  "copyLimited p r limit what s =
     (if limit \<le> 0 then io_Copy p r s
      else (case io_Copy p (io_LimitReader r (i64 (limit + 1))) s of
        ((n, Some e), s1) \<Rightarrow> ((n, Some e), s1)
      | ((n, None), s1) \<Rightarrow>
          ((n, if n > limit then Some (Msg ''%s exceeds %d bytes'' [AStr what, AInt limit]) else None), s1)))"

definition os_Close :: "OS \<Rightarrow> msg option \<times> OS" where
  "os_Close s = (os_failing s, os_step s)"

definition spool :: "Reader \<Rightarrow> string \<Rightarrow> int \<Rightarrow> OS \<Rightarrow> (string \<times> int) res \<times> OS" where
  "spool r pattern limit s =
     (case os_CreateTemp pattern s of
        (Inl e, s1) \<Rightarrow> (Inl e, s1)
      | (Inr tmp, s1) \<Rightarrow>
          (let ((n, err), s2) = copyLimited tmp r limit ''decompressed backup'' s1;
               (cerr, s3) = os_Close s2;
               err' = (if err = None then cerr else err)
           in case err' of
                Some e \<Rightarrow> (Inl e, snd (os_Remove tmp s3))
              | None \<Rightarrow> (Inr (tmp, n), s3)))"

definition plainExt :: "string \<Rightarrow> string" where
  "plainExt name =
     (let base = path_Base name; ext = path_Ext base in
      if ext \<in> {''.gz'', ''.zst'', ''.zstd'', ''.bz2''} then path_Ext (trimSuffix base ext) else ext)"

section \<open>Selecting an artifact\<close>

definition maxListKeys :: nat where "maxListKeys = 10000"

definition globMatch :: "string \<Rightarrow> string \<Rightarrow> bool" where
  "globMatch glob name =
     (if glob = [] then True else (case path_Match glob name of Inl e \<Rightarrow> False | Inr ok \<Rightarrow> ok))"

definition noMatchErr :: "string \<Rightarrow> string \<Rightarrow> msg" where
  "noMatchErr location match =
     (if match \<noteq> [] then Msg ''no backup matching %q found under %s'' [AQuo match, AStr location]
      else Msg ''no backup found under %s'' [AStr location])"

fun newest_entry :: "From \<Rightarrow> string \<Rightarrow> gotime \<Rightarrow> DirEntry list \<Rightarrow> string" where
  "newest_entry from newest newestMod [] = newest"
| "newest_entry from newest newestMod (e # es) =
     (if de_IsDir e \<or> \<not> globMatch (from_Match from) (de_Name e)
      then newest_entry from newest newestMod es
      else (case de_Info e of
        Inl err \<Rightarrow> newest_entry from newest newestMod es
      | Inr (sz, mtime) \<Rightarrow>
          if sz = 0 then newest_entry from newest newestMod es
          else if newest = [] \<or> mtime > newestMod
          then newest_entry from (path_Join [from_URI from, de_Name e]) mtime es
          else newest_entry from newest newestMod es))"

definition latestFile :: "From \<Rightarrow> OS \<Rightarrow> string res \<times> OS" where
  "latestFile from s =
     (case os_ReadDir (from_URI from) s of
        (Inl e, s1) \<Rightarrow> (Inl (Msg ''listing backup directory: %w'' [AErr e]), s1)
      | (Inr entries, s1) \<Rightarrow>
          let newest = newest_entry from [] 0 entries in
          (if newest = [] then Inl (noMatchErr (from_URI from) (from_Match from)) else Inr newest, s1))"

text \<open>The S3 API: the client, one object, and the pages of a listing in order. A listed object always
  carries its key, its size and its modification time.\<close>

record S3Entry =
  s3e_Key :: string
  s3e_Size :: int
  s3e_LastModified :: gotime

record S3Object =
  s3o_Body :: Reader
  s3o_ContentLength :: "int option"
  s3o_LastModified :: "gotime option"

record S3 =
  s3_Client :: "From \<Rightarrow> msg option"
  s3_GetObject :: "string \<Rightarrow> string \<Rightarrow> S3Object res"
  s3_Pages :: "string \<Rightarrow> string \<Rightarrow> S3Entry list res list"

fun scan_objects ::
  "string \<Rightarrow> string \<Rightarrow> string \<Rightarrow> nat \<Rightarrow> S3Entry option \<Rightarrow> S3Entry list \<Rightarrow> (nat \<times> S3Entry option) res" where
  "scan_objects bucket pre match seen newest [] = Inr (seen, newest)"
| "scan_objects bucket pre match seen newest (ob # obs) =
     (if Suc seen > maxListKeys
      then Inl (Msg ''more than %d objects under s3://%s/%s'' [AInt (int maxListKeys), AStr bucket, AStr pre])
      else if hasSuffix (s3e_Key ob) ''/'' \<or> s3e_Size ob = 0
      then scan_objects bucket pre match (Suc seen) newest obs
      else if \<not> globMatch match (path_Base (s3e_Key ob))
      then scan_objects bucket pre match (Suc seen) newest obs
      else scan_objects bucket pre match (Suc seen)
        (case newest of
           None \<Rightarrow> Some ob
         | Some b \<Rightarrow> if s3e_LastModified ob > s3e_LastModified b then Some ob else newest) obs)"

fun scan_pages ::
  "string \<Rightarrow> string \<Rightarrow> string \<Rightarrow> nat \<Rightarrow> S3Entry option \<Rightarrow> S3Entry list res list \<Rightarrow> S3Entry option res" where
  "scan_pages bucket pre match seen newest [] = Inr newest"
| "scan_pages bucket pre match seen newest (page # pages) =
     (case page of
        Inl e \<Rightarrow> Inl (Msg ''listing s3://%s/%s: %w'' [AStr bucket, AStr pre, AErr e])
      | Inr contents \<Rightarrow>
          (case scan_objects bucket pre match seen newest contents of
             Inl e \<Rightarrow> Inl e
           | Inr (seen', newest') \<Rightarrow> scan_pages bucket pre match seen' newest' pages))"

definition latestObject :: "S3 \<Rightarrow> string \<Rightarrow> string \<Rightarrow> string \<Rightarrow> string res" where
  "latestObject cli bucket pre match =
     (case scan_pages bucket pre match 0 None (s3_Pages cli bucket pre) of
        Inl e \<Rightarrow> Inl e
      | Inr None \<Rightarrow> Inl (noMatchErr (''s3://'' @ bucket @ ''/'' @ pre) match)
      | Inr (Some ob) \<Rightarrow> Inr (s3e_Key ob))"

definition parseS3URI :: "string \<Rightarrow> bool \<Rightarrow> (string \<times> string) res" where
  "parseS3URI uri allowEmptyKey =
     (let (rest, ok) = cutPrefix uri ''s3://'' in
      if \<not> ok then Inl (Msg ''s3 uri must start with s3://, got %q'' [AQuo uri])
      else let (bucket, key, ok2) = cut1 CHR ''/'' rest in
        if bucket = [] \<or> (\<not> allowEmptyKey \<and> (\<not> ok2 \<or> key = []))
        then Inl (Msg ''invalid s3 uri %q (want s3://bucket/key)'' [AQuo uri])
        else Inr (bucket, key))"

section \<open>Fetching\<close>

text \<open>\<open>bk_cleanup\<close> is the path the cleanup closure removes, if there is one.\<close>

record Backup =
  bk_Path :: string
  bk_ModTime :: gotime
  bk_Size :: int
  bk_ResolvedURI :: string
  bk_Encryption :: string
  bk_Compression :: string
  bk_UncompressedBytes :: int
  bk_cleanup :: "string option"

definition Layers :: "Backup \<Rightarrow> string" where
  "Layers b = join_with '', ''
     ((if bk_Encryption b \<noteq> [] then [bk_Encryption b] else []) @
      (if bk_Compression b \<noteq> [] then [bk_Compression b] else []))"

definition Cleanup :: "Backup option \<Rightarrow> OS \<Rightarrow> msg option \<times> OS" where
  "Cleanup b s =
     (case b of
        None \<Rightarrow> (None, s)
      | Some bk \<Rightarrow> (case bk_cleanup bk of None \<Rightarrow> (None, s) | Some p \<Rightarrow> os_Remove p s))"

definition fetchFile :: "Codecs \<Rightarrow> From \<Rightarrow> OS \<Rightarrow> Backup res \<times> OS" where
  "fetchFile cd from s0 =
     (let (sel, s1) = (if from_Select from \<noteq> [] then latestFile from s0 else (Inr (from_URI from), s0)) in
      case sel of Inl e \<Rightarrow> (Inl e, s1) | Inr p \<Rightarrow>
     (case os_Stat p s1 of (Inl e, s2) \<Rightarrow> (Inl (Msg ''backup file: %w'' [AErr e]), s2)
      | (Inr (isDir, sz, mtime), s2) \<Rightarrow>
      if isDir then (Inl (Msg ''backup path %s is a directory (use select: latest to pick from it)'' [AStr p]), s2)
      else if from_MaxBytes from > 0 \<and> sz > from_MaxBytes from
      then (Inl (Msg ''backup is %d bytes, exceeding maxBytes %d'' [AInt sz, AInt (from_MaxBytes from)]), s2)
      else (case os_ReadFile p s2 of (Inl e, s3) \<Rightarrow> (Inl e, s3) | (Inr d, s3) \<Rightarrow>
     (case decrypt cd (bytes_reader d) (from_Decrypt from) s3 of
        (Inl e, s4) \<Rightarrow> (Inl (Msg ''reading %s: %w'' [AStr p, AErr e]), s4)
      | (Inr (plain, enc), s4) \<Rightarrow>
     (case decompress cd plain of
        Inl e \<Rightarrow> (Inl (Msg ''reading %s: %w'' [AStr p, AErr e]), s4)
      | Inr (r, cmp) \<Rightarrow>
          let b = \<lparr>bk_Path = p, bk_ModTime = mtime, bk_Size = sz, bk_ResolvedURI = p,
                   bk_Encryption = enc, bk_Compression = cmp, bk_UncompressedBytes = 0, bk_cleanup = None\<rparr> in
          if cmp = [] \<and> enc = [] then (Inr b, s4)
          else (case spool r (''firedrill-backup-*'' @ plainExt p)
                  (uncompressedLimit (from_MaxBytes from) (from_MaxUncompressedBytes from)) s4 of
                  (Inl e, s5) \<Rightarrow> (Inl e, s5)
                | (Inr (tmp, n), s5) \<Rightarrow>
                    (Inr (b\<lparr>bk_Path := tmp, bk_UncompressedBytes := (if cmp \<noteq> [] then n else 0),
                            bk_cleanup := Some tmp\<rparr>), s5)))))))"

definition fetchS3 :: "Codecs \<Rightarrow> S3 \<Rightarrow> From \<Rightarrow> OS \<Rightarrow> Backup res \<times> OS" where
  "fetchS3 cd cli from s =
     (case parseS3URI (from_URI from) (from_Select from \<noteq> []) of Inl e \<Rightarrow> (Inl e, s) | Inr (bucket, key0) \<Rightarrow>
     (case s3_Client cli from of Some e \<Rightarrow> (Inl e, s) | None \<Rightarrow>
     (case (if from_Select from \<noteq> [] then latestObject cli bucket key0 (from_Match from) else Inr key0) of
        Inl e \<Rightarrow> (Inl e, s)
      | Inr key \<Rightarrow>
     (let resolved = ''s3://'' @ bucket @ ''/'' @ key in
      case s3_GetObject cli bucket key of Inl e \<Rightarrow> (Inl (Msg ''s3 get %s: %w'' [AStr resolved, AErr e]), s)
      | Inr ob \<Rightarrow>
      if from_MaxBytes from > 0 \<and>
         (case s3o_ContentLength ob of None \<Rightarrow> False | Some n \<Rightarrow> n > from_MaxBytes from)
      then (Inl (Msg ''backup is %d bytes, exceeding maxBytes %d''
             [AInt (the (s3o_ContentLength ob)), AInt (from_MaxBytes from)]), s)
      else
     (let transferred = capReader (s3o_Body ob) (from_MaxBytes from) ''backup'' in
      case decrypt cd transferred (from_Decrypt from) s of
        (Inl e, s1) \<Rightarrow> (Inl (Msg ''reading %s: %w'' [AStr resolved, AErr e]), s1)
      | (Inr (plain, enc), s1) \<Rightarrow>
     (case decompress cd plain of
        Inl e \<Rightarrow> (Inl (Msg ''reading %s: %w'' [AStr resolved, AErr e]), s1)
      | Inr (r, cmp) \<Rightarrow>
     (case spool r (''firedrill-backup-*'' @ plainExt key)
             (uncompressedLimit (from_MaxBytes from) (from_MaxUncompressedBytes from)) s1 of
        (Inl e, s2) \<Rightarrow> (Inl (Msg ''downloading backup: %w'' [AErr e]), s2)
      | (Inr (name, n), s2) \<Rightarrow>
          (Inr \<lparr>bk_Path = name,
                bk_ModTime = (case s3o_LastModified ob of Some t \<Rightarrow> t | None \<Rightarrow> os_clock s2 (os_tick s2)),
                bk_Size = rd_used r, bk_ResolvedURI = resolved, bk_Encryption = enc, bk_Compression = cmp,
                bk_UncompressedBytes = (if cmp \<noteq> [] then n else 0), bk_cleanup = Some name\<rparr>, s2))))))))"

definition Fetch :: "Codecs \<Rightarrow> S3 \<Rightarrow> From \<Rightarrow> OS \<Rightarrow> Backup res \<times> OS" where
  "Fetch cd cli from s =
     (if from_Type from = ''file'' then fetchFile cd from s
      else if from_Type from = ''s3'' then fetchS3 cd cli from s
      else (Inl (Msg ''unsupported source type %q'' [AQuo (from_Type from)]), s))"

section \<open>The newest artifact is selected\<close>

text \<open>The selection both scans implement: of the elements that have a key, the first with the largest.\<close>

fun newest_of :: "('a \<Rightarrow> int option) \<Rightarrow> 'a option \<Rightarrow> 'a list \<Rightarrow> 'a option" where
  "newest_of k b [] = b"
| "newest_of k b (x # xs) =
     newest_of k (case k x of None \<Rightarrow> b
       | Some t \<Rightarrow> (case b of None \<Rightarrow> Some x | Some y \<Rightarrow> if the (k y) < t then Some x else b)) xs"

lemma newest_of_Some:
  "newest_of k (Some b) xs = Some y \<Longrightarrow> k b = Some tb \<Longrightarrow>
   (y = b \<or> y \<in> set xs) \<and> (\<exists>t. k y = Some t \<and> tb \<le> t \<and> (\<forall>x \<in> set xs. \<forall>t'. k x = Some t' \<longrightarrow> t' \<le> t))"
proof (induction xs arbitrary: b tb)
  case (Cons x xs)
  show ?case
  proof (cases "\<exists>t. k x = Some t \<and> tb < t")
    case True
    then obtain t where t: "k x = Some t" "tb < t" by blast
    then show ?thesis using Cons.IH[of x t] Cons.prems by auto
  next
    case False
    then show ?thesis using Cons.IH[of b tb] Cons.prems by (auto split: option.splits)
  qed
qed simp

lemma newest_of_Some_ne [simp]: "newest_of k (Some b) xs \<noteq> None"
  by (induction xs arbitrary: b) (auto split: option.splits)

lemma newest_of_None: "newest_of k None xs = None \<longleftrightarrow> (\<forall>x \<in> set xs. k x = None)"
  by (induction xs) (auto split: option.splits)

lemma newest_of_max:
  "newest_of k None xs = Some y \<Longrightarrow>
   y \<in> set xs \<and> (\<exists>t. k y = Some t \<and> (\<forall>x \<in> set xs. \<forall>t'. k x = Some t' \<longrightarrow> t' \<le> t))"
proof (induction xs)
  case (Cons x xs)
  show ?case
  proof (cases "k x")
    case None
    then show ?thesis using Cons by auto
  next
    case (Some t)
    then show ?thesis using newest_of_Some[of k x xs y t] Cons.prems by auto
  qed
qed simp

definition newest_in :: "('a \<Rightarrow> int option) \<Rightarrow> 'a list \<Rightarrow> 'a \<Rightarrow> bool" where
  "newest_in k xs y \<longleftrightarrow> y \<in> set xs \<and>
     (\<exists>t. k y = Some t \<and> (\<forall>x \<in> set xs. \<forall>t'. k x = Some t' \<longrightarrow> t' \<le> t))"

lemma newest_of_newest_in: "newest_of k None xs = Some y \<Longrightarrow> newest_in k xs y"
  using newest_of_max unfolding newest_in_def .

text \<open>A usable candidate: a non-empty regular file whose name matches, at its modification time.\<close>

definition file_key :: "From \<Rightarrow> DirEntry \<Rightarrow> gotime option" where
  "file_key from e =
     (if de_IsDir e \<or> \<not> globMatch (from_Match from) (de_Name e) then None
      else (case de_Info e of Inl err \<Rightarrow> None | Inr (sz, t) \<Rightarrow> if sz = 0 then None else Some t))"

lemma path_Clean_nonempty [simp]: "path_Clean p \<noteq> []"
  by (simp add: path_Clean_def Let_def)

lemma path_Join_nonempty: "a \<noteq> [] \<Longrightarrow> path_Join (a # es) \<noteq> []"
  by (simp add: path_Join_def)

lemma newest_entry_refines:
  assumes "from_URI from \<noteq> []"
  shows "(case b of None \<Rightarrow> nw = []
          | Some y \<Rightarrow> nw = path_Join [from_URI from, de_Name y] \<and> file_key from y = Some t0) \<Longrightarrow>
    newest_entry from nw t0 es =
      (case newest_of (file_key from) b es of None \<Rightarrow> [] | Some e \<Rightarrow> path_Join [from_URI from, de_Name e])"
proof (induction es arbitrary: b nw t0)
  case Nil
  then show ?case by (auto split: option.splits)
next
  case (Cons e es)
  have ne: "path_Join [from_URI from, x] \<noteq> []" for x using assms path_Join_nonempty by blast
  show ?case
  proof (cases "file_key from e")
    case None
    then have "newest_entry from nw t0 (e # es) = newest_entry from nw t0 es"
      by (auto simp: file_key_def split: if_splits sum.splits prod.splits)
    then show ?thesis using None Cons by simp
  next
    case (Some t)
    then have "newest_entry from nw t0 (e # es) =
      (if nw = [] \<or> t > t0 then newest_entry from (path_Join [from_URI from, de_Name e]) t es
       else newest_entry from nw t0 es)"
      by (auto simp: file_key_def split: if_splits sum.splits prod.splits)
    then show ?thesis using Some Cons.prems Cons.IH[where b = "Some e" and nw = "path_Join [from_URI from, de_Name e]" and ?t0.0 = t]
        Cons.IH[where b = b and nw = nw and ?t0.0 = t0] ne by (auto split: option.splits)
  qed
qed

text \<open>
  C22: \<open>latestFile\<close> succeeds exactly when the directory lists a usable candidate (a non-empty regular
  file whose name matches the glob), and the file it returns is one, with no candidate newer than
  it. The directory path is not empty, as validation requires.
\<close>

theorem latestFile_newest:
  assumes "from_URI from \<noteq> []" and "os_ReadDir (from_URI from) s = (Inr entries, s1)"
  shows "(res_ok (fst (latestFile from s)) \<longleftrightarrow> (\<exists>e \<in> set entries. file_key from e \<noteq> None)) \<and>
    (\<forall>p. fst (latestFile from s) = Inr p \<longrightarrow>
      (\<exists>e. newest_in (file_key from) entries e \<and> p = path_Join [from_URI from, de_Name e]))"
proof -
  let ?n = "newest_of (file_key from) None entries"
  have l: "latestFile from s = (case ?n of
      None \<Rightarrow> (Inl (noMatchErr (from_URI from) (from_Match from)), s1)
    | Some e \<Rightarrow> (Inr (path_Join [from_URI from, de_Name e]), s1))"
    using newest_entry_refines[OF assms(1), where b = None and nw = "[]" and ?t0.0 = 0 and es = entries] assms path_Join_nonempty[OF assms(1)]
    by (auto simp: latestFile_def Let_def split: option.splits)
  show ?thesis
  proof (cases ?n)
    case None
    then show ?thesis using l newest_of_None[of "file_key from" entries] by simp
  next
    case (Some e)
    then show ?thesis using l newest_of_newest_in[OF Some] by (auto simp: newest_in_def)
  qed
qed

lemma demo_keys:
  "map (file_key (drillFrom demo_drill)) (os_entries demo_os ''/b'') = [Some 100, Some 300, None, None]"
  by code_simp

theorem latestFile_newest_witness:
  "\<exists>p. fst (latestFile (drillFrom demo_drill) demo_os) = Inr p \<and> p = path_Join [''/b'', ''p2.gz'']"
proof -
  let ?from = "drillFrom demo_drill"
  have r: "os_ReadDir (from_URI ?from) demo_os = (Inr (os_entries demo_os ''/b''), os_step demo_os)"
    by (simp add: os_ReadDir_def demo_os_def demo_drill_def)
  have u: "from_URI ?from = ''/b''" by (simp add: demo_drill_def)
  have k: "\<exists>e \<in> set (os_entries demo_os ''/b''). file_key ?from e \<noteq> None"
    using demo_keys by (force simp: demo_os_def)
  then obtain p where p: "fst (latestFile ?from demo_os) = Inr p"
    using latestFile_newest[OF _ r] u by (cases "fst (latestFile ?from demo_os)") auto
  then show ?thesis using latestFile_newest[OF _ r] u demo_keys by (force simp: demo_os_def newest_in_def)
qed

text \<open>The same selection over the objects of an S3 listing.\<close>

definition object_key :: "string \<Rightarrow> S3Entry \<Rightarrow> gotime option" where
  "object_key match ob =
     (if hasSuffix (s3e_Key ob) ''/'' \<or> s3e_Size ob = 0 \<or> \<not> globMatch match (path_Base (s3e_Key ob))
      then None else Some (s3e_LastModified ob))"

lemma scan_objects_refines:
  assumes "\<And>y. b = Some y \<Longrightarrow> object_key match y \<noteq> None"
  shows "scan_objects bucket pre match seen b obs =
    (if seen + length obs > maxListKeys \<and> obs \<noteq> []
     then Inl (Msg ''more than %d objects under s3://%s/%s'' [AInt (int maxListKeys), AStr bucket, AStr pre])
     else Inr (seen + length obs, newest_of (object_key match) b obs))"
  using assms
proof (induction obs arbitrary: seen b)
  case (Cons ob obs)
  let ?b = "case object_key match ob of None \<Rightarrow> b
    | Some t \<Rightarrow> (case b of None \<Rightarrow> Some ob | Some y \<Rightarrow> if the (object_key match y) < t then Some ob else b)"
  have b: "y = ob \<or> b = Some y" if "?b = Some y" for y
    using that by (auto split: option.splits if_splits)
  have "scan_objects bucket pre match seen b (ob # obs) =
    (if Suc seen > maxListKeys
     then Inl (Msg ''more than %d objects under s3://%s/%s'' [AInt (int maxListKeys), AStr bucket, AStr pre])
     else scan_objects bucket pre match (Suc seen) ?b obs)"
    using Cons.prems by (cases b) (auto simp: object_key_def split: if_splits)
  moreover have "object_key match y \<noteq> None" if "?b = Some y" for y
    using that Cons.prems b[OF that] by (cases "object_key match ob") auto
  ultimately show ?case using Cons.IH[of ?b "Suc seen"] by (cases obs) auto
qed simp

lemma newest_of_append: "newest_of k b (xs @ ys) = newest_of k (newest_of k b xs) ys"
  by (induction xs arbitrary: b) auto

lemma newest_of_keyed:
  "(\<And>y. b = Some y \<Longrightarrow> k y \<noteq> None) \<Longrightarrow> newest_of k b xs = Some y \<Longrightarrow> k y \<noteq> None"
  using newest_of_max[of k xs y] newest_of_Some[of k "the b" xs y] by (cases b) auto

lemma scan_pages_refines:
  assumes "\<And>y. b = Some y \<Longrightarrow> object_key match y \<noteq> None" and "seen \<le> maxListKeys"
  shows "scan_pages bucket pre match seen b (map Inr pages) =
    (if seen + length (concat pages) > maxListKeys
     then Inl (Msg ''more than %d objects under s3://%s/%s'' [AInt (int maxListKeys), AStr bucket, AStr pre])
     else Inr (newest_of (object_key match) b (concat pages)))"
  using assms
proof (induction pages arbitrary: seen b)
  case (Cons obs pages)
  have ky: "object_key match y \<noteq> None" if "newest_of (object_key match) b obs = Some y" for y
    using newest_of_keyed[of b "object_key match"] Cons.prems(1) that by blast
  have so: "scan_objects bucket pre match seen b obs =
    (if seen + length obs > maxListKeys \<and> obs \<noteq> []
     then Inl (Msg ''more than %d objects under s3://%s/%s'' [AInt (int maxListKeys), AStr bucket, AStr pre])
     else Inr (seen + length obs, newest_of (object_key match) b obs))"
    using scan_objects_refines Cons.prems(1) by blast
  show ?case
  proof (cases "seen + length obs > maxListKeys")
    case True
    then have "obs \<noteq> []" using Cons.prems(2) by auto
    then show ?thesis using True so by simp
  next
    case False
    then show ?thesis
      using Cons.IH[of "newest_of (object_key match) b obs" "seen + length obs"] ky so False
      by (simp add: newest_of_append add.assoc)
  qed
qed simp

lemma scan_pages_all_listed:
  "scan_pages bucket pre match seen b pages = Inr r \<Longrightarrow> \<exists>ps. pages = map Inr ps"
proof (induction pages arbitrary: seen b)
  case (Cons page pages)
  then obtain obs where "page = Inr obs" by (cases page) auto
  moreover obtain ps where "pages = map Inr ps"
    using Cons \<open>page = Inr obs\<close> by (auto split: sum.splits)
  ultimately show ?case by (intro exI[of _ "obs # ps"]) simp
qed simp

text \<open>
  C23: \<open>latestObject\<close> returns a key exactly when every page of the listing was read, the listing holds
  at most 10000 objects, and one of them is usable (not a folder placeholder, not empty, base name
  matching the glob); the key is then that of a usable object, and no usable object is newer.
\<close>

theorem latestObject_newest:
  "(\<forall>key. latestObject cli bucket pre match = Inr key \<longrightarrow>
     (\<exists>pages ob. s3_Pages cli bucket pre = map Inr pages \<and> length (concat pages) \<le> maxListKeys \<and>
        newest_in (object_key match) (concat pages) ob \<and> key = s3e_Key ob)) \<and>
   (res_ok (latestObject cli bucket pre match) \<longleftrightarrow>
     (\<exists>pages. s3_Pages cli bucket pre = map Inr pages \<and> length (concat pages) \<le> maxListKeys \<and>
        (\<exists>ob \<in> set (concat pages). object_key match ob \<noteq> None)))"
proof (cases "\<exists>pages. s3_Pages cli bucket pre = map Inr pages \<and> length (concat pages) \<le> maxListKeys")
  case True
  then obtain pages where p: "s3_Pages cli bucket pre = map Inr pages" "length (concat pages) \<le> maxListKeys"
    by blast
  then have uniq: "s3_Pages cli bucket pre = map Inr ps \<longleftrightarrow> ps = pages" for ps
    by (auto simp: inj_map_eq_map)
  have l: "latestObject cli bucket pre match = (case newest_of (object_key match) None (concat pages) of
      None \<Rightarrow> Inl (noMatchErr (''s3://'' @ bucket @ ''/'' @ pre) match) | Some ob \<Rightarrow> Inr (s3e_Key ob))"
    using p scan_pages_refines[of None match 0 bucket pre pages] by (simp add: latestObject_def split: option.splits)
  show ?thesis
  proof (cases "newest_of (object_key match) None (concat pages)")
    case None
    then show ?thesis using l newest_of_None[of "object_key match" "concat pages"] unfolding uniq by simp
  next
    case (Some ob)
    then show ?thesis using l p(2) newest_of_newest_in[OF Some] unfolding uniq by (auto simp: newest_in_def)
  qed
next
  case False
  then have "\<not> res_ok (latestObject cli bucket pre match)"
    using scan_pages_all_listed[of bucket pre match 0 None "s3_Pages cli bucket pre"]
      scan_pages_refines[of None match 0 bucket pre]
    by (fastforce simp: latestObject_def split: sum.splits option.splits)
  then show ?thesis using False by (cases "latestObject cli bucket pre match") auto
qed

definition demo_s3 :: S3 where
  "demo_s3 = \<lparr>s3_Client = (\<lambda>f. None), s3_GetObject = (\<lambda>b k. Inr \<lparr>s3o_Body = \<lparr>rd_chunks = [''ab'', ''cd''],
       rd_end = None, rd_used = 4\<rparr>, s3o_ContentLength = Some 4, s3o_LastModified = Some 7\<rparr>),
     s3_Pages = (\<lambda>b p. [Inr [\<lparr>s3e_Key = ''d/a.dump'', s3e_Size = 3, s3e_LastModified = 5\<rparr>],
       Inr [\<lparr>s3e_Key = ''d/'', s3e_Size = 3, s3e_LastModified = 9\<rparr>,
            \<lparr>s3e_Key = ''d/b.dump'', s3e_Size = 3, s3e_LastModified = 7\<rparr>]])\<rparr>"

theorem latestObject_newest_witness: "res_ok (latestObject demo_s3 ''b'' ''d/'' [])"
proof -
  have "s3_Pages demo_s3 ''b'' ''d/'' = map Inr [[\<lparr>s3e_Key = ''d/a.dump'', s3e_Size = 3, s3e_LastModified = 5\<rparr>],
       [\<lparr>s3e_Key = ''d/'', s3e_Size = 3, s3e_LastModified = 9\<rparr>,
        \<lparr>s3e_Key = ''d/b.dump'', s3e_Size = 3, s3e_LastModified = 7\<rparr>]]"
    by (simp add: demo_s3_def)
  then show ?thesis using latestObject_newest[of demo_s3 "''b''" "''d/''" "[]"]
    by (fastforce simp: object_key_def globMatch_def hasSuffix_def suffix_def maxListKeys_def)
qed

section \<open>S3 locations\<close>

text \<open>
  \<open>parseS3URI\<close> inverts the rendering \<open>s3://bucket/key\<close>: it accepts exactly a non-empty bucket without
  a slash, followed by a slash and a non-empty key, or, where the key is a prefix, by any key or
  by nothing.
\<close>

lemma parseS3URI_iff:
  "parseS3URI uri allow = Inr (b, k) \<longleftrightarrow> b \<noteq> [] \<and> CHR ''/'' \<notin> set b \<and>
     (uri = ''s3://'' @ b @ ''/'' @ k \<and> (allow \<or> k \<noteq> []) \<or> uri = ''s3://'' @ b \<and> allow \<and> k = [])"
proof (cases "hasPrefix uri ''s3://''")
  case False
  then show ?thesis by (auto simp: parseS3URI_def cutPrefix_def hasPrefix_def prefix_def)
next
  case True
  then obtain rest where u: "uri = ''s3://'' @ rest" by (auto simp: hasPrefix_def prefix_def)
  show ?thesis
  proof (cases "CHR ''/'' \<in> set rest")
    case True
    then obtain b0 r0 where r: "rest = b0 @ CHR ''/'' # r0" "CHR ''/'' \<notin> set b0" by (meson split_list_first)
    have q: "CHR ''/'' \<notin> set b \<and> rest = b @ CHR ''/'' # k \<longleftrightarrow> b = b0 \<and> k = r0"
      using r cut1_found[of "CHR ''/''" b k] cut1_found[of "CHR ''/''" b0 r0] by auto
    have "parseS3URI uri allow = Inr (b, k) \<longleftrightarrow> b = b0 \<and> k = r0 \<and> b0 \<noteq> [] \<and> (allow \<or> r0 \<noteq> [])"
      using u r(1) cut1_found[OF r(2), of r0] by (auto simp: parseS3URI_def cutPrefix_def hasPrefix_def)
    moreover have "uri = ''s3://'' @ b @ ''/'' @ k \<longleftrightarrow> rest = b @ CHR ''/'' # k" "uri = ''s3://'' @ b \<longleftrightarrow> rest = b"
      using u by simp_all
    ultimately show ?thesis using q True by blast
  next
    case False
    then show ?thesis using u cut1_missing[of "CHR ''/''" rest]
      by (auto simp: parseS3URI_def cutPrefix_def hasPrefix_def)
  qed
qed

lemma parseS3URI_iff_witness:
  "parseS3URI ''s3://b/k'' False = Inr (''b'', ''k'')"
  by (subst parseS3URI_iff) simp

section \<open>Size caps\<close>

definition cap_ok :: "int \<Rightarrow> Reader \<Rightarrow> bool" where
  "cap_ok limit r \<longleftrightarrow> limit \<le> 0 \<or> int (length (rd_data r)) \<le> limit"

lemma cap_chunks_spec:
  "0 \<le> n \<Longrightarrow> n + int (length (concat cs)) \<le> max_i64 \<Longrightarrow>
   cap_chunks limit what n cs = (cs', e, m) \<Longrightarrow>
   (limit \<le> 0 \<or> n + int (length (concat cs)) \<le> limit \<or> n > limit \<and> cs = []) \<and> cs' = cs \<and> e = None \<and>
      m = n + int (length (concat cs)) \<or>
   limit > 0 \<and> n + int (length (concat cs)) > limit \<and> e \<noteq> None"
proof (induction limit what n cs arbitrary: cs' e m rule: cap_chunks.induct)
  case (2 limit what n c cs)
  have i: "i64 (n + int (length c)) = n + int (length c)" using 2(2,3) by (simp add: i64_id is_i64_def)
  show ?case
  proof (cases "limit > 0 \<and> n + int (length c) > limit")
    case True
    then show ?thesis using 2(4) i by (auto simp: Let_def)
  next
    case False
    obtain cs'' e'' m'' where r: "cap_chunks limit what (n + int (length c)) cs = (cs'', e'', m'')"
      by (cases "cap_chunks limit what (n + int (length c)) cs") auto
    have ih: "(limit \<le> 0 \<or> n + int (length c) + int (length (concat cs)) \<le> limit \<or>
        n + int (length c) > limit \<and> cs = []) \<and> cs'' = cs \<and> e'' = None \<and>
        m'' = n + int (length c) + int (length (concat cs)) \<or>
      limit > 0 \<and> n + int (length c) + int (length (concat cs)) > limit \<and> e'' \<noteq> None"
      using 2(1)[OF refl, of cs'' e'' m''] 2(2,3) r i False by auto
    then show ?thesis using 2(4) i False r by (auto simp: Let_def)
  qed
qed auto

text \<open>The transfer cap: within the limit the stream is untouched, past it reading ends in an error.\<close>

lemma capReader_spec:
  assumes "int (length (rd_data r)) \<le> max_i64"
  shows "cap_ok limit r \<Longrightarrow> capReader r limit what = r\<lparr>rd_used := int (length (rd_data r))\<rparr>"
    and "\<not> cap_ok limit r \<Longrightarrow> rd_end (capReader r limit what) \<noteq> None"
proof -
  obtain cs e n where c: "cap_chunks limit what 0 (rd_chunks r) = (cs, e, n)"
    by (cases "cap_chunks limit what 0 (rd_chunks r)") auto
  note s = cap_chunks_spec[OF _ _ c]
  show "cap_ok limit r \<Longrightarrow> capReader r limit what = r\<lparr>rd_used := int (length (rd_data r))\<rparr>"
    using s assms c by (auto simp: capReader_def cap_ok_def rd_data_def split: option.splits)
  show "\<not> cap_ok limit r \<Longrightarrow> rd_end (capReader r limit what) \<noteq> None"
    using s assms c by (auto simp: capReader_def cap_ok_def rd_data_def split: option.splits)
qed

lemma io_Copy_ok:
  "io_Copy p r s = ((n, None), t) \<Longrightarrow>
   rd_end r = None \<and> n = int (length (rd_data r)) \<and> (\<exists>m. os_fs t = (os_fs s)(p \<mapsto> File (rd_data r) m))"
  by (auto simp: io_Copy_def dest: os_WriteFile_ok split: prod.splits option.splits)

lemma io_Copy_frame: "os_frame {p} s (snd (io_Copy p r s))"
  using os_WriteFile_frame[of p s "rd_data r"] by (auto simp: io_Copy_def split: prod.splits option.splits)

lemma copyLimited_frame: "os_frame {p} s (snd (copyLimited p r limit what s))"
  using io_Copy_frame[of p s r] io_Copy_frame[of p s "io_LimitReader r (i64 (limit + 1))"]
  by (auto simp: copyLimited_def split: prod.splits option.splits)

lemma LimitReader_data:
  "0 < n \<Longrightarrow> int (length (rd_data (io_LimitReader r n))) < n \<Longrightarrow> io_LimitReader r n = r"
  by (auto simp: io_LimitReader_def rd_data_def split: if_splits)

lemma copyLimited_ok:
  assumes "copyLimited p r limit what s = ((n, None), t)" and "limit < max_i64"
  shows "rd_end r = None \<and> n = int (length (rd_data r)) \<and> (0 < limit \<longrightarrow> n \<le> limit) \<and>
    (\<exists>m. os_fs t = (os_fs s)(p \<mapsto> File (rd_data r) m))"
proof (cases "limit \<le> 0")
  case True
  then show ?thesis using assms io_Copy_ok by (auto simp: copyLimited_def)
next
  case False
  then have i: "i64 (limit + 1) = limit + 1" using assms(2) by (simp add: i64_id is_i64_def)
  obtain c: "io_Copy p (io_LimitReader r (limit + 1)) s = ((n, None), t)" and "\<not> n > limit"
    using assms(1) False i by (auto simp: copyLimited_def split: prod.splits option.splits if_splits)
  then have "io_LimitReader r (limit + 1) = r"
    using io_Copy_ok[OF c] LimitReader_data[of "limit + 1" r] False by auto
  then show ?thesis using io_Copy_ok[OF c] \<open>\<not> n > limit\<close> by auto
qed

lemma os_CreateTemp_Inr:
  "os_CreateTemp pattern s = (Inr tmp, t) \<Longrightarrow>
   os_fs s tmp = None \<and> os_frame {tmp} s t \<and> (\<exists>m. os_fs t = (os_fs s)(tmp \<mapsto> File [] m))"
  by (auto simp: os_CreateTemp_def Let_def os_frame_def split: option.splits if_splits)

lemma os_CreateTemp_Inl: "os_CreateTemp pattern s = (Inl e, t) \<Longrightarrow> os_frame {} s t"
  by (auto simp: os_CreateTemp_def Let_def split: option.splits if_splits)

lemma os_Remove_healthy: "os_healthy s \<Longrightarrow> os_fs (snd (os_Remove p s)) p = None"
  by (simp add: os_Remove_def)

lemma spool_ok:
  assumes "spool r pattern limit s = (Inr (tmp, n), t)" and "limit < max_i64"
  shows "os_fs s tmp = None" "os_frame {tmp} s t" "rd_end r = None" "n = int (length (rd_data r))"
    "0 < limit \<Longrightarrow> n \<le> limit" "\<exists>m. os_fs t = (os_fs s)(tmp \<mapsto> File (rd_data r) m)"
proof -
  obtain s1 where c: "os_CreateTemp pattern s = (Inr tmp, s1)"
    using assms(1) by (auto simp: spool_def Let_def split: prod.splits sum.splits option.splits)
  obtain s2 where l: "copyLimited tmp r limit ''decompressed backup'' s1 = ((n, None), s2)" and t: "t = os_step s2"
    using assms(1) c by (auto simp: spool_def Let_def os_Close_def split: prod.splits option.splits if_splits)
  have "os_frame {tmp} s1 s2" using copyLimited_frame[of tmp s1 r limit "''decompressed backup''"] l by simp
  then have f: "os_frame {tmp} s s2" using os_CreateTemp_Inr[OF c] os_frame_trans_same by blast
  then show "os_frame {tmp} s t" using t os_frame_trans_same by simp
  show "os_fs s tmp = None" using os_CreateTemp_Inr[OF c] by simp
  show "rd_end r = None" "n = int (length (rd_data r))" "0 < limit \<Longrightarrow> n \<le> limit"
    using copyLimited_ok[OF l assms(2)] by auto
  show "\<exists>m. os_fs t = (os_fs s)(tmp \<mapsto> File (rd_data r) m)"
    using copyLimited_ok[OF l assms(2)] os_CreateTemp_Inr[OF c] t by auto
qed

lemma spool_err:
  assumes "spool r pattern limit s = (Inl e, t)"
  shows "\<exists>tmp. os_fs s tmp = None \<and> os_frame {tmp} s t \<and> (os_healthy s \<longrightarrow> os_fs t tmp = None) \<or> os_frame {} s t"
proof (cases "fst (os_CreateTemp pattern s)")
  case (Inl e')
  then show ?thesis using assms os_CreateTemp_Inl[of pattern s e']
    by (cases "os_CreateTemp pattern s") (auto simp: spool_def)
next
  case (Inr tmp)
  then obtain s1 where c: "os_CreateTemp pattern s = (Inr tmp, s1)" by (cases "os_CreateTemp pattern s") auto
  let ?s3 = "os_step (snd (copyLimited tmp r limit ''decompressed backup'' s1))"
  have t: "t = snd (os_Remove tmp ?s3)"
    using assms c by (auto simp: spool_def Let_def os_Close_def split: prod.splits option.splits if_splits)
  have "os_frame {tmp} s s1" using os_CreateTemp_Inr[OF c] by simp
  then have "os_frame {tmp} s ?s3"
    by (rule os_frame_trans_same[OF os_frame_trans_same[OF _ copyLimited_frame] os_frame_step])
  then show ?thesis using t os_Remove_frame[of tmp ?s3] os_CreateTemp_Inr[OF c] os_Remove_healthy[of ?s3 tmp]
      os_frame_trans_same os_frame_healthy by blast
qed

text \<open>A run of system calls that only created: what was there stays, and in a healthy system a
  failure leaves nothing new.\<close>

lemma spool_err_fs:
  assumes "spool r pattern limit s = (Inl e, t)"
  shows "os_fs s p \<noteq> None \<Longrightarrow> os_fs t p = os_fs s p" and "os_healthy s \<Longrightarrow> os_fs t = os_fs s"
proof -
  obtain tmp where "os_fs s tmp = None \<and> os_frame {tmp} s t \<and> (os_healthy s \<longrightarrow> os_fs t tmp = None) \<or> os_frame {} s t"
    using spool_err[OF assms] by blast
  then have "(\<forall>p. p \<noteq> tmp \<longrightarrow> os_fs t p = os_fs s p) \<and> os_fs s tmp = None \<and> (os_healthy s \<longrightarrow> os_fs t tmp = None) \<or>
    os_fs t = os_fs s"
    by (auto simp: os_frame_def)
  then show "os_fs s p \<noteq> None \<Longrightarrow> os_fs t p = os_fs s p" "os_healthy s \<Longrightarrow> os_fs t = os_fs s"
    by (metis, metis ext)
qed

text \<open>
  C21: a spooled artifact is complete and within the limit: when \<open>spool\<close> succeeds, a file that did not
  exist before holds exactly the bytes of the stream, the stream ended without an error, and a
  positive limit is respected. (The limit \<open>math.MaxInt64\<close> is the exception, below.) When it
  fails, no file that existed before is changed, and none is left behind unless a system call
  failed.
\<close>

theorem spool_complete:
  assumes "limit < max_i64"
  shows "(\<forall>tmp n t. spool r pattern limit s = (Inr (tmp, n), t) \<longrightarrow>
      os_fs s tmp = None \<and> rd_end r = None \<and> n = int (length (rd_data r)) \<and> (0 < limit \<longrightarrow> n \<le> limit) \<and>
      (\<exists>m. os_fs t = (os_fs s)(tmp \<mapsto> File (rd_data r) m))) \<and>
    (\<forall>e t. spool r pattern limit s = (Inl e, t) \<longrightarrow>
      (\<forall>p. os_fs s p \<noteq> None \<longrightarrow> os_fs t p = os_fs s p) \<and> (os_healthy s \<longrightarrow> os_fs t = os_fs s))"
proof (rule conjI; intro allI impI)
  fix tmp n t assume "spool r pattern limit s = (Inr (tmp, n), t)"
  note ok = spool_ok[OF this assms]
  show "os_fs s tmp = None \<and> rd_end r = None \<and> n = int (length (rd_data r)) \<and> (0 < limit \<longrightarrow> n \<le> limit) \<and>
      (\<exists>m. os_fs t = (os_fs s)(tmp \<mapsto> File (rd_data r) m))"
    using ok by blast
next
  fix e t assume "spool r pattern limit s = (Inl e, t)"
  note err = spool_err_fs[OF this]
  show "(\<forall>p. os_fs s p \<noteq> None \<longrightarrow> os_fs t p = os_fs s p) \<and> (os_healthy s \<longrightarrow> os_fs t = os_fs s)"
    using err by blast
qed

theorem spool_complete_witness:
  "\<exists>t m. spool (bytes_reader ''abc'') ''p'' 3 demo_os = (Inr (''/tmp/xp'', 3), t) \<and>
     os_fs t ''/tmp/xp'' = Some (File ''abc'' m) \<and> res_ok (fst (spool (bytes_reader ''abcd'') ''p'' 3 demo_os)) = False"
proof -
  obtain t where t: "spool (bytes_reader ''abc'') ''p'' 3 demo_os = (Inr (''/tmp/xp'', 3), t)"
    by (simp add: spool_def copyLimited_def io_Copy_def io_LimitReader_def rd_data_def bytes_reader_def os_CreateTemp_def
        os_WriteFile_def os_Close_def demo_os_def Let_def i64_def)
  have d: "rd_data (bytes_reader x) = x" for x by (simp add: bytes_reader_def rd_data_def)
  obtain x t' where x: "spool (bytes_reader ''abcd'') ''p'' 3 demo_os = (x, t')" by fastforce
  have "\<not> res_ok x"
  proof
    assume "res_ok x"
    then obtain tmp n where "x = Inr (tmp, n)" by (cases x) auto
    then have "n = 4 \<and> n \<le> 3" using x spool_complete[of 3 "bytes_reader ''abcd''" "''p''" demo_os] by (fastforce simp: d)
    then show False by linarith
  qed
  moreover have "\<exists>m. os_fs t ''/tmp/xp'' = Some (File ''abc'' m)"
    using t spool_complete[of 3 "bytes_reader ''abc''" "''p''" demo_os] by (fastforce simp: d)
  ultimately show ?thesis using t x by auto
qed

text \<open>
  C27: the two \<open>int64\<close> overflows of the caps. With \<open>maxUncompressedBytes\<close> set to the largest \<open>int64\<close>, \<open>limit+1\<close>
  wraps to a negative number, the limiting reader ends at once, and an artifact of any length is
  spooled as an empty file, with success. And a \<open>maxBytes\<close> above a hundredth of the \<open>int64\<close> range (but
  below twice that) makes the derived limit negative, which means no limit.
\<close>

theorem caps_overflow:
  "copyLimited p r max_i64 what s = (case os_WriteFile p [] s of (e, t) \<Rightarrow> ((0, e), t)) \<and>
   (92233720368547759 \<le> m \<and> m \<le> 184467440737095516 \<longrightarrow> uncompressedLimit m 0 < 0)"
proof
  have "i64 (max_i64 + 1) = min_i64" by (simp add: i64_def)
  then have "io_LimitReader r (i64 (max_i64 + 1)) = r\<lparr>rd_chunks := [[]], rd_end := None\<rparr>"
    by (simp add: io_LimitReader_def)
  then show "copyLimited p r max_i64 what s = (case os_WriteFile p [] s of (e, t) \<Rightarrow> ((0, e), t))"
    by (simp add: copyLimited_def io_Copy_def rd_data_def split: prod.splits option.splits)
  show "92233720368547759 \<le> m \<and> m \<le> 184467440737095516 \<longrightarrow> uncompressedLimit m 0 < 0"
  proof
    assume m: "92233720368547759 \<le> m \<and> m \<le> 184467440737095516"
    have "(m * 100 + 2 ^ 63) mod 2 ^ 64 = ((m * 100 - 2 ^ 63) + 2 ^ 64) mod (2 ^ 64 :: int)" by (simp add: add.commute)
    also have "\<dots> = m * 100 - 2 ^ 63"
      using m by (simp only: mod_add_self2) (rule mod_pos_pos_trivial, simp_all)
    finally have "(m * 100 + 2 ^ 63) mod 2 ^ 64 = m * 100 - 2 ^ 63" .
    then show "uncompressedLimit m 0 < 0" using m by (simp add: uncompressedLimit_def i64_def)
  qed
qed

theorem caps_overflow_witness:
  "fst (copyLimited ''t'' (bytes_reader ''data'') max_i64 ''w'' demo_os) = (0, None) \<and>
   uncompressedLimit 100000000000000000 0 < 0"
  using caps_overflow[of "''t''" "bytes_reader ''data''" "''w''" demo_os 100000000000000000]
  by (simp add: os_WriteFile_def demo_os_def)

text \<open>Below the overflow the derived limit is a hundred times the transfer cap.\<close>

lemma uncompressedLimit_exact:
  "0 < m \<Longrightarrow> m \<le> 92233720368547758 \<Longrightarrow> uncompressedLimit m 0 = 100 * m"
  by (simp add: uncompressedLimit_def i64_id is_i64_def)

section \<open>Fetching is read-only\<close>

lemma ageIdentities_frame: "ageIdentities cd cfg s = (x, t) \<Longrightarrow> os_frame {} s t"
  by (auto simp: ageIdentities_def identity_file_def Let_def dest: os_ReadFile_frame
      split: if_splits prod.splits sum.splits)

lemma decryptAge_frame: "decryptAge cd r head cfg s = (x, t) \<Longrightarrow> os_frame {} s t"
  by (auto simp: decryptAge_def Let_def dest: ageIdentities_frame split: prod.splits sum.splits)

lemma decrypt_frame: "decrypt cd r cfg s = (x, t) \<Longrightarrow> os_frame {} s t"
  by (auto simp: decrypt_def Let_def dest: decryptAge_frame
      split: prod.splits sum.splits list.splits option.splits if_splits)

lemma latestFile_frame: "latestFile from s = (x, t) \<Longrightarrow> os_frame {} s t"
  by (auto simp: latestFile_def Let_def dest: os_ReadDir_frame split: prod.splits sum.splits)

text \<open>What a fetch does to the file system: it reads, and at most spools one stream at the end.\<close>

definition fetch_limit :: "From \<Rightarrow> int" where
  "fetch_limit from = uncompressedLimit (from_MaxBytes from) (from_MaxUncompressedBytes from)"

definition fetch_shape :: "From \<Rightarrow> OS \<Rightarrow> Backup res \<Rightarrow> OS \<Rightarrow> bool" where
  "fetch_shape from s res t \<longleftrightarrow>
     (os_frame {} s t \<and> (\<forall>b. res = Inr b \<longrightarrow> bk_cleanup b = None)) \<or>
     (\<exists>s1 r pat. os_frame {} s s1 \<and>
        ((\<exists>e e'. spool r pat (fetch_limit from) s1 = (Inl e, t) \<and> res = Inl e') \<or>
         (\<exists>tmp n b. spool r pat (fetch_limit from) s1 = (Inr (tmp, n), t) \<and> res = Inr b \<and>
            bk_cleanup b = Some tmp \<and> bk_Path b = tmp)))"

lemma fetch_shapeI:
  "os_frame {} s t \<Longrightarrow> fetch_shape from s (Inl e) t"
  "os_frame {} s t \<Longrightarrow> bk_cleanup b = None \<Longrightarrow> fetch_shape from s (Inr b) t"
  "os_frame {} s s1 \<Longrightarrow> spool r pat (fetch_limit from) s1 = (Inl e, t) \<Longrightarrow> fetch_shape from s (Inl e') t"
  "os_frame {} s s1 \<Longrightarrow> spool r pat (fetch_limit from) s1 = (Inr (tmp, n), t) \<Longrightarrow> bk_cleanup b = Some tmp \<Longrightarrow>
   bk_Path b = tmp \<Longrightarrow> fetch_shape from s (Inr b) t"
  unfolding fetch_shape_def by blast+

lemma fetchS3_shape:
  assumes "fetchS3 cd cli from s = (res, t)"
  shows "fetch_shape from s res t"
  using assms
  by (auto simp: fetchS3_def Let_def fetch_limit_def[symmetric] intro: fetch_shapeI decrypt_frame
      split: sum.splits prod.splits option.splits if_splits)

lemma fetchFile_shape:
  assumes "fetchFile cd from s = (res, t)"
  shows "fetch_shape from s res t"
proof -
  obtain sel s1 where sel: "(if from_Select from \<noteq> [] then latestFile from s else (Inr (from_URI from), s)) = (sel, s1)"
    by fastforce
  then have f1: "os_frame {} s s1" using latestFile_frame by (auto split: if_splits)
  show ?thesis
  proof (cases sel)
    case (Inl e)
    then show ?thesis using assms sel f1 by (auto simp: fetchFile_def intro: fetch_shapeI)
  next
    case (Inr p)
    obtain st s2 where st: "os_Stat p s1 = (st, s2)" by fastforce
    obtain d s3 where d: "os_ReadFile p s2 = (d, s3)" by fastforce
    obtain x s4 where x: "decrypt cd (bytes_reader (projr d)) (from_Decrypt from) s3 = (x, s4)" by fastforce
    have f2: "os_frame {} s s2" using os_frame_trans_same[OF f1 os_Stat_frame[OF st]] .
    have f3: "os_frame {} s s3" using os_frame_trans_same[OF f2 os_ReadFile_frame[OF d]] .
    have f4: "os_frame {} s s4" using os_frame_trans_same[OF f3 decrypt_frame[OF x]] .
    show ?thesis using assms sel Inr st d x f2 f3 f4
      by (auto simp: fetchFile_def Let_def fetch_limit_def[symmetric] intro: fetch_shapeI
          split: sum.splits prod.splits if_splits)
  qed
qed

lemma Fetch_shape: "Fetch cd cli from s = (res, t) \<Longrightarrow> fetch_shape from s res t"
  by (auto simp: Fetch_def intro: fetchFile_shape fetchS3_shape fetch_shapeI split: if_splits)

text \<open>The only path a fetch and its cleanup can change is one that did not exist before.\<close>

lemma Fetch_touches_fresh:
  assumes "Fetch cd cli from s = (res, t)" and "fetch_limit from < max_i64"
  shows "\<exists>tmp. os_fs s tmp = None \<and> os_frame {tmp} s t \<and>
      (case res of Inl e \<Rightarrow> os_healthy s \<longrightarrow> os_fs t tmp = None
       | Inr b \<Rightarrow> bk_cleanup b = Some tmp \<or> (bk_cleanup b = None \<and> os_fs t tmp = None)) \<or>
    os_frame {} s t \<and> (\<forall>b. res = Inr b \<longrightarrow> bk_cleanup b = None)"
proof -
  consider (none) "os_frame {} s t" "\<forall>b. res = Inr b \<longrightarrow> bk_cleanup b = None"
    | (err) s1 r pat e e' where "os_frame {} s s1" "spool r pat (fetch_limit from) s1 = (Inl e, t)" "res = Inl e'"
    | (ok) s1 r pat tmp n b where "os_frame {} s s1" "spool r pat (fetch_limit from) s1 = (Inr (tmp, n), t)"
        "res = Inr b" "bk_cleanup b = Some tmp"
    using Fetch_shape[OF assms(1)] unfolding fetch_shape_def by blast
  then show ?thesis
  proof cases
    case err
    obtain tmp where tmp: "os_fs s1 tmp = None \<and> os_frame {tmp} s1 t \<and> (os_healthy s1 \<longrightarrow> os_fs t tmp = None) \<or> os_frame {} s1 t"
      using spool_err[OF err(2)] by blast
    have "os_fs s1 = os_fs s" "os_healthy s \<Longrightarrow> os_healthy s1"
      using err(1) os_frame_healthy by (auto simp: os_frame_def)
    moreover have "os_frame {tmp} s1 t \<Longrightarrow> os_frame {tmp} s t" "os_frame {} s1 t \<Longrightarrow> os_frame {} s t"
      using os_frame_trans[OF err(1)] by force+
    ultimately show ?thesis using tmp err(3) by auto
  next
    case ok
    note sp = spool_ok[OF ok(2) assms(2)]
    have "os_fs s1 = os_fs s" using ok(1) by (auto simp: os_frame_def)
    moreover have "os_frame {tmp} s t" using os_frame_trans[OF ok(1) sp(2)] by simp
    ultimately show ?thesis using sp(1) ok by auto
  qed auto
qed

text \<open>
  C20: sources are read-only. Whatever system calls fail, neither a fetch nor the cleanup after it
  changes or removes a file that existed before; and when no call fails, a failed fetch, or a
  successful one followed by its cleanup, leaves the file system exactly as it was. The limit on the uncompressed
  size is taken to be less than the largest \<open>int64\<close>, where it overflows.
\<close>

theorem Fetch_read_only:
  assumes "Fetch cd cli from s = (res, t)" and "fetch_limit from < max_i64"
  shows "(\<forall>p. os_fs s p \<noteq> None \<longrightarrow> os_fs t p = os_fs s p \<and>
      (\<forall>b. res = Inr b \<longrightarrow> os_fs (snd (Cleanup (Some b) t)) p = os_fs s p)) \<and>
    (os_healthy s \<longrightarrow> (case res of Inl e \<Rightarrow> os_fs t | Inr b \<Rightarrow> os_fs (snd (Cleanup (Some b) t))) = os_fs s)"
proof -
  consider (none) "os_frame {} s t" "\<forall>b. res = Inr b \<longrightarrow> bk_cleanup b = None"
    | (tmp) tmp where "os_fs s tmp = None" "os_frame {tmp} s t"
        "case res of Inl e \<Rightarrow> os_healthy s \<longrightarrow> os_fs t tmp = None
         | Inr b \<Rightarrow> bk_cleanup b = Some tmp \<or> (bk_cleanup b = None \<and> os_fs t tmp = None)"
    using Fetch_touches_fresh[OF assms] by blast
  then show ?thesis
  proof cases
    case none
    then show ?thesis by (auto simp: os_frame_def Cleanup_def split: sum.splits)
  next
    case tmp
    have c: "os_frame {tmp} s (snd (Cleanup (Some b) t))" "os_healthy s \<Longrightarrow> os_fs (snd (Cleanup (Some b) t)) tmp = None"
      if "res = Inr b" for b
      using that tmp os_frame_trans_same[OF tmp(2) os_Remove_frame] os_Remove_healthy[of t tmp]
        os_frame_healthy[OF tmp(2)]
      by (auto simp: Cleanup_def split: option.splits)
    have eq: "os_fs u = os_fs s" if "os_frame {tmp} s u" "os_fs u tmp = None" for u
    proof
      fix p show "os_fs u p = os_fs s p" using that tmp(1) by (cases "p = tmp") (auto simp: os_frame_def)
    qed
    have keep: "os_fs u p = os_fs s p" if "os_frame {tmp} s u" "os_fs s p \<noteq> None" for u p
      using that tmp(1) by (cases "p = tmp") (auto simp: os_frame_def)
    show ?thesis
    proof (cases res)
      case (Inl e)
      have "os_healthy s \<longrightarrow> os_fs t tmp = None" using tmp(3) Inl by simp
      then show ?thesis using keep[OF tmp(2)] eq[OF tmp(2)] unfolding Inl sum.case by blast
    next
      case (Inr b)
      show ?thesis using keep[OF tmp(2)] keep[OF c(1)[OF Inr]] eq[OF c(1)[OF Inr]] c(2)[OF Inr]
        unfolding Inr sum.case sum.inject by metis
    qed
  qed
qed

definition demo_codecs :: Codecs where
  "demo_codecs = \<lparr>cd_gzip = (\<lambda>r. Inr (bytes_reader ''plain'')), cd_zstd = (\<lambda>r. Inl (Msg ''bad'' [])), cd_bzip2 = (\<lambda>r. r),
     cd_armorHeader = ''-----BEGIN AGE'', cd_armor = (\<lambda>r. r), cd_age = (\<lambda>r ids. Inr r),
     cd_ParseIdentities = (\<lambda>s. Inr [s]), cd_NewScryptIdentity = (\<lambda>s. Inr s), cd_LookPath = (\<lambda>b. Inr b),
     cd_Pipe = None, cd_gpg = (\<lambda>b as fd r. Inr (r, None, []))\<rparr>"

definition demo_file_os :: OS where
  "demo_file_os = demo_os\<lparr>os_fs := [''/b.gz'' \<mapsto> File (chars [0x1f, 0x8b, 1]) 5]\<rparr>"

definition demo_from :: From where
  "demo_from = (drillFrom demo_drill)\<lparr>from_URI := ''/b.gz'', from_Select := []\<rparr>"

lemma demo_from_limit: "fetch_limit demo_from < max_i64"
  by (simp add: fetch_limit_def uncompressedLimit_def demo_from_def demo_drill_def)

lemma demo_file_os_healthy: "os_healthy demo_file_os"
  by (simp add: os_healthy_def demo_file_os_def demo_os_def)

theorem Fetch_read_only_witness:
  "case Fetch demo_codecs demo_s3 demo_from demo_file_os of
     (Inl e, t) \<Rightarrow> os_fs t = os_fs demo_file_os
   | (Inr b, t) \<Rightarrow> os_fs (snd (Cleanup (Some b) t)) = os_fs demo_file_os"
proof -
  obtain res t where f: "Fetch demo_codecs demo_s3 demo_from demo_file_os = (res, t)" by fastforce
  then show ?thesis using Fetch_read_only[OF f demo_from_limit] demo_file_os_healthy by (auto split: sum.splits)
qed

section \<open>A plain download is the object\<close>

lemma decrypt_plain: "decrypt cd r cfg s = (Inr (p, []), t) \<Longrightarrow> p = r"
  by (auto simp: decrypt_def decryptGPG_def Let_def
      split: prod.splits sum.splits list.splits option.splits if_splits)

lemma decompress_plain: "decompress cd r = Inr (p, []) \<Longrightarrow> p = r"
  by (auto simp: decompress_def Let_def split: prod.splits sum.splits option.splits if_splits)

lemma fetchS3_Inr:
  assumes "fetchS3 cd cli from s = (Inr b, t)"
  obtains bucket key0 key ob plain s1 r n where
    "parseS3URI (from_URI from) (from_Select from \<noteq> []) = Inr (bucket, key0)"
    "(if from_Select from \<noteq> [] then latestObject cli bucket key0 (from_Match from) else Inr key0) = Inr key"
    "s3_GetObject cli bucket key = Inr ob" "bk_ResolvedURI b = ''s3://'' @ bucket @ ''/'' @ key"
    "decrypt cd (capReader (s3o_Body ob) (from_MaxBytes from) ''backup'') (from_Decrypt from) s =
       (Inr (plain, bk_Encryption b), s1)"
    "decompress cd plain = Inr (r, bk_Compression b)"
    "spool r (''firedrill-backup-*'' @ plainExt key) (fetch_limit from) s1 = (Inr (bk_Path b, n), t)"
    "bk_Size b = rd_used r"
  using assms
  by (auto simp: fetchS3_def Let_def fetch_limit_def[symmetric]
      split: sum.splits prod.splits option.splits if_splits)

text \<open>
  An object that is neither encrypted nor compressed is drilled byte for byte: after a successful
  fetch, the local file holds exactly the body of the object the evidence names, the transfer ended
  without an error, the recorded size is that of the object, and \<open>maxBytes\<close>, when set, was
  respected.
\<close>

lemma fetchS3_plain_exact:
  assumes "fetchS3 cd cli from s = (Inr b, t)" and "bk_Encryption b = []" and "bk_Compression b = []"
    and "fetch_limit from < max_i64"
  shows "\<exists>bucket key ob. s3_GetObject cli bucket key = Inr ob \<and> bk_ResolvedURI b = ''s3://'' @ bucket @ ''/'' @ key \<and>
    (int (length (rd_data (s3o_Body ob))) \<le> max_i64 \<longrightarrow>
      (\<exists>m. os_fs t (bk_Path b) = Some (File (rd_data (s3o_Body ob)) m)) \<and> rd_end (s3o_Body ob) = None \<and>
      bk_Size b = int (length (rd_data (s3o_Body ob))) \<and> cap_ok (from_MaxBytes from) (s3o_Body ob))"
proof -
  obtain bucket key0 key ob plain s1 r n where g: "s3_GetObject cli bucket key = Inr ob"
      "bk_ResolvedURI b = ''s3://'' @ bucket @ ''/'' @ key"
    and d: "decrypt cd (capReader (s3o_Body ob) (from_MaxBytes from) ''backup'') (from_Decrypt from) s = (Inr (plain, []), s1)"
      "decompress cd plain = Inr (r, [])"
    and sp: "spool r (''firedrill-backup-*'' @ plainExt key) (fetch_limit from) s1 = (Inr (bk_Path b, n), t)"
      "bk_Size b = rd_used r"
    using fetchS3_Inr[OF assms(1)] assms(2,3) by metis
  have r: "r = capReader (s3o_Body ob) (from_MaxBytes from) ''backup''"
    using d decrypt_plain decompress_plain by metis
  note ok = spool_ok[OF sp(1) assms(4)]
  have "cap_ok (from_MaxBytes from) (s3o_Body ob)" if "int (length (rd_data (s3o_Body ob))) \<le> max_i64"
    using capReader_spec(2)[OF that] ok(3) r by blast
  then show ?thesis
    using g ok(3,6) sp(2) r capReader_spec(1)[of "s3o_Body ob" "from_MaxBytes from" "''backup''"]
    by (intro exI[of _ bucket] exI[of _ key] exI[of _ ob]) (auto simp: rd_data_def)
qed

definition demo_s3_from :: From where
  "demo_s3_from = (drillFrom demo_drill)\<lparr>from_Type := ''s3'', from_URI := ''s3://bkt/d/a.dump'', from_Select := [],
     from_Match := [], from_MaxBytes := 10\<rparr>"

lemma fetchS3_plain_example:
  "\<exists>b t m. fetchS3 demo_codecs demo_s3 demo_s3_from demo_os = (Inr b, t) \<and> os_fs t (bk_Path b) = Some (File ''abcd'' m)"
proof -
  have "res_ok (fst (fetchS3 demo_codecs demo_s3 demo_s3_from demo_os)) \<and>
    map_sum id bk_Encryption (fst (fetchS3 demo_codecs demo_s3 demo_s3_from demo_os)) = Inr [] \<and>
    map_sum id bk_Compression (fst (fetchS3 demo_codecs demo_s3 demo_s3_from demo_os)) = Inr []"
    by code_simp
  then obtain b t where f: "fetchS3 demo_codecs demo_s3 demo_s3_from demo_os = (Inr b, t)" "bk_Encryption b = []" "bk_Compression b = []"
    by (cases "fetchS3 demo_codecs demo_s3 demo_s3_from demo_os"; cases "fst (fetchS3 demo_codecs demo_s3 demo_s3_from demo_os)") auto
  have "fetch_limit demo_s3_from < max_i64"
    by (simp add: fetch_limit_def uncompressedLimit_def demo_s3_from_def demo_drill_def i64_def)
  then show ?thesis using fetchS3_plain_exact[OF f] f(1) by (auto simp: demo_s3_def rd_data_def)
qed

section \<open>gpg failures\<close>

text \<open>A decoder that is read to its end reports the read error of its input.\<close>

definition codec_errors :: "Codecs \<Rightarrow> bool" where
  "codec_errors cd \<longleftrightarrow>
     (\<forall>r z. rd_end r \<noteq> None \<longrightarrow> cd_gzip cd r = Inr z \<longrightarrow> rd_end z \<noteq> None) \<and>
     (\<forall>r z. rd_end r \<noteq> None \<longrightarrow> cd_zstd cd r = Inr z \<longrightarrow> rd_end z \<noteq> None) \<and>
     (\<forall>r. rd_end r \<noteq> None \<longrightarrow> rd_end (cd_bzip2 cd r) \<noteq> None)"

lemma decompress_cases:
  "decompress cd r = Inr (z, c) \<Longrightarrow> z = r \<or> cd_gzip cd r = Inr z \<or> cd_zstd cd r = Inr z \<or> z = cd_bzip2 cd r"
  by (auto simp: decompress_def Let_def split: prod.splits sum.splits option.splits if_splits)

lemma decompress_end: "codec_errors cd \<Longrightarrow> decompress cd r = Inr (z, c) \<Longrightarrow> rd_end z = None \<Longrightarrow> rd_end r = None"
  unfolding codec_errors_def using decompress_cases[of cd r z c] by blast

lemma decrypt_gpg:
  assumes "decrypt cd r (Some c) s = (Inr (plain, enc), t)" and "dec_Type c = ''gpg''"
  shows "enc = ''gpg'' \<and> (\<exists>bin args fd out werr ebuf. cd_gpg cd bin args fd r = Inr (out, werr, ebuf) \<and> plain = gpgReader out werr ebuf)"
  using assms by (auto simp: decrypt_def decryptGPG_def Let_def split: prod.splits sum.splits list.splits option.splits if_splits) blast+

text \<open>What a fetch reads: the artifact the backup names.\<close>

definition fetch_input :: "S3 \<Rightarrow> From \<Rightarrow> OS \<Rightarrow> Backup \<Rightarrow> Reader \<Rightarrow> bool" where
  "fetch_input cli from s b inp \<longleftrightarrow>
     (if from_Type from = ''file'' then \<exists>d m. os_fs s (bk_ResolvedURI b) = Some (File d m) \<and> inp = bytes_reader d
      else \<exists>bucket key ob. bk_ResolvedURI b = ''s3://'' @ bucket @ ''/'' @ key \<and> s3_GetObject cli bucket key = Inr ob \<and>
        inp = capReader (s3o_Body ob) (from_MaxBytes from) ''backup'')"

lemma fetchFile_Inr:
  assumes "fetchFile cd from s = (Inr b, t)"
  obtains d m plain s3 s4 r where "os_fs s (bk_ResolvedURI b) = Some (File d m)"
    "decrypt cd (bytes_reader d) (from_Decrypt from) s3 = (Inr (plain, bk_Encryption b), s4)"
    "decompress cd plain = Inr (r, bk_Compression b)"
    "bk_Encryption b \<noteq> [] \<longrightarrow> (\<exists>pat n. spool r pat (fetch_limit from) s4 = (Inr (bk_Path b, n), t))"
proof -
  obtain p s1 where sel: "(if from_Select from \<noteq> [] then latestFile from s else (Inr (from_URI from), s)) = (Inr p, s1)"
    using assms by (auto simp: fetchFile_def Let_def split: prod.splits sum.splits if_splits)
  have f1: "os_fs s1 = os_fs s" using sel latestFile_frame[of "from" s "Inr p" s1] by (auto simp: os_frame_def split: if_splits)
  obtain i sz mt s2 where st: "os_Stat p s1 = (Inr (i, sz, mt), s2)"
    using assms sel by (auto simp: fetchFile_def Let_def split: prod.splits sum.splits)
  have f2: "os_fs s2 = os_fs s" using os_Stat_frame[OF st, of "{}"] f1 by (simp add: os_frame_def fun_eq_iff)
  obtain d s3 where d: "os_ReadFile p s2 = (Inr d, s3)"
    using assms sel st by (auto simp: fetchFile_def Let_def split: prod.splits sum.splits if_splits)
  obtain plain enc s4 where x: "decrypt cd (bytes_reader d) (from_Decrypt from) s3 = (Inr (plain, enc), s4)"
    using assms sel st d by (auto simp: fetchFile_def Let_def split: prod.splits sum.splits if_splits)
  obtain r cmp where r: "decompress cd plain = Inr (r, cmp)"
    using assms sel st d x by (auto simp: fetchFile_def Let_def split: prod.splits sum.splits if_splits)
  have "bk_ResolvedURI b = p \<and> bk_Encryption b = enc \<and> bk_Compression b = cmp \<and>
    (enc \<noteq> [] \<longrightarrow> (\<exists>n. spool r (''firedrill-backup-*'' @ plainExt p) (fetch_limit from) s4 = (Inr (bk_Path b, n), t)))"
    using assms sel st d x r
    by (auto simp: fetchFile_def Let_def fetch_limit_def[symmetric] split: prod.splits sum.splits if_splits)
  then show thesis using that os_ReadFile_Inr[OF d] f2 x r by metis
qed

lemma Fetch_Inr:
  assumes "Fetch cd cli from s = (Inr b, t)"
  obtains inp plain s1 s2 r where "fetch_input cli from s b inp"
    "decrypt cd inp (from_Decrypt from) s1 = (Inr (plain, bk_Encryption b), s2)" "decompress cd plain = Inr (r, bk_Compression b)"
    "bk_Encryption b \<noteq> [] \<longrightarrow> (\<exists>pat n. spool r pat (fetch_limit from) s2 = (Inr (bk_Path b, n), t))"
proof (cases "from_Type from = ''file''")
  case True
  then have "fetchFile cd from s = (Inr b, t)" using assms by (simp add: Fetch_def)
  then show ?thesis by (rule fetchFile_Inr) (rule that, auto simp: fetch_input_def True)
next
  case False
  then have "fetchS3 cd cli from s = (Inr b, t)" using assms by (auto simp: Fetch_def split: if_splits)
  then show ?thesis by (rule fetchS3_Inr) (rule that, auto simp: fetch_input_def False)
qed

text \<open>
  C25: a gpg that fails is never mistaken for a short backup. When a fetch with \<open>decrypt.type: gpg\<close> succeeds, gpg was run on the artifact
  that the backup names, its output ended without a read error and it exited with success; and the local file holds exactly that output,
  or, when it is compressed, all of its decompressed stream, read to its end without an error. So an exit status of gpg other than success makes the
  fetch fail, whatever gpg had written by then. The decoders are assumed to report a read error of their input (\<open>codec_errors\<close>), and the limit
  on the uncompressed size to be less than the largest \<open>int64\<close>, where the limit overflows and every stream is spooled as empty.
\<close>

theorem Fetch_gpg_success_only:
  assumes "codec_errors cd" and "fetch_limit from < max_i64" and "from_Decrypt from = Some c" and "dec_Type c = ''gpg''"
    and "Fetch cd cli from s = (Inr b, t)"
  shows "\<exists>inp bin args fd out ebuf r m. fetch_input cli from s b inp \<and> cd_gpg cd bin args fd inp = Inr (out, None, ebuf) \<and> rd_end out = None \<and>
    decompress cd out = Inr (r, bk_Compression b) \<and> rd_end r = None \<and> (bk_Compression b = [] \<longrightarrow> r = out) \<and>
    os_fs t (bk_Path b) = Some (File (rd_data r) m) \<and> bk_Encryption b = ''gpg''"
proof -
  obtain inp plain s1 s2 r where x: "fetch_input cli from s b inp"
    "decrypt cd inp (Some c) s1 = (Inr (plain, bk_Encryption b), s2)" "decompress cd plain = Inr (r, bk_Compression b)"
    "bk_Encryption b \<noteq> [] \<longrightarrow> (\<exists>pat n. spool r pat (fetch_limit from) s2 = (Inr (bk_Path b, n), t))"
    by (rule Fetch_Inr[OF assms(5), unfolded assms(3)])
  obtain bin args fd out werr ebuf where g: "cd_gpg cd bin args fd inp = Inr (out, werr, ebuf)" "plain = gpgReader out werr ebuf"
    and enc: "bk_Encryption b = ''gpg''"
    using decrypt_gpg[OF x(2) assms(4)] by blast
  obtain pat n where sp: "spool r pat (fetch_limit from) s2 = (Inr (bk_Path b, n), t)" using x(4) enc by auto
  note ok = spool_ok[OF sp assms(2)]
  have "rd_end plain = None" using decompress_end[OF assms(1) x(3) ok(3)] .
  then have w: "werr = None" "rd_end out = None" "plain = out"
    using g(2) by (auto simp: gpgReader_def split: option.splits if_splits)
  obtain m where "os_fs t (bk_Path b) = Some (File (rd_data r) m)" using ok(6) by auto
  moreover have "bk_Compression b = [] \<longrightarrow> r = out" using x(3) decompress_plain w(3) by metis
  ultimately show ?thesis using x(1,3) g(1) w ok(3) enc by blast
qed

definition gpg_codecs :: "msg option \<Rightarrow> Codecs" where
  "gpg_codecs werr = demo_codecs\<lparr>cd_gzip := Inr, cd_zstd := Inr, cd_bzip2 := id,
     cd_gpg := (\<lambda>b as fd r. Inr (bytes_reader ''half a ba'', werr, ''bad key''))\<rparr>"

definition gpg_from :: From where
  "gpg_from = demo_from\<lparr>from_Decrypt := Some \<lparr>dec_Type = ''gpg'', dec_IdentityFile = [], dec_IdentityEnv = [], dec_PassphraseEnv = []\<rparr>\<rparr>"

theorem Fetch_gpg_success_only_witness:
  "(\<exists>b t m. Fetch (gpg_codecs None) demo_s3 gpg_from demo_file_os = (Inr b, t) \<and> os_fs t (bk_Path b) = Some (File ''half a ba'' m)) \<and>
   \<not> res_ok (fst (Fetch (gpg_codecs (Some (Msg ''exit status 2'' []))) demo_s3 gpg_from demo_file_os))"
proof
  have e: "codec_errors (gpg_codecs w)" for w by (simp add: codec_errors_def gpg_codecs_def)
  have l: "fetch_limit gpg_from < max_i64" using demo_from_limit by (simp add: fetch_limit_def gpg_from_def)
  have d: "from_Decrypt gpg_from = Some \<lparr>dec_Type = ''gpg'', dec_IdentityFile = [], dec_IdentityEnv = [], dec_PassphraseEnv = []\<rparr>"
    "dec_Type \<lparr>dec_Type = ''gpg'', dec_IdentityFile = [], dec_IdentityEnv = [], dec_PassphraseEnv = []\<rparr> = ''gpg''"
    by (simp_all add: gpg_from_def)
  note only = Fetch_gpg_success_only[OF e l d]
  have gpg: "cd_gpg (gpg_codecs w) bin args fd r = Inr (bytes_reader ''half a ba'', w, ''bad key'')" for w bin args fd r
    by (simp add: gpg_codecs_def)
  have "detect ''half'' = []" by code_simp
  then have plain: "decompress cd (bytes_reader ''half a ba'') = Inr (r, c) \<Longrightarrow> r = bytes_reader ''half a ba''" for cd r c
    by (simp add: decompress_def peek_def bytes_reader_def rd_data_def maxMagic_def)
  have "res_ok (fst (Fetch (gpg_codecs None) demo_s3 gpg_from demo_file_os))" by code_simp
  then obtain b t where f: "Fetch (gpg_codecs None) demo_s3 gpg_from demo_file_os = (Inr b, t)"
    by (cases "Fetch (gpg_codecs None) demo_s3 gpg_from demo_file_os"; cases "fst (Fetch (gpg_codecs None) demo_s3 gpg_from demo_file_os)") auto
  show "\<exists>b t m. Fetch (gpg_codecs None) demo_s3 gpg_from demo_file_os = (Inr b, t) \<and> os_fs t (bk_Path b) = Some (File ''half a ba'' m)"
  proof -
    obtain r m where r: "decompress (gpg_codecs None) (bytes_reader ''half a ba'') = Inr (r, bk_Compression b)"
      "os_fs t (bk_Path b) = Some (File (rd_data r) m)"
      using only[OF f] unfolding gpg by blast
    moreover have "rd_data r = ''half a ba''" using plain[OF r(1)] by (simp add: bytes_reader_def rd_data_def)
    ultimately show ?thesis using f by auto
  qed
  show "\<not> res_ok (fst (Fetch (gpg_codecs (Some (Msg ''exit status 2'' []))) demo_s3 gpg_from demo_file_os))"
  proof
    assume "res_ok (fst (Fetch (gpg_codecs (Some (Msg ''exit status 2'' []))) demo_s3 gpg_from demo_file_os))"
    then obtain b t where f: "Fetch (gpg_codecs (Some (Msg ''exit status 2'' []))) demo_s3 gpg_from demo_file_os = (Inr b, t)"
      by (cases "Fetch (gpg_codecs (Some (Msg ''exit status 2'' []))) demo_s3 gpg_from demo_file_os";
          cases "fst (Fetch (gpg_codecs (Some (Msg ''exit status 2'' []))) demo_s3 gpg_from demo_file_os)") auto
    show False using only[OF f] unfolding gpg by auto
  qed
qed

section \<open>Globs are validated once\<close>

text \<open>
  The probe of spec validation is enough: a glob that \<open>Validate\<close> accepted (it was tried on one name
  only) is well formed for every name, so no candidate is ever dropped because of a pattern error,
  and \<open>globMatch\<close> is exactly \<open>path.Match\<close>.
\<close>

lemma validated_glob_total:
  assumes "Validate d = None" and "drillDriver d \<noteq> ''velero''" and "from_Match (drillFrom d) \<noteq> []"
  shows "path_Match (from_Match (drillFrom d)) name = Inr (globMatch (from_Match (drillFrom d)) name)"
proof -
  have "glob_ok (from_Match (drillFrom d))"
    using assms(1,2) unfolding Validate_None by (auto simp: wf_drill_def wf_engine_drill_def wf_velero_drill_def wf_artifact_def)
  then have "path_Match (from_Match (drillFrom d)) name \<noteq> Inl ErrBadPattern" using path_Match_err_iff by blast
  then show ?thesis using assms(3) by (cases "path_Match (from_Match (drillFrom d)) name")
      (auto simp: globMatch_def, metis bad_pattern.exhaust)
qed

lemma validated_glob_total_witness:
  "path_Match ''p*.gz'' ''p1.gz'' = Inr True"
proof -
  have "Validate demo_drill = None" using demo_drill_wf by (simp add: Validate_None)
  moreover have "globMatch ''p*.gz'' ''p1.gz''" by code_simp
  ultimately show ?thesis using validated_glob_total[of demo_drill "''p1.gz''"] by (simp add: demo_drill_def)
qed

end
