(* ===== verification/FD_Time.thy ===== *)
theory FD_Time
  imports FD_Base
begin

text \<open>
  Calendar time as the sources print it: the UTC date and time of a \<open>time.Time\<close>, the file-name stamp
  of evidence (\<open>2006-01-02T15-04-05Z\<close> and nine digits of nanoseconds) and RFC 3339, which the sandboxes
  write into their expiry labels and \<open>gc\<close> reads back.

  A time is the number of nanoseconds since Go's zero time, 1 January of year 1; times before it do
  not occur. The Gregorian calendar is counted year by year and month by month, and the lemmas say
  that nothing is lost: the printed date determines the day.
\<close>

section \<open>The calendar\<close>

definition leap :: "nat \<Rightarrow> bool" where
  "leap y \<longleftrightarrow> 4 dvd y \<and> (\<not> 100 dvd y \<or> 400 dvd y)"

definition year_days :: "nat \<Rightarrow> nat" where
  "year_days y = (if leap y then 366 else 365)"

definition month_days :: "nat \<Rightarrow> nat \<Rightarrow> nat" where
  "month_days y m = (if m = 2 then (if leap y then 29 else 28) else if m \<in> {4, 6, 9, 11} then 30 else 31)"

lemma year_days_bounds: "365 \<le> year_days y" "year_days y \<le> 366"
  by (simp_all add: year_days_def)

lemma year_days_less [termination_simp]: "\<not> d < year_days y \<Longrightarrow> d - year_days y < d"
  using year_days_bounds(1)[of y] by linarith

fun civil_year :: "nat \<Rightarrow> nat \<Rightarrow> nat \<times> nat" where
  "civil_year d y = (if d < year_days y then (y, d) else civil_year (d - year_days y) (Suc y))"

declare civil_year.simps [simp del]

fun civil_month :: "nat \<Rightarrow> nat \<Rightarrow> nat list \<Rightarrow> nat \<times> nat" where
  "civil_month y d [] = (12, d)"
| "civil_month y d (m # ms) = (if d < month_days y m then (m, d) else civil_month y (d - month_days y m) ms)"

definition months :: "nat list" where "months = [1, 2, 3, 4, 5, 6, 7, 8, 9, 10, 11, 12]"

text \<open>Year, month and day of the day number \<open>d\<close> (day 0 is 1 January of year 1).\<close>

definition civil :: "nat \<Rightarrow> nat \<times> nat \<times> nat" where
  "civil d = (let (y, yd) = civil_year d 1; (m, md) = civil_month y yd months in (y, m, md + 1))"

text \<open>The way back.\<close>

definition days_before_year :: "nat \<Rightarrow> nat" where
  "days_before_year y = sum_list (map year_days [1..<y])"

fun days_before_month :: "nat \<Rightarrow> nat \<Rightarrow> nat list \<Rightarrow> nat" where
  "days_before_month y m [] = 0"
| "days_before_month y m (k # ks) = (if k = m then 0 else month_days y k + days_before_month y m ks)"

definition day_number :: "nat \<times> nat \<times> nat \<Rightarrow> nat" where
  "day_number = (\<lambda>(y, m, d). days_before_year y + days_before_month y m months + (d - 1))"

lemma civil_year_days:
  "civil_year d y0 = (y, yd) \<Longrightarrow> y0 \<le> y \<and> d = sum_list (map year_days [y0..<y]) + yd \<and> yd < year_days y"
proof (induction d y0 rule: civil_year.induct)
  case (1 d y0)
  show ?case
  proof (cases "d < year_days y0")
    case True
    then show ?thesis using 1(2) by (simp add: civil_year.simps)
  next
    case False
    then have r: "civil_year (d - year_days y0) (Suc y0) = (y, yd)" using 1(2) by (simp add: civil_year.simps)
    then have ih: "Suc y0 \<le> y" "d - year_days y0 = sum_list (map year_days [Suc y0..<y]) + yd" "yd < year_days y"
      using 1(1)[OF False] by auto
    then have "[y0..<y] = y0 # [Suc y0..<y]" by (simp add: upt_conv_Cons)
    then show ?thesis using ih False by simp
  qed
qed

lemma civil_month_days:
  "civil_month y d ms = (m, md) \<Longrightarrow> d < sum_list (map (month_days y) ms) \<Longrightarrow> distinct ms \<Longrightarrow>
   m \<in> set ms \<and> d = days_before_month y m ms + md \<and> md < month_days y m"
proof (induction ms arbitrary: d)
  case (Cons k ms)
  show ?case
  proof (cases "d < month_days y k")
    case True
    then show ?thesis using Cons.prems by simp
  next
    case False
    then have "m \<in> set ms \<and> d - month_days y k = days_before_month y m ms + md \<and> md < month_days y m"
      using Cons by simp
    then show ?thesis using False Cons.prems(3) by auto
  qed
qed simp

lemma months_year: "sum_list (map (month_days y) months) = year_days y"
  by (simp add: months_def month_days_def year_days_def)

lemma civil_wf:
  assumes "civil n = (y, m, d)"
  shows "1 \<le> y \<and> m \<in> set months \<and> 1 \<le> d \<and> d \<le> month_days y m"
    and "day_number (y, m, d) = n"
proof -
  obtain yd md where y: "civil_year n 1 = (y, yd)" and m: "civil_month y yd months = (m, md)" and d: "d = md + 1"
    using assms by (auto simp: civil_def Let_def split: prod.splits)
  note cy = civil_year_days[OF y]
  note cm = civil_month_days[OF m]
  have "distinct months" by (simp add: months_def)
  then have c: "m \<in> set months" "yd = days_before_month y m months + md" "md < month_days y m"
    using cm cy by (simp_all add: months_year)
  then show "1 \<le> y \<and> m \<in> set months \<and> 1 \<le> d \<and> d \<le> month_days y m" using cy d by auto
  show "day_number (y, m, d) = n" using c cy d by (simp add: day_number_def days_before_year_def)
qed

lemma month_days_bound: "month_days y m \<le> 31"
  by (simp add: month_days_def)

section \<open>Clock time\<close>

text \<open>Day number, second of the day and nanosecond of the second.\<close>

definition unix_parts :: "gotime \<Rightarrow> nat \<times> nat \<times> nat" where
  "unix_parts t =
     (let ns = nat t; secs = ns div 1000000000 in (secs div 86400, secs mod 86400, ns mod 1000000000))"

definition go_Nanosecond :: "gotime \<Rightarrow> nat" where
  "go_Nanosecond t = nat t mod 1000000000"

definition go_Truncate_sec :: "gotime \<Rightarrow> gotime" where
  "go_Truncate_sec t = int (nat t div 1000000000 * 1000000000)"

section \<open>Zero-padded numbers\<close>

definition pad :: "nat \<Rightarrow> nat \<Rightarrow> string" where
  "pad w n = (let ds = nat_digits n in replicate (w - length ds) CHR ''0'' @ ds)"

lemma digits_val_replicate: "digits_val 0 (replicate k CHR ''0'' @ s) = digits_val 0 s"
  by (induction k) auto

lemma pad_val [simp]: "digits_val 0 (pad w n) = n"
  by (simp add: pad_def Let_def digits_val_replicate)

lemma pad_inj: "pad w n = pad w m \<Longrightarrow> n = m"
  by (metis pad_val)

lemma pad_digits: "list_all is_digit (pad w n)"
proof -
  have "is_digit CHR ''0''" by (simp add: is_digit_def)
  then show ?thesis using nat_digits_all[of n] by (auto simp: pad_def Let_def list_all_iff)
qed

lemma nat_digits_length: "n < 10 ^ w \<Longrightarrow> 0 < w \<Longrightarrow> length (nat_digits n) \<le> w"
proof (induction w arbitrary: n)
  case (Suc w)
  show ?case
  proof (cases "n < 10")
    case True
    then show ?thesis by (simp add: nat_digits.simps)
  next
    case False
    then have "0 < w" using Suc.prems by (cases w) auto
    moreover have "n div 10 < 10 ^ w" using Suc.prems by (simp add: less_mult_imp_div_less mult.commute)
    ultimately have "length (nat_digits (n div 10)) \<le> w" using Suc.IH by blast
    then show ?thesis using False by (subst nat_digits.simps) simp
  qed
qed simp

lemma pad_length: "n < 10 ^ w \<Longrightarrow> 0 < w \<Longrightarrow> length (pad w n) = w"
  using nat_digits_length[of n w] by (simp add: pad_def Let_def)

section \<open>Stamps\<close>

text \<open>\<open>Format\<close> with the layouts \<open>2006-01-02T15-04-05Z\<close> and \<open>2006-01-02T15:04:05Z07:00\<close> (RFC 3339) of a
  UTC time: they differ in the separator of the clock fields.\<close>

definition format_utc :: "char \<Rightarrow> gotime \<Rightarrow> string" where
  "format_utc sep t =
     (let (day, sod, ns) = unix_parts t; (y, m, d) = civil day in
      pad 4 y @ ''-'' @ pad 2 m @ ''-'' @ pad 2 d @ ''T'' @
      pad 2 (sod div 3600) @ [sep] @ pad 2 (sod div 60 mod 60) @ [sep] @ pad 2 (sod mod 60) @ ''Z'')"

definition format_stamp :: "gotime \<Rightarrow> string" where
  "format_stamp t = format_utc CHR ''-'' t"

definition format_RFC3339 :: "gotime \<Rightarrow> string" where
  "format_RFC3339 t = format_utc CHR '':'' t"

text \<open>A year that is printed with four digits.\<close>

definition year4 :: "gotime \<Rightarrow> bool" where
  "year4 t \<longleftrightarrow> 0 \<le> t \<and> fst (civil (fst (unix_parts t))) \<le> 9999"

lemma unix_parts_inj:
  assumes "0 \<le> t" "0 \<le> u" "fst (unix_parts t) = fst (unix_parts u)" "fst (snd (unix_parts t)) = fst (snd (unix_parts u))"
  shows "nat t div 1000000000 = nat u div 1000000000"
  using assms by (metis (no_types, lifting) div_mult_mod_eq fst_conv snd_conv unix_parts_def)

text \<open>Reading a stamp back by its fixed columns.\<close>

definition col :: "nat \<Rightarrow> nat \<Rightarrow> string \<Rightarrow> nat" where
  "col i w s = digits_val 0 (take w (drop i s))"

definition read_stamp :: "string \<Rightarrow> gotime" where
  "read_stamp s = int (1000000000 *
     (86400 * day_number (col 0 4 s, col 5 2 s, col 8 2 s) + 3600 * col 11 2 s + 60 * col 14 2 s + col 17 2 s))"

lemma unix_parts_bounds:
  assumes "unix_parts t = (day, sod, ns)"
  shows "sod < 86400" "nat t div 1000000000 = 86400 * day + sod" "ns < 1000000000"
  using assms by (auto simp: unix_parts_def Let_def)

lemma format_utc_fields:
  assumes "year4 t" "unix_parts t = (day, sod, ns)" "civil day = (y, m, d)"
  shows "length (pad 4 y) = 4" "length (pad 2 m) = 2" "length (pad 2 d) = 2"
    "length (pad 2 (sod div 3600)) = 2" "length (pad 2 (sod div 60 mod 60)) = 2" "length (pad 2 (sod mod 60)) = 2"
proof -
  have "y \<le> 9999" using assms by (simp add: year4_def)
  moreover have "m \<le> 12" "d \<le> 31"
    using civil_wf(1)[OF assms(3)] month_days_bound[of y m] by (auto simp: months_def)
  moreover have "sod div 3600 < 100" using unix_parts_bounds(1)[OF assms(2)] by simp
  moreover have "sod div 60 mod 60 < 100" "sod mod 60 < 100"
    using mod_less_divisor[of 60 "sod div 60"] mod_less_divisor[of 60 sod] by linarith+
  ultimately show "length (pad 4 y) = 4" "length (pad 2 m) = 2" "length (pad 2 d) = 2"
    "length (pad 2 (sod div 3600)) = 2" "length (pad 2 (sod div 60 mod 60)) = 2" "length (pad 2 (sod mod 60)) = 2"
    by (simp_all add: pad_length)
qed

lemma format_utc_length: "year4 t \<Longrightarrow> length (format_utc sep t) = 20"
proof -
  assume y: "year4 t"
  obtain day sod ns where u: "unix_parts t = (day, sod, ns)" by (cases "unix_parts t")
  obtain ye m d where c: "civil day = (ye, m, d)" by (cases "civil day")
  show ?thesis using format_utc_fields[OF y u c] by (simp add: format_utc_def u c)
qed

text \<open>The printed time determines the second.\<close>

lemma read_stamp_format: "year4 t \<Longrightarrow> read_stamp (format_utc sep t) = go_Truncate_sec t"
proof -
  assume y: "year4 t"
  obtain day sod ns where u: "unix_parts t = (day, sod, ns)" by (cases "unix_parts t")
  obtain ye m d where c: "civil day = (ye, m, d)" by (cases "civil day")
  note f = format_utc_fields[OF y u c]
  let ?s = "format_utc sep t"
  have s: "?s = pad 4 ye @ ''-'' @ pad 2 m @ ''-'' @ pad 2 d @ ''T'' @
      pad 2 (sod div 3600) @ [sep] @ pad 2 (sod div 60 mod 60) @ [sep] @ pad 2 (sod mod 60) @ ''Z''"
    by (simp add: format_utc_def u c)
  have "col 0 4 ?s = ye" "col 5 2 ?s = m" "col 8 2 ?s = d" "col 11 2 ?s = sod div 3600"
    "col 14 2 ?s = sod div 60 mod 60" "col 17 2 ?s = sod mod 60"
    unfolding s using f by (simp_all add: col_def)
  moreover have "3600 * (sod div 3600) + 60 * (sod div 60 mod 60) + sod mod 60 = sod"
  proof -
    have "sod div 3600 = sod div 60 div 60" by (simp add: div_mult2_eq[symmetric])
    moreover have "60 * (sod div 60 div 60) + sod div 60 mod 60 = sod div 60" by simp
    moreover have "60 * (sod div 60) + sod mod 60 = sod" by simp
    ultimately show ?thesis by linarith
  qed
  ultimately show ?thesis
    using civil_wf(2)[OF c] unix_parts_bounds(2)[OF u]
    by (simp add: read_stamp_def go_Truncate_sec_def algebra_simps)
qed

end
