(* ===== verification/FD_Encoding.thy ===== *)
theory FD_Encoding
  imports FD_Base
begin

text \<open>
  The encodings signatures and attestations travel in: \<open>encoding/hex\<close>, \<open>encoding/base64\<close> and the DSSE
  pre-authentication encoding. \<open>codec\<close> is the contract of an encoder and its decoder; hex and base64
  are interpreted, so both decode what they encode and neither maps two inputs to one output.
\<close>

locale codec =
  fixes enc :: "'a \<Rightarrow> 'b" and dec :: "'b \<Rightarrow> 'a option"
  assumes dec_enc: "dec (enc x) = Some x"
begin

lemma enc_inj: "enc x = enc y \<longleftrightarrow> x = y"
  by (metis dec_enc option.inject)

lemma enc_decodes: "\<exists>x. dec (enc y) = Some x \<and> enc x = enc y"
  using dec_enc by blast

end

lemma byte_less_256: "(of_char c :: nat) < 256"
proof -
  have "(of_char c :: nat) mod 256 = of_char c" by (rule of_char_mod_256)
  then show ?thesis by (metis mod_less_divisor zero_less_numeral)
qed

section \<open>Hex\<close>

definition hex_digit :: "nat \<Rightarrow> char" where
  "hex_digit n = ''0123456789abcdef'' ! n"

definition hex_val :: "char \<Rightarrow> nat option" where
  "hex_val c =
     (let b = (of_char c :: nat) in
      if 48 \<le> b \<and> b \<le> 57 then Some (b - 48)
      else if 97 \<le> b \<and> b \<le> 102 then Some (b - 87)
      else if 65 \<le> b \<and> b \<le> 70 then Some (b - 55)
      else None)"

fun hex_EncodeToString :: "string \<Rightarrow> string" where
  "hex_EncodeToString [] = []"
| "hex_EncodeToString (c # cs) =
     (let b = (of_char c :: nat) in hex_digit (b div 16) # hex_digit (b mod 16) # hex_EncodeToString cs)"

fun hex_DecodeString :: "string \<Rightarrow> string option" where
  "hex_DecodeString [] = Some []"
| "hex_DecodeString [c] = None"
| "hex_DecodeString (c # d # cs) =
     (case (hex_val c, hex_val d, hex_DecodeString cs) of
        (Some h, Some l, Some r) \<Rightarrow> Some (char_of (16 * h + l) # r)
      | _ \<Rightarrow> None)"

lemma nibble_check: "n < 16 \<Longrightarrow> list_all P [0..<16] \<Longrightarrow> P n"
  by (simp only: list_all_iff set_upt atLeastLessThan_iff) simp

lemma hex_val_digit [simp]: "n < 16 \<Longrightarrow> hex_val (hex_digit n) = Some n"
  by (erule nibble_check) code_simp

lemma hex_roundtrip: "hex_DecodeString (hex_EncodeToString s) = Some s"
proof (induction s)
  case (Cons c cs)
  have "(of_char c :: nat) div 16 < 16" using byte_less_256[of c] by (simp add: less_mult_imp_div_less)
  then show ?case using Cons by (simp add: Let_def)
qed simp

interpretation hex: codec hex_EncodeToString hex_DecodeString
  by unfold_locales (rule hex_roundtrip)

lemma hex_length: "length (hex_EncodeToString s) = 2 * length s"
  by (induction s) (auto simp: Let_def)

text \<open>Case-folded comparison, as \<open>strings.EqualFold\<close> does it on ASCII strings (a hex digest is one).\<close>

definition ascii_lower :: "char \<Rightarrow> char" where
  "ascii_lower c = (if 65 \<le> (of_char c :: nat) \<and> (of_char c :: nat) \<le> 90 then char_of ((of_char c :: nat) + 32) else c)"

definition equalFold :: "string \<Rightarrow> string \<Rightarrow> bool" where
  "equalFold a b \<longleftrightarrow> map ascii_lower a = map ascii_lower b"

lemma hex_digit_lower [simp]: "n < 16 \<Longrightarrow> ascii_lower (hex_digit n) = hex_digit n"
  by (erule nibble_check) code_simp

lemma hex_lower [simp]: "map ascii_lower (hex_EncodeToString s) = hex_EncodeToString s"
proof (induction s)
  case (Cons c cs)
  have "(of_char c :: nat) div 16 < 16" using byte_less_256[of c] by (simp add: less_mult_imp_div_less)
  then show ?case using Cons by (simp add: Let_def)
qed simp

section \<open>Base64\<close>

definition b64_digit :: "nat \<Rightarrow> char" where
  "b64_digit n =
     (if n < 26 then char_of (65 + n) else if n < 52 then char_of (71 + n)
      else if n < 62 then char_of (n - 4) else if n = 62 then CHR ''+'' else CHR ''/'')"

definition b64_val :: "char \<Rightarrow> nat option" where
  "b64_val c =
     (let b = (of_char c :: nat) in
      if 65 \<le> b \<and> b \<le> 90 then Some (b - 65)
      else if 97 \<le> b \<and> b \<le> 122 then Some (b - 71)
      else if 48 \<le> b \<and> b \<le> 57 then Some (b + 4)
      else if b = 43 then Some 62 else if b = 47 then Some 63 else None)"

fun base64_EncodeToString :: "string \<Rightarrow> string" where
  "base64_EncodeToString [] = []"
| "base64_EncodeToString [a] =
     (let x = (of_char a :: nat) in [b64_digit (x div 4), b64_digit (x mod 4 * 16)] @ ''=='')"
| "base64_EncodeToString [a, b] =
     (let x = (of_char a :: nat); y = (of_char b :: nat) in
      [b64_digit (x div 4), b64_digit (x mod 4 * 16 + y div 16), b64_digit (y mod 16 * 4)] @ ''='')"
| "base64_EncodeToString (a # b # c # cs) =
     (let x = (of_char a :: nat); y = (of_char b :: nat); z = (of_char c :: nat) in
      [b64_digit (x div 4), b64_digit (x mod 4 * 16 + y div 16), b64_digit (y mod 16 * 4 + z div 64),
       b64_digit (z mod 64)] @ base64_EncodeToString cs)"

text \<open>\<open>DecodeString\<close> skips carriage returns and newlines, then reads groups of four; padding ends the
  input. Trailing bits of a padded group are not checked, as in Go's non-strict decoder.\<close>

definition opt4 :: "nat option \<Rightarrow> nat option \<Rightarrow> nat option \<Rightarrow> nat option \<Rightarrow> (nat \<Rightarrow> nat \<Rightarrow> nat \<Rightarrow> nat \<Rightarrow> 'a) \<Rightarrow> 'a option" where
  "opt4 a b c d f = (case (a, b, c, d) of (Some p, Some q, Some r, Some s) \<Rightarrow> Some (f p q r s) | _ \<Rightarrow> None)"

lemma opt4_Some [simp]: "opt4 (Some p) (Some q) (Some r) (Some s) f = Some (f p q r s)"
  by (simp add: opt4_def)

fun b64_groups :: "string \<Rightarrow> string option" where
  "b64_groups [] = Some []"
| "b64_groups (a # b # c # d # rest) =
     (if rest = [] \<and> d = CHR ''='' \<and> c = CHR ''='' then
        opt4 (b64_val a) (b64_val b) (Some 0) (Some 0) (\<lambda>p q _ _. [char_of (p * 4 + q div 16)])
      else if rest = [] \<and> d = CHR ''='' then
        opt4 (b64_val a) (b64_val b) (b64_val c) (Some 0)
          (\<lambda>p q r _. [char_of (p * 4 + q div 16), char_of (q mod 16 * 16 + r div 4)])
      else (case (opt4 (b64_val a) (b64_val b) (b64_val c) (b64_val d)
              (\<lambda>p q r s. [char_of (p * 4 + q div 16), char_of (q mod 16 * 16 + r div 4),
                          char_of (r mod 4 * 64 + s)]), b64_groups rest) of
           (Some xs, Some ys) \<Rightarrow> Some (xs @ ys)
         | _ \<Rightarrow> None))"
| "b64_groups _ = None"

definition base64_DecodeString :: "string \<Rightarrow> string option" where
  "base64_DecodeString s = b64_groups (filter (\<lambda>c. c \<noteq> CHR 0x0A \<and> c \<noteq> CHR 0x0D) s)"

lemma b64_val_digit [simp]: "n < 64 \<Longrightarrow> b64_val (b64_digit n) = Some n"
  by (auto simp: b64_val_def b64_digit_def Let_def)

lemma b64_digit_plain [simp]:
  assumes "n < 64"
  shows "b64_digit n \<noteq> CHR ''=''" "b64_digit n \<noteq> CHR 0x0A" "b64_digit n \<noteq> CHR 0x0D"
proof -
  have "b64_val CHR ''='' = None" "b64_val CHR 0x0A = None" "b64_val CHR 0x0D = None"
    by (simp_all add: b64_val_def)
  then show "b64_digit n \<noteq> CHR ''=''" "b64_digit n \<noteq> CHR 0x0A" "b64_digit n \<noteq> CHR 0x0D"
    using b64_val_digit[OF assms] by auto
qed

lemma b64_bounds [simp]:
  fixes a b c :: char
  defines "x \<equiv> of_char a :: nat" and "y \<equiv> of_char b :: nat" and "z \<equiv> of_char c :: nat"
  shows "x div 4 < 64" "x mod 4 * 16 < 64" "x mod 4 * 16 + y div 16 < 64" "y mod 16 * 4 < 64"
    "y mod 16 * 4 + z div 64 < 64" "z mod 64 < 64"
proof -
  have "x < 256" "y < 256" "z < 256" using byte_less_256 by (simp_all add: x_def y_def z_def)
  then have "x mod 4 < 4" "y mod 16 < 16" "x div 4 < 64" "y div 16 < 16" "z div 64 < 4"
    by (simp_all add: less_mult_imp_div_less)
  then show "x div 4 < 64" "x mod 4 * 16 < 64" "x mod 4 * 16 + y div 16 < 64" "y mod 16 * 4 < 64"
    "y mod 16 * 4 + z div 64 < 64" "z mod 64 < 64"
    by simp_all
qed

lemma b64_bytes [simp]:
  "(of_char b :: nat) div 16 div 16 = 0" "(of_char b :: nat) div 16 mod 16 = of_char b div 16"
  "(of_char b :: nat) div 64 div 4 = 0" "(of_char b :: nat) div 64 mod 4 = of_char b div 64"
proof -
  have "(of_char b :: nat) div 16 < 16" "(of_char b :: nat) div 64 < 4"
    using byte_less_256[of b] by (simp_all add: less_mult_imp_div_less)
  then show "(of_char b :: nat) div 16 div 16 = 0" "(of_char b :: nat) div 16 mod 16 = of_char b div 16"
    "(of_char b :: nat) div 64 div 4 = 0" "(of_char b :: nat) div 64 mod 4 = of_char b div 64"
    by simp_all
qed

lemma base64_no_newline: "filter (\<lambda>c. c \<noteq> CHR 0x0A \<and> c \<noteq> CHR 0x0D) (base64_EncodeToString s) = base64_EncodeToString s"
  by (induction s rule: base64_EncodeToString.induct) (simp_all add: Let_def)

lemma b64_groups_encode: "b64_groups (base64_EncodeToString s) = Some s"
  by (induction s rule: base64_EncodeToString.induct) (simp_all add: Let_def)

interpretation base64: codec base64_EncodeToString base64_DecodeString
  by unfold_locales (simp add: base64_DecodeString_def base64_no_newline b64_groups_encode)

section \<open>Pre-authentication encoding\<close>

text \<open>\<open>fmt.Sprintf("DSSEv1 %d %s %d %s", ...)\<close> of \<open>attest.go\<close>: the lengths make it unambiguous.\<close>

definition pae :: "string \<Rightarrow> string \<Rightarrow> string" where
  "pae payloadType payload =
     ''DSSEv1 '' @ nat_digits (length payloadType) @ '' '' @ payloadType @ '' '' @
     nat_digits (length payload) @ '' '' @ payload"

text \<open>A number followed by a space, then as many characters: the split is determined.\<close>

lemma digits_no_space: "CHR '' '' \<notin> set (nat_digits n)"
proof
  assume "CHR '' '' \<in> set (nat_digits n)"
  then have "is_digit CHR '' ''" using nat_digits_all[of n] by (simp add: list_all_iff)
  then show False by (simp add: is_digit_def)
qed

lemma sized_inj:
  assumes "nat_digits (length p) @ CHR '' '' # p @ r = nat_digits (length q) @ CHR '' '' # q @ r'"
  shows "p = q \<and> r = r'"
proof -
  have "cut1 CHR '' '' (nat_digits (length p) @ CHR '' '' # p @ r) = (nat_digits (length p), p @ r, True)"
    "cut1 CHR '' '' (nat_digits (length q) @ CHR '' '' # q @ r') = (nat_digits (length q), q @ r', True)"
    by (rule cut1_found, rule digits_no_space)+
  then have "nat_digits (length p) = nat_digits (length q)" "p @ r = q @ r'" using assms by (metis prod.inject)+
  then show ?thesis using nat_digits_inj by (simp add: append_eq_append_conv)
qed

lemma pae_eq_iff: "pae t p = pae t' p' \<longleftrightarrow> t = t' \<and> p = p'"
proof
  assume "pae t p = pae t' p'"
  then have "nat_digits (length t) @ CHR '' '' # t @ (CHR '' '' # nat_digits (length p) @ CHR '' '' # p @ []) =
    nat_digits (length t') @ CHR '' '' # t' @ (CHR '' '' # nat_digits (length p') @ CHR '' '' # p' @ [])"
    by (simp add: pae_def)
  from sized_inj[OF this] show "t = t' \<and> p = p'" using sized_inj[of p "[]" p' "[]"] by auto
qed simp

text \<open>
  C24: the DSSE pre-authentication encoding is injective: two different pairs of payload type and
  payload are never signed as the same bytes, so a signature cannot be moved from one to the other.
\<close>

theorem pae_injective: "pae t p = pae t' p' \<longleftrightarrow> (t, p) = (t', p')"
  by (simp add: pae_eq_iff)

end
