(* ===== verification/FD_Evidence.thy ===== *)
theory FD_Evidence
  imports FD_Verify FD_OS FD_Time FD_Encoding
begin

text \<open>
  \<open>pkg/report\<close>, the audit record: writing evidence (\<open>evidence.go\<close>), signing and verifying it
  (\<open>sign.go\<close>), in-toto attestations (\<open>attest.go\<close>) and the verification of a bundle (\<open>bundle.go\<close>).

  \<open>Json\<close> and \<open>Crypto\<close> are what the code uses of \<open>encoding/json\<close>, \<open>crypto/ed25519\<close>, \<open>crypto/sha256\<close>,
  \<open>encoding/pem\<close> and \<open>crypto/x509\<close>. What the theorems rely on is stated as \<open>json_roundtrip\<close> (what was
  marshalled unmarshals to the same value), \<open>ed25519_correct\<close> (an honest signature verifies and a
  public key has 32 bytes) and \<open>pem_roundtrip\<close>. Seconds that the evidence keeps as floating point
  numbers are kept as durations. File modes are not modelled.

  The theorems: writing is atomic and two runs never share a file name; what was signed or attested
  verifies; what verifies was signed, under the pinned key if there is one, and has the attested
  digest; keys are not overwritten; and what a verified bundle proves.
\<close>

section \<open>Evidence\<close>

record EvidenceBackup =
  eb_URI :: string
  eb_ModTime :: gotime
  eb_Age :: duration
  eb_Bytes :: int
  eb_ResolvedURI :: string
  eb_Encryption :: string
  eb_Compression :: string
  eb_UncompressedBytes :: int

record EvidenceMeasured =
  em_Restore :: duration
  em_RTOMet :: bool
  em_RPOMet :: bool

record EvidenceSandbox =
  es_Provider :: string
  es_Image :: string
  es_Destroyed :: bool

record Evidence =
  ev_Drill :: string
  ev_Tool :: string
  ev_StartedAt :: gotime
  ev_FinishedAt :: gotime
  ev_Backup :: EvidenceBackup
  ev_ObjectiveRTO :: duration
  ev_ObjectiveRPO :: duration
  ev_Measured :: EvidenceMeasured
  ev_Sandbox :: EvidenceSandbox
  ev_Checks :: "Result list"
  ev_Controls :: "string list"
  ev_Verified :: bool
  ev_Error :: "msg option"

record Signature =
  sg_Algorithm :: string
  sg_PublicKey :: string
  sg_KeyFingerprint :: string
  sg_Signature :: string

record Subject =
  sj_Name :: string
  sj_Digest :: "(string \<times> string) list"

record Statement =
  st_Type :: string
  st_Subject :: "Subject list"
  st_PredicateType :: string
  st_Predicate :: string

record DSSESig =
  ds_KeyID :: string
  ds_Sig :: string

record Envelope =
  en_PayloadType :: string
  en_Payload :: string
  en_Signatures :: "DSSESig list"

record Json =
  js_Evidence :: "Evidence \<Rightarrow> string res"
  js_Signature :: "Signature \<Rightarrow> string res"
  js_unSignature :: "string \<Rightarrow> Signature res"
  js_Statement :: "Statement \<Rightarrow> string res"
  js_unStatement :: "string \<Rightarrow> Statement res"
  js_Envelope :: "Envelope \<Rightarrow> string res"
  js_unEnvelope :: "string \<Rightarrow> Envelope res"

record Crypto =
  cr_Public :: "string \<Rightarrow> string"
  cr_Sign :: "string \<Rightarrow> string \<Rightarrow> string"
  cr_Verify :: "string \<Rightarrow> string \<Rightarrow> string \<Rightarrow> bool"
  cr_GenerateKey :: "nat \<Rightarrow> (string \<times> string) res"
  cr_sha256 :: "string \<Rightarrow> string"
  cr_PKIX :: "string \<Rightarrow> string res"
  cr_pemEncode :: "string \<Rightarrow> string \<Rightarrow> string"
  cr_pemDecode :: "string \<Rightarrow> (string \<times> string) option"

definition Canonical :: "Json \<Rightarrow> Evidence \<Rightarrow> string res" where
  "Canonical js e = js_Evidence js e"

definition evidence_name :: "Evidence \<Rightarrow> string" where
  "evidence_name e =
     ev_Drill e @ ''-'' @ format_stamp (ev_FinishedAt e) @ ''-'' @ pad 9 (go_Nanosecond (ev_FinishedAt e)) @ ''.json''"

text \<open>\<open>(e *Evidence) Write\<close>: the bytes go to \<open>path.tmp\<close>, then one rename.\<close>

definition evidence_Write :: "Json \<Rightarrow> Evidence \<Rightarrow> string \<Rightarrow> OS \<Rightarrow> string res \<times> OS" where
  "evidence_Write js e dir0 s =
     (let dir = (if dir0 = [] then ''evidence'' else dir0) in
      case os_MkdirAll dir s of (Some err, s1) \<Rightarrow> (Inl err, s1) | (None, s1) \<Rightarrow>
     (let path = path_Join [dir, evidence_name e] in
      case Canonical js e of Inl err \<Rightarrow> (Inl err, s1) | Inr data \<Rightarrow>
     (let tmp = path @ ''.tmp'' in
      case os_WriteFile tmp data s1 of (Some err, s2) \<Rightarrow> (Inl err, s2) | (None, s2) \<Rightarrow>
     (case os_Rename tmp path s2 of (Some err, s3) \<Rightarrow> (Inl err, s3) | (None, s3) \<Rightarrow> (Inr path, s3)))))"

section \<open>Keys and signatures\<close>

definition privPEMType :: string where "privPEMType = ''FIREDRILL ED25519 PRIVATE KEY''"
definition pubPEMType :: string where "pubPEMType = ''FIREDRILL ED25519 PUBLIC KEY''"

definition DefaultKeyDir :: "string res \<Rightarrow> string res" where
  "DefaultKeyDir home = (case home of Inl e \<Rightarrow> Inl e | Inr h \<Rightarrow> Inr (path_Join [h, ''.config'', ''firedrill'']))"

definition Fingerprint :: "Crypto \<Rightarrow> string \<Rightarrow> string" where
  "Fingerprint cr pub = hex_EncodeToString (take 8 (cr_sha256 cr pub))"

definition GenerateKeypair :: "Crypto \<Rightarrow> string \<Rightarrow> OS \<Rightarrow> (string \<times> string) res \<times> OS" where
  "GenerateKeypair cr dir s =
     (case os_MkdirAll dir s of (Some e, s1) \<Rightarrow> (Inl e, s1) | (None, s1) \<Rightarrow>
     (let privPath = path_Join [dir, ''firedrill.key'']; pubPath = path_Join [dir, ''firedrill.pub''] in
      case os_Stat privPath s1 of
        (Inr _, s2) \<Rightarrow> (Inl (Msg ''key already exists at %s (remove it first to rotate)'' [AStr privPath]), s2)
      | (Inl _, s2) \<Rightarrow>
     (case cr_GenerateKey cr (os_tick s2) of Inl e \<Rightarrow> (Inl e, s2) | Inr (pub, priv) \<Rightarrow>
     (case os_WriteFile privPath (cr_pemEncode cr privPEMType priv) s2 of (Some e, s3) \<Rightarrow> (Inl e, s3) | (None, s3) \<Rightarrow>
     (case os_WriteFile pubPath (cr_pemEncode cr pubPEMType pub) s3 of (Some e, s4) \<Rightarrow> (Inl e, s4) | (None, s4) \<Rightarrow>
     (case cr_PKIX cr pub of Inl e \<Rightarrow> (Inl e, s4) | Inr spki \<Rightarrow>
     (case os_WriteFile (path_Join [dir, ''firedrill.cosign.pub'']) (cr_pemEncode cr ''PUBLIC KEY'' spki) s4 of
        (Some e, s5) \<Rightarrow> (Inl e, s5)
      | (None, s5) \<Rightarrow> (Inr (privPath, pubPath), s5))))))))"

definition LoadPrivateKey :: "Crypto \<Rightarrow> string \<Rightarrow> OS \<Rightarrow> string res \<times> OS" where
  "LoadPrivateKey cr dir s =
     (case os_ReadFile (path_Join [dir, ''firedrill.key'']) s of
        (Inl e, s1) \<Rightarrow> (Inl (Msg ''loading signing key (run firedrill keygen?): %w'' [AErr e]), s1)
      | (Inr data, s1) \<Rightarrow>
          ((case cr_pemDecode cr data of
              None \<Rightarrow> Inl (Msg ''malformed signing key'' [])
            | Some (ty, bytes) \<Rightarrow>
                if ty \<noteq> privPEMType \<or> length bytes \<noteq> 64 then Inl (Msg ''malformed signing key'' [])
                else Inr bytes), s1))"

definition ParsePublicKeyPEM :: "Crypto \<Rightarrow> string \<Rightarrow> string res" where
  "ParsePublicKeyPEM cr data =
     (case cr_pemDecode cr data of
        None \<Rightarrow> Inl (Msg ''malformed public key PEM'' [])
      | Some (ty, bytes) \<Rightarrow>
          if length bytes \<noteq> 32 then Inl (Msg ''malformed public key PEM'' []) else Inr bytes)"

definition LoadPublicKey :: "Crypto \<Rightarrow> string \<Rightarrow> OS \<Rightarrow> string res \<times> OS" where
  "LoadPublicKey cr dir s =
     (case os_ReadFile (path_Join [dir, ''firedrill.pub'']) s of
        (Inl e, s1) \<Rightarrow> (Inl (Msg ''loading public key: %w'' [AErr e]), s1)
      | (Inr data, s1) \<Rightarrow> (ParsePublicKeyPEM cr data, s1))"

definition Sign :: "Json \<Rightarrow> Crypto \<Rightarrow> string \<Rightarrow> string \<Rightarrow> OS \<Rightarrow> string res \<times> OS" where
  "Sign js cr path priv s =
     (case os_ReadFile path s of (Inl e, s1) \<Rightarrow> (Inl e, s1) | (Inr data, s1) \<Rightarrow>
     (let pub = cr_Public cr priv;
          sig = \<lparr>sg_Algorithm = ''ed25519'', sg_PublicKey = hex_EncodeToString pub,
                 sg_KeyFingerprint = Fingerprint cr pub,
                 sg_Signature = hex_EncodeToString (cr_Sign cr priv data)\<rparr> in
      case js_Signature js sig of Inl e \<Rightarrow> (Inl e, s1) | Inr out \<Rightarrow>
     (case os_WriteFile (path @ ''.sig'') out s1 of
        (Some e, s2) \<Rightarrow> (Inl e, s2)
      | (None, s2) \<Rightarrow> (Inr (path @ ''.sig''), s2))))"

text \<open>\<open>check_signature\<close> is the part of \<open>Verify\<close> after both files were read.\<close>

definition check_signature :: "Json \<Rightarrow> Crypto \<Rightarrow> string option \<Rightarrow> string \<Rightarrow> string \<Rightarrow> msg option" where
  "check_signature js cr trustedPub data sigData =
     (case js_unSignature js sigData of
        Inl e \<Rightarrow> Some (Msg ''malformed signature envelope: %w'' [AErr e])
      | Inr sig \<Rightarrow>
          if sg_Algorithm sig \<noteq> ''ed25519'' then Some (Msg ''unsupported algorithm %q'' [AQuo (sg_Algorithm sig)])
          else (case hex_DecodeString (sg_PublicKey sig) of
            None \<Rightarrow> Some (Msg ''malformed public key in signature'' [])
          | Some pub \<Rightarrow>
              if length pub \<noteq> 32 then Some (Msg ''malformed public key in signature'' [])
              else if trustedPub \<noteq> None \<and> trustedPub \<noteq> Some pub
              then Some (Msg ''signature key does not match trusted public key'' [])
              else (case hex_DecodeString (sg_Signature sig) of
                None \<Rightarrow> Some (Msg ''malformed signature'' [])
              | Some raw \<Rightarrow>
                  if \<not> cr_Verify cr pub data raw
                  then Some (Msg ''SIGNATURE INVALID - evidence has been modified'' [])
                  else None)))"

definition Verify :: "Json \<Rightarrow> Crypto \<Rightarrow> string \<Rightarrow> string option \<Rightarrow> OS \<Rightarrow> msg option \<times> OS" where
  "Verify js cr path trustedPub s =
     (case os_ReadFile path s of (Inl e, s1) \<Rightarrow> (Some e, s1) | (Inr data, s1) \<Rightarrow>
     (case os_ReadFile (path @ ''.sig'') s1 of
        (Inl e, s2) \<Rightarrow> (Some (Msg ''missing signature file: %w'' [AErr e]), s2)
      | (Inr sigData, s2) \<Rightarrow> (check_signature js cr trustedPub data sigData, s2)))"

section \<open>Attestations\<close>

definition PredicateType :: string where "PredicateType = ''https://firedrill.dev/drill-evidence/v1''"
definition payloadType :: string where "payloadType = ''application/vnd.in-toto+json''"

definition attest_statement :: "Crypto \<Rightarrow> string \<Rightarrow> string \<Rightarrow> Statement" where
  "attest_statement cr path data =
     \<lparr>st_Type = ''https://in-toto.io/Statement/v1'',
      st_Subject = [\<lparr>sj_Name = path_Base path, sj_Digest = [(''sha256'', hex_EncodeToString (cr_sha256 cr data))]\<rparr>],
      st_PredicateType = PredicateType, st_Predicate = data\<rparr>"

definition attest_envelope :: "Crypto \<Rightarrow> string \<Rightarrow> string \<Rightarrow> Envelope" where
  "attest_envelope cr priv payload =
     \<lparr>en_PayloadType = payloadType, en_Payload = base64_EncodeToString payload,
      en_Signatures = [\<lparr>ds_KeyID = Fingerprint cr (cr_Public cr priv),
        ds_Sig = base64_EncodeToString (cr_Sign cr priv (pae payloadType payload))\<rparr>]\<rparr>"

definition Attest :: "Json \<Rightarrow> Crypto \<Rightarrow> string \<Rightarrow> string \<Rightarrow> OS \<Rightarrow> string res \<times> OS" where
  "Attest js cr path priv s =
     (case os_ReadFile path s of (Inl e, s1) \<Rightarrow> (Inl e, s1) | (Inr data, s1) \<Rightarrow>
     (case js_Statement js (attest_statement cr path data) of Inl e \<Rightarrow> (Inl e, s1) | Inr payload \<Rightarrow>
     (case js_Envelope js (attest_envelope cr priv payload) of Inl e \<Rightarrow> (Inl e, s1) | Inr out \<Rightarrow>
     (case os_WriteFile (path @ ''.intoto.jsonl'') (out @ [CHR 0x0A]) s1 of
        (Some e, s2) \<Rightarrow> (Inl e, s2)
      | (None, s2) \<Rightarrow> (Inr (path @ ''.intoto.jsonl''), s2)))))"

text \<open>The loop over the signatures of an envelope, and the loop over the subjects.\<close>

fun any_signature :: "Crypto \<Rightarrow> string \<Rightarrow> string \<Rightarrow> DSSESig list \<Rightarrow> bool" where
  "any_signature cr pub m [] = False"
| "any_signature cr pub m (s # ss) =
     (case base64_DecodeString (ds_Sig s) of
        None \<Rightarrow> any_signature cr pub m ss
      | Some raw \<Rightarrow> if cr_Verify cr pub m raw then True else any_signature cr pub m ss)"

definition subject_digest :: "Subject \<Rightarrow> string" where
  "subject_digest sub = (case map_of (sj_Digest sub) ''sha256'' of Some d \<Rightarrow> d | None \<Rightarrow> [])"

fun any_subject :: "string \<Rightarrow> Subject list \<Rightarrow> bool" where
  "any_subject want [] = False"
| "any_subject want (sub # subs) = (if equalFold (subject_digest sub) want then True else any_subject want subs)"

definition VerifyAttestation :: "Json \<Rightarrow> Crypto \<Rightarrow> string \<Rightarrow> string \<Rightarrow> OS \<Rightarrow> msg option \<times> OS" where
  "VerifyAttestation js cr path pub s =
     (case os_ReadFile (path @ ''.intoto.jsonl'') s of
        (Inl e, s1) \<Rightarrow> (Some (Msg ''missing attestation: %w'' [AErr e]), s1)
      | (Inr envData, s1) \<Rightarrow>
     (case js_unEnvelope js envData of
        Inl e \<Rightarrow> (Some (Msg ''malformed attestation envelope: %w'' [AErr e]), s1)
      | Inr env \<Rightarrow>
      if en_PayloadType env \<noteq> payloadType
      then (Some (Msg ''unexpected payloadType %q'' [AQuo (en_PayloadType env)]), s1)
      else (case base64_DecodeString (en_Payload env) of
        None \<Rightarrow> (Some (Msg ''malformed attestation payload'' []), s1)
      | Some payload \<Rightarrow>
      if en_Signatures env = [] then (Some (Msg ''attestation has no signatures'' []), s1)
      else if \<not> any_signature cr pub (pae (en_PayloadType env) payload) (en_Signatures env)
      then (Some (Msg ''ATTESTATION INVALID - signature does not verify'' []), s1)
      else (case js_unStatement js payload of
        Inl e \<Rightarrow> (Some (Msg ''malformed statement: %w'' [AErr e]), s1)
      | Inr st \<Rightarrow>
      if st_PredicateType st \<noteq> PredicateType
      then (Some (Msg ''unexpected predicateType %q'' [AQuo (st_PredicateType st)]), s1)
      else (case os_ReadFile path s1 of (Inl e, s2) \<Rightarrow> (Some e, s2)
      | (Inr data, s2) \<Rightarrow>
          (if any_subject (hex_EncodeToString (cr_sha256 cr data)) (st_Subject st) then None
           else Some (Msg ''ATTESTATION INVALID - evidence digest does not match subject'' []), s2))))))"

section \<open>Bundles\<close>

record BundleResult =
  br_SignerFingerprint :: string
  br_AttestationChecked :: bool
  br_KeySource :: string
  br_Notes :: "string list"

definition signer_key :: "Json \<Rightarrow> string \<Rightarrow> string res" where
  "signer_key js sigData =
     (case js_unSignature js sigData of
        Inl e \<Rightarrow> Inl (Msg ''malformed signature envelope: %w'' [AErr e])
      | Inr sig \<Rightarrow> (case hex_DecodeString (sg_PublicKey sig) of
          None \<Rightarrow> Inl (Msg ''malformed public key in signature'' [])
        | Some pub \<Rightarrow>
            if length pub \<noteq> 32 then Inl (Msg ''malformed public key in signature'' []) else Inr pub))"

definition SignerKey :: "Json \<Rightarrow> string \<Rightarrow> OS \<Rightarrow> string res \<times> OS" where
  "SignerKey js path s =
     (case os_ReadFile (path @ ''.sig'') s of
        (Inl e, s1) \<Rightarrow> (Inl (Msg ''missing signature file: %w'' [AErr e]), s1)
      | (Inr sigData, s1) \<Rightarrow> (signer_key js sigData, s1))"

definition noKeyNote :: string where
  "noKeyNote = ''attestation not checked (no public key available)''"

text \<open>The key the attestation is checked with, and where it came from; \<open>None\<close> when there is none.\<close>

definition attestation_key ::
  "Json \<Rightarrow> Crypto \<Rightarrow> string \<Rightarrow> string option \<Rightarrow> string \<Rightarrow> OS \<Rightarrow> (string \<times> string) option \<times> OS" where
  "attestation_key js cr path trusted keyDir s =
     (case trusted of
        Some k \<Rightarrow> (Some (k, ''pinned key''), s)
      | None \<Rightarrow>
          (case SignerKey js path s of
             (Inr k, s1) \<Rightarrow> (Some (k, ''signature envelope''), s1)
           | (Inl e, s1) \<Rightarrow>
               if keyDir \<noteq> [] then
                 (case LoadPublicKey cr keyDir s1 of
                    (Inl e2, s2) \<Rightarrow> (None, s2)
                  | (Inr k, s2) \<Rightarrow> (Some (k, ''key directory''), s2))
               else (None, s1)))"

definition VerifyBundle ::
  "Json \<Rightarrow> Crypto \<Rightarrow> string \<Rightarrow> string option \<Rightarrow> string \<Rightarrow> OS \<Rightarrow> BundleResult res \<times> OS" where
  "VerifyBundle js cr path trusted keyDir s =
     (case Verify js cr path trusted s of (Some e, s1) \<Rightarrow> (Inl e, s1) | (None, s1) \<Rightarrow>
     (let (sk, s2) = SignerKey js path s1;
          fp = (case sk of Inl e \<Rightarrow> [] | Inr k \<Rightarrow> Fingerprint cr k);
          res = \<lparr>br_SignerFingerprint = fp, br_AttestationChecked = False, br_KeySource = [], br_Notes = []\<rparr>
      in case os_Stat (path @ ''.intoto.jsonl'') s2 of
        (Inl e, s3) \<Rightarrow> (Inr (res\<lparr>br_Notes := [''no attestation present (pre-v0.6 evidence)'']\<rparr>), s3)
      | (Inr fi, s3) \<Rightarrow>
     (case attestation_key js cr path trusted keyDir s3 of
        (None, s4) \<Rightarrow> (Inr (res\<lparr>br_Notes := [noKeyNote]\<rparr>), s4)
      | (Some (k, src), s4) \<Rightarrow>
     (case VerifyAttestation js cr path k s4 of
        (Some e, s5) \<Rightarrow> (Inl e, s5)
      | (None, s5) \<Rightarrow> (Inr (res\<lparr>br_AttestationChecked := True, br_KeySource := src\<rparr>), s5)))))"

section \<open>File names\<close>

text \<open>Joining a directory with a plain name appends the name to a prefix that depends on the
  directory only.\<close>

definition plain_name :: "string \<Rightarrow> bool" where
  "plain_name n \<longleftrightarrow> n \<noteq> [] \<and> n \<noteq> ''.'' \<and> n \<noteq> ''..'' \<and> CHR ''/'' \<notin> set n"

lemma clean_elems_snoc:
  "plain_name n \<Longrightarrow> clean_elems rooted out (es @ [n]) = clean_elems rooted out es @ [n]"
  by (induction rooted out es rule: clean_elems.induct) (auto simp: plain_name_def split: list.splits)

lemma split1_none: "c \<notin> set n \<Longrightarrow> split1 c n = [n]"
  by (induction n) auto

lemma split1_append: "CHR ''/'' \<notin> set n \<Longrightarrow> split1 CHR ''/'' (d @ CHR ''/'' # n) = split1 CHR ''/'' d @ [n]"
proof -
  assume n: "CHR ''/'' \<notin> set n"
  have "split1 CHR ''/'' n = [n]" using n by (rule split1_none)
  then show ?thesis by (induction d) (auto split: list.splits)
qed

lemma join_with_snoc: "join_with sep (xs @ [n]) = (if xs = [] then n else join_with sep xs @ sep @ n)"
  by (induction xs rule: induct_list012) auto

definition dir_prefix :: "string \<Rightarrow> string" where
  "dir_prefix d =
     (if d = [] then []
      else let rooted = (hd d = CHR ''/''); es = clean_elems rooted [] (split1 CHR ''/'' d) in
        (if rooted then ''/'' else []) @ (if es = [] then [] else join_with ''/'' es @ ''/''))"

lemma path_Join_plain:
  assumes "plain_name n"
  shows "path_Join [d, n] = dir_prefix d @ n"
proof (cases "d = []")
  case True
  have "split1 CHR ''/'' n = [n]" using assms by (simp add: plain_name_def split1_none)
  moreover have "hd n \<noteq> CHR ''/''" using assms by (cases n) (auto simp: plain_name_def)
  ultimately show ?thesis
    using True assms by (auto simp: path_Join_def path_Clean_def Let_def dir_prefix_def plain_name_def)
next
  case False
  have n: "n \<noteq> []" "CHR ''/'' \<notin> set n" using assms by (auto simp: plain_name_def)
  have "path_Join [d, n] = path_Clean (d @ CHR ''/'' # n)" using False by (simp add: path_Join_def)
  also have "\<dots> = dir_prefix d @ n"
    using False n clean_elems_snoc[OF assms] split1_append[OF n(2)]
    by (auto simp: path_Clean_def dir_prefix_def Let_def join_with_snoc)
  finally show ?thesis .
qed

lemma path_Join_inj: "plain_name a \<Longrightarrow> plain_name b \<Longrightarrow> path_Join [d, a] = path_Join [d, b] \<longleftrightarrow> a = b"
  by (simp add: path_Join_plain)

lemma plain_name_suffix: "suffix ''.json'' n \<Longrightarrow> CHR ''/'' \<notin> set n \<Longrightarrow> plain_name n"
  by (auto simp: plain_name_def suffix_def)

text \<open>The name of an evidence file determines the drill and the instant it finished.\<close>

lemma evidence_name_inj:
  assumes "year4 (ev_FinishedAt a)" and "year4 (ev_FinishedAt b)" and "evidence_name a = evidence_name b"
  shows "ev_Drill a = ev_Drill b \<and> ev_FinishedAt a = ev_FinishedAt b"
proof -
  let ?f = "\<lambda>e. format_stamp (ev_FinishedAt e)" and ?n = "\<lambda>e. pad 9 (go_Nanosecond (ev_FinishedAt e))"
  have l: "length (?f a) = 20" "length (?f b) = 20" "length (?n a) = 9" "length (?n b) = 9"
    using assms by (simp_all add: format_stamp_def format_utc_length pad_length go_Nanosecond_def)
  have "ev_Drill a @ (''-'' @ ?f a @ ''-'' @ ?n a) = ev_Drill b @ (''-'' @ ?f b @ ''-'' @ ?n b)"
    using assms(3) by (simp add: evidence_name_def)
  then have d: "ev_Drill a = ev_Drill b" and r: "?f a @ ''-'' @ ?n a = ?f b @ ''-'' @ ?n b"
    using l append_eq_append_conv[of "ev_Drill a" "ev_Drill b" "''-'' @ ?f a @ ''-'' @ ?n a" "''-'' @ ?f b @ ''-'' @ ?n b"]
    by auto
  then have "?f a = ?f b" "?n a = ?n b" using l append_eq_append_conv[of "?f a" "?f b"] by auto
  then have "go_Truncate_sec (ev_FinishedAt a) = go_Truncate_sec (ev_FinishedAt b)"
    "go_Nanosecond (ev_FinishedAt a) = go_Nanosecond (ev_FinishedAt b)"
    using assms(1,2) read_stamp_format pad_inj unfolding format_stamp_def by metis+
  moreover have "t = go_Truncate_sec t + int (go_Nanosecond t)" if "0 \<le> t" for t
    using that div_mult_mod_eq[of "nat t" 1000000000] unfolding go_Truncate_sec_def go_Nanosecond_def
    by (metis of_nat_add int_nat_eq)
  ultimately show ?thesis using d assms(1,2) by (metis year4_def)
qed

text \<open>
  Two pieces of evidence are written to the same file name only if they are of the same drill and
  finished at the same nanosecond (for years of four digits, any drill names).
\<close>

lemma evidence_names_distinct:
  assumes "year4 (ev_FinishedAt a)" and "year4 (ev_FinishedAt b)"
    and "(ev_Drill a, ev_FinishedAt a) \<noteq> (ev_Drill b, ev_FinishedAt b)"
  shows "evidence_name a \<noteq> evidence_name b"
  using evidence_name_inj[OF assms(1,2)] assms(3) by auto

definition demo_evidence :: Evidence where
  "demo_evidence = \<lparr>ev_Drill = ''pay-1'', ev_Tool = ''firedrill'', ev_StartedAt = 0, ev_FinishedAt = 7,
     ev_Backup = \<lparr>eb_URI = ''/b'', eb_ModTime = 0, eb_Age = 0, eb_Bytes = 3, eb_ResolvedURI = [], eb_Encryption = [],
       eb_Compression = [], eb_UncompressedBytes = 0\<rparr>, ev_ObjectiveRTO = Minute, ev_ObjectiveRPO = Hour,
     ev_Measured = \<lparr>em_Restore = 0, em_RTOMet = True, em_RPOMet = True\<rparr>,
     ev_Sandbox = \<lparr>es_Provider = ''docker'', es_Image = ''postgres:16'', es_Destroyed = True\<rparr>,
     ev_Checks = [], ev_Controls = [''SOC2''], ev_Verified = True, ev_Error = None\<rparr>"

lemma evidence_names_distinct_witness:
  "evidence_name demo_evidence \<noteq> evidence_name (demo_evidence\<lparr>ev_FinishedAt := 8\<rparr>)"
proof -
  have "year4 7" "year4 8"
    by (simp_all add: year4_def unix_parts_def civil_def civil_year.simps year_days_def Let_def split: prod.splits)
  then show ?thesis
    using evidence_names_distinct[of demo_evidence "demo_evidence\<lparr>ev_FinishedAt := 8\<rparr>"]
    by (simp add: demo_evidence_def)
qed

section \<open>Writing is atomic\<close>

lemma os_MkdirAll_File: "os_MkdirAll d s = (r, t) \<Longrightarrow> os_fs t p = Some (File x m) \<longleftrightarrow> os_fs s p = Some (File x m)"
  by (auto simp: os_MkdirAll_def split: option.splits node.splits if_splits)

lemma append_tmp_ne [simp]: "p @ ''.tmp'' \<noteq> p" "p \<noteq> p @ ''.tmp''"
  by simp_all

abbreviation evidence_path :: "Evidence \<Rightarrow> string \<Rightarrow> string" where
  "evidence_path e dir \<equiv> path_Join [if dir = [] then ''evidence'' else dir, evidence_name e]"

lemma evidence_Write_cases:
  assumes "evidence_Write js e dir s = (res, t)"
  obtains (mkdir) err where "os_MkdirAll (if dir = [] then ''evidence'' else dir) s = (Some err, t)" "res = Inl err"
  | (json) err where "os_MkdirAll (if dir = [] then ''evidence'' else dir) s = (None, t)" "js_Evidence js e = Inl err" "res = Inl err"
  | (write_err) data s1 err where "os_MkdirAll (if dir = [] then ''evidence'' else dir) s = (None, s1)" "js_Evidence js e = Inr data"
      "os_WriteFile (evidence_path e dir @ ''.tmp'') data s1 = (Some err, t)" "res = Inl err"
  | (rename) data s1 s2 err where "os_MkdirAll (if dir = [] then ''evidence'' else dir) s = (None, s1)" "js_Evidence js e = Inr data"
      "os_WriteFile (evidence_path e dir @ ''.tmp'') data s1 = (None, s2)"
      "os_Rename (evidence_path e dir @ ''.tmp'') (evidence_path e dir) s2 = (Some err, t)" "res = Inl err"
  | (ok) data s1 s2 where "os_MkdirAll (if dir = [] then ''evidence'' else dir) s = (None, s1)" "js_Evidence js e = Inr data"
      "os_WriteFile (evidence_path e dir @ ''.tmp'') data s1 = (None, s2)"
      "os_Rename (evidence_path e dir @ ''.tmp'') (evidence_path e dir) s2 = (None, t)" "res = Inr (evidence_path e dir)"
  using assms
  by (auto simp: evidence_Write_def Canonical_def Let_def split: prod.splits option.splits sum.splits)

lemma os_WriteFile_other: "os_WriteFile p d s = (r, t) \<Longrightarrow> q \<noteq> p \<Longrightarrow> os_fs t q = os_fs s q"
  using os_WriteFile_frame[of p s d] by (auto simp: os_frame_def)

text \<open>
  C19: writing evidence is atomic. Whichever system calls fail (so also when the process dies in
  between), a file under the evidence name is either the file that was there or the complete
  rendering of the evidence, never a truncated one; and when \<open>Write\<close> succeeds it returns that name, the
  file is complete and the temporary file is gone.
\<close>

theorem evidence_Write_atomic:
  assumes "evidence_Write js e dir s = (res, t)"
  shows "(\<forall>d m. os_fs t (evidence_path e dir) = Some (File d m) \<longrightarrow>
      os_fs s (evidence_path e dir) = Some (File d m) \<or> js_Evidence js e = Inr d) \<and>
    (\<forall>p. res = Inr p \<longrightarrow> p = evidence_path e dir \<and> os_fs t (p @ ''.tmp'') = None \<and>
      (\<exists>d m. js_Evidence js e = Inr d \<and> os_fs t p = Some (File d m)))"
  using assms
proof (cases rule: evidence_Write_cases)
  case mkdir
  then show ?thesis using os_MkdirAll_File by blast
next
  case json
  then show ?thesis using os_MkdirAll_File by blast
next
  case (write_err data s1 err)
  then show ?thesis using os_MkdirAll_File[OF write_err(1)] os_WriteFile_other[OF write_err(3) append_tmp_ne(2)] by simp
next
  case (rename data s1 s2 err)
  then show ?thesis using os_MkdirAll_File[OF rename(1)] os_WriteFile_other[OF rename(3) append_tmp_ne(2)]
      os_Rename_err[OF rename(4)] by simp
next
  case (ok data s1 s2)
  then show ?thesis using os_Rename_ok[OF ok(4)] os_WriteFile_ok[OF ok(3)] by auto
qed

section \<open>A concrete wire format\<close>

text \<open>An injective rendering of lists of strings, used only to show that the assumptions on the JSON
  and signature libraries can hold together.\<close>

definition enc_list :: "('a \<Rightarrow> string) \<Rightarrow> 'a list \<Rightarrow> string" where
  "enc_list f xs = concat (map (\<lambda>x. hex_EncodeToString (f x) @ ''!'') xs)"

definition dec_list :: "(string \<Rightarrow> 'a option) \<Rightarrow> string \<Rightarrow> 'a list option" where
  "dec_list g s = those (map (\<lambda>p. Option.bind (hex_DecodeString p) g) (butlast (split1 CHR ''!'' s)))"

lemma hex_digit_plain: "n < 16 \<Longrightarrow> hex_digit n \<noteq> CHR ''!''"
  by (erule nibble_check) code_simp

lemma hex_no_bang: "CHR ''!'' \<notin> set (hex_EncodeToString s)"
proof (induction s)
  case (Cons c cs)
  have "(of_char c :: nat) div 16 < 16" using byte_less_256[of c] by (simp add: less_mult_imp_div_less)
  then show ?case using Cons hex_digit_plain[of "of_char c div 16"] hex_digit_plain[of "of_char c mod 16"]
    by (auto simp: Let_def)
qed simp

lemma split1_first: "c \<notin> set a \<Longrightarrow> split1 c (a @ c # r) = a # split1 c r"
  by (induction a) auto

lemma dec_enc_list: "(\<And>x. g (f x) = Some x) \<Longrightarrow> dec_list g (enc_list f xs) = Some xs"
proof (induction xs)
  case Nil
  then show ?case by (simp add: dec_list_def enc_list_def)
next
  case (Cons x xs)
  have "split1 CHR ''!'' (enc_list f (x # xs)) = hex_EncodeToString (f x) # split1 CHR ''!'' (enc_list f xs)"
    using split1_first[OF hex_no_bang] by (simp add: enc_list_def)
  then show ?case using Cons by (simp add: dec_list_def hex.dec_enc)
qed

definition enc_pair :: "string \<times> string \<Rightarrow> string" where
  "enc_pair p = enc_list id [fst p, snd p]"

definition dec_pair :: "string \<Rightarrow> (string \<times> string) option" where
  "dec_pair s = (case dec_list Some s of Some [a, b] \<Rightarrow> Some (a, b) | _ \<Rightarrow> None)"

lemma dec_enc_strs [simp]: "dec_list Some (enc_list id xs) = Some xs"
  by (rule dec_enc_list) simp

lemma dec_enc_pair [simp]: "dec_pair (enc_pair p) = Some p"
  by (simp add: dec_pair_def enc_pair_def del: id_apply)

definition enc_subject :: "Subject \<Rightarrow> string" where
  "enc_subject x = enc_pair (sj_Name x, enc_list enc_pair (sj_Digest x))"

definition dec_subject :: "string \<Rightarrow> Subject option" where
  "dec_subject s = (case dec_pair s of Some (n, d) \<Rightarrow> map_option (\<lambda>ds. \<lparr>sj_Name = n, sj_Digest = ds\<rparr>) (dec_list dec_pair d) | None \<Rightarrow> None)"

lemma dec_enc_subject [simp]: "dec_subject (enc_subject x) = Some x"
  by (simp add: dec_subject_def enc_subject_def dec_enc_list)

definition bad :: "'a res" where "bad = Inl (Msg ''bad input'' [])"

definition demo_json :: Json where
  "demo_json = \<lparr>js_Evidence = (\<lambda>e. Inr (''{'' @ ev_Drill e @ ''}'')),
     js_Signature = (\<lambda>x. Inr (enc_list id [sg_Algorithm x, sg_PublicKey x, sg_KeyFingerprint x, sg_Signature x])),
     js_unSignature = (\<lambda>s. case dec_list Some s of
        Some [a, b, c, d] \<Rightarrow> Inr \<lparr>sg_Algorithm = a, sg_PublicKey = b, sg_KeyFingerprint = c, sg_Signature = d\<rparr> | _ \<Rightarrow> bad),
     js_Statement = (\<lambda>x. Inr (enc_list id [st_Type x, enc_list enc_subject (st_Subject x), st_PredicateType x, st_Predicate x])),
     js_unStatement = (\<lambda>s. case dec_list Some s of
        Some [a, b, c, d] \<Rightarrow> (case dec_list dec_subject b of
          Some subs \<Rightarrow> Inr \<lparr>st_Type = a, st_Subject = subs, st_PredicateType = c, st_Predicate = d\<rparr> | None \<Rightarrow> bad)
      | _ \<Rightarrow> bad),
     js_Envelope = (\<lambda>x. Inr (enc_list id [en_PayloadType x, en_Payload x,
        enc_list enc_pair (map (\<lambda>s. (ds_KeyID s, ds_Sig s)) (en_Signatures x))])),
     js_unEnvelope = (\<lambda>s. case dec_list Some (butlast s) of
        Some [a, b, c] \<Rightarrow> (case dec_list dec_pair c of
          Some ps \<Rightarrow> Inr \<lparr>en_PayloadType = a, en_Payload = b,
            en_Signatures = map (\<lambda>(k, g). \<lparr>ds_KeyID = k, ds_Sig = g\<rparr>) ps\<rparr> | None \<Rightarrow> bad)
      | _ \<Rightarrow> bad)\<rparr>"

definition demo_crypto :: Crypto where
  "demo_crypto = \<lparr>cr_Public = (\<lambda>k. take 32 (k @ replicate 32 CHR ''p'')), cr_Sign = (\<lambda>k m. take 32 (k @ replicate 32 CHR ''p'') @ m),
     cr_Verify = (\<lambda>p m s. s = p @ m), cr_GenerateKey = (\<lambda>n. Inr (replicate 32 CHR ''p'', replicate 64 CHR ''k'')),
     cr_sha256 = (\<lambda>d. take 32 (d @ replicate 32 CHR ''0'')), cr_PKIX = (\<lambda>p. Inr p),
     cr_pemEncode = (\<lambda>t b. enc_pair (t, b)), cr_pemDecode = dec_pair\<rparr>"

section \<open>What the libraries are relied on for\<close>

text \<open>What was marshalled unmarshals to the same value; the predicate of a statement is raw JSON, which
  marshalling may re-space, so only the other fields come back; the envelope is read back from a
  line that ends in a newline.\<close>

definition json_roundtrip :: "Json \<Rightarrow> bool" where
  "json_roundtrip js \<longleftrightarrow>
     (\<forall>x out. js_Signature js x = Inr out \<longrightarrow> js_unSignature js out = Inr x) \<and>
     (\<forall>x out. js_Statement js x = Inr out \<longrightarrow> (\<exists>y. js_unStatement js out = Inr y \<and>
        st_Type y = st_Type x \<and> st_Subject y = st_Subject x \<and> st_PredicateType y = st_PredicateType x)) \<and>
     (\<forall>x out. js_Envelope js x = Inr out \<longrightarrow> js_unEnvelope js (out @ [CHR 0x0A]) = Inr x)"

definition ed25519_correct :: "Crypto \<Rightarrow> bool" where
  "ed25519_correct cr \<longleftrightarrow> (\<forall>k. length (cr_Public cr k) = 32) \<and>
     (\<forall>k m. cr_Verify cr (cr_Public cr k) m (cr_Sign cr k m))"

definition pem_roundtrip :: "Crypto \<Rightarrow> bool" where
  "pem_roundtrip cr \<longleftrightarrow> (\<forall>t b. cr_pemDecode cr (cr_pemEncode cr t b) = Some (t, b))"

lemma DSSESig_eta [simp]: "\<lparr>ds_KeyID = ds_KeyID x, ds_Sig = ds_Sig x\<rparr> = x"
  by (cases x) simp

lemma demo_laws: "json_roundtrip demo_json" "ed25519_correct demo_crypto" "pem_roundtrip demo_crypto"
proof -
  show "json_roundtrip demo_json"
    by (auto simp: json_roundtrip_def demo_json_def dec_enc_list comp_def simp del: id_apply)
  show "ed25519_correct demo_crypto" by (auto simp: ed25519_correct_def demo_crypto_def)
  show "pem_roundtrip demo_crypto" by (simp add: pem_roundtrip_def demo_crypto_def)
qed

lemma demo_evidence_name: "evidence_name demo_evidence = ''pay-1-0001-01-01T00-00-00Z-000000007.json''"
proof -
  have "pad 4 1 = ''0001''" "pad 2 1 = ''01''" "pad 2 0 = ''00''" "pad 9 7 = ''000000007''" by code_simp+
  moreover have "unix_parts 7 = (0, 0, 7)" "go_Nanosecond 7 = 7" by (simp_all add: unix_parts_def go_Nanosecond_def)
  moreover have "civil 0 = (1, 1, 1)" by code_simp
  ultimately show ?thesis
    by (simp add: evidence_name_def demo_evidence_def format_stamp_def format_utc_def)
qed

theorem evidence_Write_atomic_witness:
  "\<exists>t m. evidence_Write demo_json demo_evidence [] demo_os = (Inr (evidence_path demo_evidence []), t) \<and>
     os_fs t (evidence_path demo_evidence []) = Some (File ''{pay-1}'' m)"
proof -
  obtain res t where w: "evidence_Write demo_json demo_evidence [] demo_os = (res, t)" by fastforce
  have "path_Join [''evidence'', evidence_name demo_evidence] \<noteq> ''evidence''"
    by (simp add: demo_evidence_name path_Join_plain plain_name_def dir_prefix_def)
  then have "res = Inr (evidence_path demo_evidence [])" using w
    by (auto simp: evidence_Write_def Canonical_def demo_json_def os_MkdirAll_def os_WriteFile_def os_Rename_def Let_def
        path_Join_plain split: option.splits prod.splits if_splits)
  then show ?thesis using evidence_Write_atomic[OF w] w by (auto simp: demo_json_def demo_evidence_def)
qed

section \<open>What was signed verifies\<close>

lemma os_ReadFile_healthy: "os_healthy s \<Longrightarrow> os_fs s p = Some (File d m) \<Longrightarrow> os_ReadFile p s = (Inr d, os_step s)"
  by (simp add: os_ReadFile_def)

lemma os_Stat_healthy: "os_healthy s \<Longrightarrow> os_fs s p = Some (File d m) \<Longrightarrow> os_Stat p s = (Inr (False, int (length d), m), os_step s)"
  by (simp add: os_Stat_def)

lemma os_step_healthy [simp]: "os_healthy (os_step s) = os_healthy s"
  by (simp add: os_healthy_def)

lemma side_files_distinct [simp]:
  "p @ ''.sig'' \<noteq> p" "p \<noteq> p @ ''.sig''" "p @ ''.intoto.jsonl'' \<noteq> p" "p \<noteq> p @ ''.intoto.jsonl''"
  "p @ ''.sig'' \<noteq> p @ ''.intoto.jsonl''" "p @ ''.intoto.jsonl'' \<noteq> p @ ''.sig''"
  by simp_all

definition sig_envelope :: "Crypto \<Rightarrow> string \<Rightarrow> string \<Rightarrow> Signature" where
  "sig_envelope cr priv data =
     \<lparr>sg_Algorithm = ''ed25519'', sg_PublicKey = hex_EncodeToString (cr_Public cr priv),
      sg_KeyFingerprint = Fingerprint cr (cr_Public cr priv),
      sg_Signature = hex_EncodeToString (cr_Sign cr priv data)\<rparr>"

lemma Sign_ok:
  assumes "Sign js cr path priv s = (Inr p, t)"
  obtains data m out m' where "os_fs s path = Some (File data m)" "js_Signature js (sig_envelope cr priv data) = Inr out"
    "os_fs t = (os_fs s)(path @ ''.sig'' \<mapsto> File out m')" "os_frame {path @ ''.sig''} s t"
proof -
  obtain data s1 out where r: "os_ReadFile path s = (Inr data, s1)"
    and j: "js_Signature js (sig_envelope cr priv data) = Inr out" and w: "os_WriteFile (path @ ''.sig'') out s1 = (None, t)"
    using assms unfolding sig_envelope_def
    by (auto simp: Sign_def Let_def split: prod.splits sum.splits option.splits)
  obtain m where "os_fs s path = Some (File data m)" using os_ReadFile_Inr[OF r] by blast
  moreover have "os_fs s1 = os_fs s" using r by (auto simp: os_ReadFile_def)
  moreover have "os_frame {path @ ''.sig''} s t"
    using os_frame_trans_same[OF os_ReadFile_frame[OF r] os_WriteFile_frame] w by (metis snd_conv)
  ultimately show ?thesis using that j os_WriteFile_ok[OF w] by metis
qed

lemma Attest_ok:
  assumes "Attest js cr path priv s = (Inr p, t)"
  obtains data m payload out m' where "os_fs s path = Some (File data m)"
    "js_Statement js (attest_statement cr path data) = Inr payload" "js_Envelope js (attest_envelope cr priv payload) = Inr out"
    "os_fs t = (os_fs s)(path @ ''.intoto.jsonl'' \<mapsto> File (out @ [CHR 0x0A]) m')" "os_frame {path @ ''.intoto.jsonl''} s t"
proof -
  obtain data s1 payload out where r: "os_ReadFile path s = (Inr data, s1)"
    and j: "js_Statement js (attest_statement cr path data) = Inr payload" "js_Envelope js (attest_envelope cr priv payload) = Inr out"
    and w: "os_WriteFile (path @ ''.intoto.jsonl'') (out @ [CHR 0x0A]) s1 = (None, t)"
    using assms by (auto simp: Attest_def Let_def split: prod.splits sum.splits option.splits)
  obtain m where "os_fs s path = Some (File data m)" using os_ReadFile_Inr[OF r] by blast
  moreover have "os_fs s1 = os_fs s" using r by (auto simp: os_ReadFile_def)
  moreover have "os_frame {path @ ''.intoto.jsonl''} s t"
    using os_frame_trans_same[OF os_ReadFile_frame[OF r] os_WriteFile_frame] w by (metis snd_conv)
  ultimately show ?thesis using that j os_WriteFile_ok[OF w] by metis
qed

lemma check_signature_signed:
  assumes "json_roundtrip js" "ed25519_correct cr" "js_Signature js (sig_envelope cr priv data) = Inr out"
    "trusted = None \<or> trusted = Some (cr_Public cr priv)"
  shows "check_signature js cr trusted data out = None" and "signer_key js out = Inr (cr_Public cr priv)"
proof -
  have "js_unSignature js out = Inr (sig_envelope cr priv data)" using assms(1,3) by (simp add: json_roundtrip_def)
  then show "check_signature js cr trusted data out = None" "signer_key js out = Inr (cr_Public cr priv)"
    using assms(2,4) by (auto simp: check_signature_def signer_key_def sig_envelope_def hex.dec_enc ed25519_correct_def)
qed

lemma VerifyAttestation_attested:
  assumes "json_roundtrip js" "ed25519_correct cr" "os_healthy s" "os_fs s path = Some (File data m)"
    "js_Statement js (attest_statement cr path data) = Inr payload" "js_Envelope js (attest_envelope cr priv payload) = Inr out"
    "os_fs s (path @ ''.intoto.jsonl'') = Some (File (out @ [CHR 0x0A]) m')"
  shows "fst (VerifyAttestation js cr path (cr_Public cr priv) s) = None"
proof -
  have e: "js_unEnvelope js (out @ [CHR 0x0A]) = Inr (attest_envelope cr priv payload)"
    using assms(1,6) by (simp add: json_roundtrip_def)
  obtain st where st: "js_unStatement js payload = Inr st" "st_Subject st = st_Subject (attest_statement cr path data)"
    "st_PredicateType st = PredicateType"
    using assms(1)[unfolded json_roundtrip_def, THEN conjunct2, THEN conjunct1, rule_format, OF assms(5)] by (auto simp: attest_statement_def)
  have "any_signature cr (cr_Public cr priv) (pae payloadType payload) (en_Signatures (attest_envelope cr priv payload))"
    using assms(2) by (simp add: attest_envelope_def base64.dec_enc ed25519_correct_def)
  moreover have "any_subject (hex_EncodeToString (cr_sha256 cr data)) (st_Subject st)"
    by (simp add: st(2) attest_statement_def subject_digest_def equalFold_def)
  ultimately show ?thesis
    using assms(3) os_ReadFile_healthy[OF assms(3,7)] os_ReadFile_healthy[of "os_step s" path data m] assms(4) e st
    by (simp add: VerifyAttestation_def) (simp add: attest_envelope_def base64.dec_enc)
qed

text \<open>What the three files of a bundle hold is all that matters.\<close>

definition bundle_files :: "Json \<Rightarrow> Crypto \<Rightarrow> string \<Rightarrow> string \<Rightarrow> string \<Rightarrow> OS \<Rightarrow> bool" where
  "bundle_files js cr path priv data s \<longleftrightarrow> (\<exists>m sg m1 payload env m2. os_fs s path = Some (File data m) \<and>
     js_Signature js (sig_envelope cr priv data) = Inr sg \<and> os_fs s (path @ ''.sig'') = Some (File sg m1) \<and>
     js_Statement js (attest_statement cr path data) = Inr payload \<and> js_Envelope js (attest_envelope cr priv payload) = Inr env \<and>
     os_fs s (path @ ''.intoto.jsonl'') = Some (File (env @ [CHR 0x0A]) m2))"

lemma signed_bundle_files:
  assumes "Sign js cr path priv s = (Inr p, s1)" and "Attest js cr path priv s1 = (Inr q, s2)"
  shows "\<exists>data m. os_fs s path = Some (File data m) \<and> bundle_files js cr path priv data s2 \<and>
    os_frame {path @ ''.sig'', path @ ''.intoto.jsonl''} s s2"
proof -
  obtain data m out m' where sg: "os_fs s path = Some (File data m)" "js_Signature js (sig_envelope cr priv data) = Inr out"
    "os_fs s1 = (os_fs s)(path @ ''.sig'' \<mapsto> File out m')" "os_frame {path @ ''.sig''} s s1"
    using Sign_ok[OF assms(1)] by blast
  obtain data2 m2 payload out2 m3 where at: "os_fs s1 path = Some (File data2 m2)"
    "js_Statement js (attest_statement cr path data2) = Inr payload" "js_Envelope js (attest_envelope cr priv payload) = Inr out2"
    "os_fs s2 = (os_fs s1)(path @ ''.intoto.jsonl'' \<mapsto> File (out2 @ [CHR 0x0A]) m3)" "os_frame {path @ ''.intoto.jsonl''} s1 s2"
    using Attest_ok[OF assms(2)] by blast
  have d: "data2 = data" using at(1) sg(1,3) by simp
  have "os_frame ({path @ ''.sig''} \<union> {path @ ''.intoto.jsonl''}) s s2" by (rule os_frame_trans[OF sg(4) at(5)])
  then show ?thesis using sg at d by (auto simp: bundle_files_def insert_commute)
qed

lemma bundle_files_verify:
  assumes "json_roundtrip js" and "ed25519_correct cr" and "os_healthy s2" and "bundle_files js cr path priv data s2"
    and "trusted = None \<or> trusted = Some (cr_Public cr priv)"
  shows "\<exists>src. fst (VerifyBundle js cr path trusted keyDir s2) =
    Inr \<lparr>br_SignerFingerprint = Fingerprint cr (cr_Public cr priv), br_AttestationChecked = True,
         br_KeySource = src, br_Notes = []\<rparr>"
proof -
  obtain m out m' payload out2 m3 where f: "os_fs s2 path = Some (File data m)" "os_fs s2 (path @ ''.sig'') = Some (File out m')"
    "os_fs s2 (path @ ''.intoto.jsonl'') = Some (File (out2 @ [CHR 0x0A]) m3)"
    and sg: "js_Signature js (sig_envelope cr priv data) = Inr out"
    and at: "js_Statement js (attest_statement cr path data) = Inr payload" "js_Envelope js (attest_envelope cr priv payload) = Inr out2"
    using assms(4) unfolding bundle_files_def by blast
  let ?k = "cr_Public cr priv"
  have v: "Verify js cr path trusted s2 = (None, os_step (os_step s2))"
    using assms(3) f check_signature_signed(1)[OF assms(1,2) sg assms(5)]
    by (simp add: Verify_def os_ReadFile_healthy)
  have sk: "SignerKey js path u = (Inr ?k, os_step u)" if "os_healthy u" "os_fs u = os_fs s2" for u
    using that f check_signature_signed(2)[OF assms(1,2) sg assms(5)]
    by (simp add: SignerKey_def os_ReadFile_healthy)
  have ak: "\<exists>src u'. attestation_key js cr path trusted keyDir u = (Some (?k, src), u') \<and> os_healthy u' \<and> os_fs u' = os_fs s2"
    if "os_healthy u" "os_fs u = os_fs s2" for u
    using that assms(5) sk[OF that] by (auto simp: attestation_key_def)
  have va: "fst (VerifyAttestation js cr path ?k u) = None" if "os_healthy u" "os_fs u = os_fs s2" for u
    using VerifyAttestation_attested[OF assms(1,2) that(1), of path data m payload priv out2 m3] at f that(2) by simp
  have stat: "os_Stat (path @ ''.intoto.jsonl'') u = (Inr (False, int (length (out2 @ [CHR 0x0A])), m3), os_step u)"
    if "os_healthy u" "os_fs u = os_fs s2" for u using os_Stat_healthy that f by simp
  define u where "u = os_step (os_step s2)"
  have u: "os_healthy u" "os_fs u = os_fs s2" "os_healthy (os_step u)" "os_fs (os_step u) = os_fs s2"
    "os_healthy (os_step (os_step u))" "os_fs (os_step (os_step u)) = os_fs s2"
    using assms(3) by (simp_all add: u_def)
  obtain src u' where a: "attestation_key js cr path trusted keyDir (os_step (os_step u)) = (Some (?k, src), u')"
    "os_healthy u'" "os_fs u' = os_fs s2" using ak u by blast
  show ?thesis
    using v sk[OF u(1,2)] stat[OF u(3,4)] a(1) va[OF a(2,3)] unfolding u_def[symmetric] VerifyBundle_def
    by (auto simp: Let_def split: prod.splits option.splits)
qed

lemma signed_bundle_ok:
  assumes "json_roundtrip js" and "ed25519_correct cr" and "os_healthy s"
    and "Sign js cr path priv s = (Inr p, s1)" and "Attest js cr path priv s1 = (Inr q, s2)"
    and "trusted = None \<or> trusted = Some (cr_Public cr priv)"
  shows "\<exists>src. fst (VerifyBundle js cr path trusted keyDir s2) =
    Inr \<lparr>br_SignerFingerprint = Fingerprint cr (cr_Public cr priv), br_AttestationChecked = True,
         br_KeySource = src, br_Notes = []\<rparr>"
proof -
  obtain data where b: "bundle_files js cr path priv data s2" and f: "os_frame {path @ ''.sig'', path @ ''.intoto.jsonl''} s s2"
    using signed_bundle_files[OF assms(4,5)] by blast
  show ?thesis by (rule bundle_files_verify[OF assms(1,2) os_frame_healthy[OF f assms(3)] b assms(6)])
qed

text \<open>
  C18: evidence that was signed and attested with a key verifies: \<open>VerifyBundle\<close> accepts it, without a
  pinned key and with that key pinned, reports the fingerprint of the signer, has checked the
  attestation and has nothing to note. No system call is assumed to fail.
\<close>

theorem signed_bundle_verifies:
  assumes "json_roundtrip js" and "ed25519_correct cr" and "os_healthy s"
    and "Sign js cr path priv s = (Inr p, s1)" and "Attest js cr path priv s1 = (Inr q, s2)"
    and "trusted = None \<or> trusted = Some (cr_Public cr priv)"
  shows "\<exists>src. fst (VerifyBundle js cr path trusted keyDir s2) =
    Inr \<lparr>br_SignerFingerprint = Fingerprint cr (cr_Public cr priv), br_AttestationChecked = True,
         br_KeySource = src, br_Notes = []\<rparr>"
  by (rule signed_bundle_ok[OF assms])

definition demo_signed_os :: OS where
  "demo_signed_os = demo_os\<lparr>os_fs := [''e.json'' \<mapsto> File ''{}'' 1]\<rparr>"

lemma demo_signed:
  "\<exists>p q s1 s2. os_healthy demo_signed_os \<and> Sign demo_json demo_crypto ''e.json'' ''key'' demo_signed_os = (Inr p, s1) \<and>
     Attest demo_json demo_crypto ''e.json'' ''key'' s1 = (Inr q, s2) \<and> os_healthy s2"
  by (auto simp: Sign_def Attest_def os_ReadFile_def os_WriteFile_def demo_signed_os_def demo_os_def demo_json_def Let_def os_healthy_def)

theorem signed_bundle_verifies_witness:
  "\<exists>p q s1 s2 res. Sign demo_json demo_crypto ''e.json'' ''key'' demo_signed_os = (Inr p, s1) \<and>
     Attest demo_json demo_crypto ''e.json'' ''key'' s1 = (Inr q, s2) \<and>
     fst (VerifyBundle demo_json demo_crypto ''e.json'' None [] s2) = Inr res \<and> br_AttestationChecked res"
proof -
  obtain p q s1 s2 where h: "os_healthy demo_signed_os" "Sign demo_json demo_crypto ''e.json'' ''key'' demo_signed_os = (Inr p, s1)"
    "Attest demo_json demo_crypto ''e.json'' ''key'' s1 = (Inr q, s2)" using demo_signed by blast
  then show ?thesis using signed_bundle_verifies[OF demo_laws(1,2) h, of None "[]"] by fastforce
qed

section \<open>What verifies was signed\<close>

text \<open>What accepting a signature file means: the key, and the signature it carries over the data.\<close>

definition signed_by :: "Json \<Rightarrow> Crypto \<Rightarrow> string \<Rightarrow> string \<Rightarrow> string \<Rightarrow> bool" where
  "signed_by js cr sigData pub data \<longleftrightarrow> (\<exists>sig raw. js_unSignature js sigData = Inr sig \<and>
     hex_DecodeString (sg_PublicKey sig) = Some pub \<and> hex_DecodeString (sg_Signature sig) = Some raw \<and>
     cr_Verify cr pub data raw)"

definition attested_by :: "Json \<Rightarrow> Crypto \<Rightarrow> string \<Rightarrow> string \<Rightarrow> string \<Rightarrow> bool" where
  "attested_by js cr envData pub data \<longleftrightarrow> (\<exists>env payload raw st sub. js_unEnvelope js envData = Inr env \<and>
     base64_DecodeString (en_Payload env) = Some payload \<and>
     raw \<in> set (List.map_filter (\<lambda>s. base64_DecodeString (ds_Sig s)) (en_Signatures env)) \<and>
     cr_Verify cr pub (pae payloadType payload) raw \<and>
     js_unStatement js payload = Inr st \<and> st_PredicateType st = PredicateType \<and>
     sub \<in> set (st_Subject st) \<and> equalFold (subject_digest sub) (hex_EncodeToString (cr_sha256 cr data)))"

lemma check_signature_None:
  assumes "check_signature js cr trusted data sigData = None"
  shows "\<exists>pub. signed_by js cr sigData pub data \<and> signer_key js sigData = Inr pub \<and>
    (\<forall>k. trusted = Some k \<longrightarrow> k = pub)"
  using assms
  by (auto simp: check_signature_def signed_by_def signer_key_def split: sum.splits option.splits if_splits)

lemma any_signature_iff:
  "any_signature cr pub m ss \<longleftrightarrow>
   (\<exists>raw \<in> set (List.map_filter (\<lambda>s. base64_DecodeString (ds_Sig s)) ss). cr_Verify cr pub m raw)"
  by (induction ss) (auto simp: map_filter_simps split: option.splits)

lemma any_subject_iff: "any_subject want subs \<longleftrightarrow> (\<exists>sub \<in> set subs. equalFold (subject_digest sub) want)"
  by (induction subs) auto

lemma VerifyAttestation_None:
  assumes "VerifyAttestation js cr path pub s = (None, t)"
  shows "\<exists>envData data m m'. os_fs s (path @ ''.intoto.jsonl'') = Some (File envData m) \<and>
    os_fs s path = Some (File data m') \<and> attested_by js cr envData pub data"
proof -
  obtain envData s1 env payload st data s2 where r: "os_ReadFile (path @ ''.intoto.jsonl'') s = (Inr envData, s1)"
    and e: "js_unEnvelope js envData = Inr env" "en_PayloadType env = payloadType"
      "base64_DecodeString (en_Payload env) = Some payload"
      "any_signature cr pub (pae payloadType payload) (en_Signatures env)"
      "js_unStatement js payload = Inr st" "st_PredicateType st = PredicateType"
    and d: "os_ReadFile path s1 = (Inr data, s2)" "any_subject (hex_EncodeToString (cr_sha256 cr data)) (st_Subject st)"
    using assms by (auto simp: VerifyAttestation_def split: prod.splits sum.splits option.splits if_splits)
  have "os_fs s1 = os_fs s" using r by (auto simp: os_ReadFile_def)
  then have "\<exists>m m'. os_fs s (path @ ''.intoto.jsonl'') = Some (File envData m) \<and> os_fs s path = Some (File data m')"
    using os_ReadFile_Inr[OF r] os_ReadFile_Inr[OF d(1)] by simp
  moreover have "attested_by js cr envData pub data"
    unfolding attested_by_def using e d(2)[unfolded any_subject_iff] e(4)[unfolded any_signature_iff] by blast
  ultimately show ?thesis by blast
qed

text \<open>
  C17: what a verified bundle proves. When \<open>VerifyBundle\<close> accepts (and no system call fails), the evidence
  file holds data that carries a valid signature of the key whose fingerprint is reported, the pinned key
  if one was given; and the attestation was checked exactly when there is an attestation file: then it
  carries a valid signature of the same key over a statement about the digest of that data. The key directory
  is never consulted.
\<close>

theorem VerifyBundle_binds:
  assumes "VerifyBundle js cr path trusted keyDir s = (Inr res, t)" and "os_healthy s"
  shows "\<exists>data m sigData m' pub. os_fs s path = Some (File data m) \<and> os_fs s (path @ ''.sig'') = Some (File sigData m') \<and>
    signed_by js cr sigData pub data \<and> br_SignerFingerprint res = Fingerprint cr pub \<and>
    (\<forall>k. trusted = Some k \<longrightarrow> k = pub) \<and>
    (br_AttestationChecked res \<longleftrightarrow> os_fs s (path @ ''.intoto.jsonl'') \<noteq> None) \<and>
    (\<forall>envData m. br_AttestationChecked res \<and> os_fs s (path @ ''.intoto.jsonl'') = Some (File envData m) \<longrightarrow>
       attested_by js cr envData pub data) \<and>
    br_KeySource res \<noteq> ''key directory''"
proof -
  obtain s1 where v: "Verify js cr path trusted s = (None, s1)"
    using assms(1) by (auto simp: VerifyBundle_def split: prod.splits option.splits)
  obtain data s0 sigData where rd: "os_ReadFile path s = (Inr data, s0)" "os_ReadFile (path @ ''.sig'') s0 = (Inr sigData, s1)"
    and cs: "check_signature js cr trusted data sigData = None"
    using v by (auto simp: Verify_def split: prod.splits sum.splits)
  obtain pub where pub: "signed_by js cr sigData pub data" "signer_key js sigData = Inr pub" "\<forall>k. trusted = Some k \<longrightarrow> k = pub"
    using check_signature_None[OF cs] by blast
  have s0: "s0 = os_step s" and s1: "s1 = os_step (os_step s)" using rd by (auto simp: os_ReadFile_def)
  obtain m where fd: "os_fs s path = Some (File data m)" using os_ReadFile_Inr[OF rd(1)] by blast
  obtain m' where fs: "os_fs s (path @ ''.sig'') = Some (File sigData m')" using os_ReadFile_Inr[OF rd(2)] s0 by auto
  have sk: "SignerKey js path u = (Inr pub, os_step u)" if "os_healthy u" "os_fs u = os_fs s" for u
    using that fs pub(2) by (simp add: SignerKey_def os_ReadFile_healthy)
  have ak: "attestation_key js cr path trusted keyDir u =
      (Some (pub, if trusted = None then ''signature envelope'' else ''pinned key''),
       if trusted = None then os_step u else u)"
    if "os_healthy u" "os_fs u = os_fs s" for u
    using that pub(3) sk[OF that] by (cases trusted) (auto simp: attestation_key_def)
  let ?u = "os_step s1"
  have u: "os_healthy s1" "os_fs s1 = os_fs s" "os_healthy ?u" "os_fs ?u = os_fs s" "os_healthy (os_step ?u)" "os_fs (os_step ?u) = os_fs s"
    using assms(2) s1 by simp_all
  show ?thesis
  proof (cases "os_fs s (path @ ''.intoto.jsonl'')")
    case None
    then have "os_Stat (path @ ''.intoto.jsonl'') ?u = (Inl (os_notExist (path @ ''.intoto.jsonl'')), os_step ?u)"
      using u by (simp add: os_Stat_def)
    then have "res = \<lparr>br_SignerFingerprint = Fingerprint cr pub, br_AttestationChecked = False, br_KeySource = [],
        br_Notes = [''no attestation present (pre-v0.6 evidence)'']\<rparr>"
      using assms(1) v sk[OF u(1,2)] by (simp add: VerifyBundle_def)
    then show ?thesis using fd fs pub None by auto
  next
    case (Some node)
    then obtain fi where "os_Stat (path @ ''.intoto.jsonl'') ?u = (Inr fi, os_step ?u)"
      using u by (cases node) (auto simp: os_Stat_def)
    moreover define v where "v = (if trusted = None then os_step (os_step ?u) else os_step ?u)"
    moreover obtain x w where va: "VerifyAttestation js cr path pub v = (x, w)" by fastforce
    ultimately have x: "x = None" and res: "res = \<lparr>br_SignerFingerprint = Fingerprint cr pub, br_AttestationChecked = True,
        br_KeySource = (if trusted = None then ''signature envelope'' else ''pinned key''), br_Notes = []\<rparr>"
      using assms(1) v sk[OF u(1,2)] ak[OF u(5,6)] by (auto simp: VerifyBundle_def split: option.splits)
    have "os_fs v = os_fs s" using u by (simp add: v_def)
    then obtain envData data' n n' where "os_fs s (path @ ''.intoto.jsonl'') = Some (File envData n)" "os_fs s path = Some (File data' n')"
      "attested_by js cr envData pub data'"
      using VerifyAttestation_None[of js cr path pub v w] va x by auto
    then show ?thesis using fd fs pub res by auto
  qed
qed

theorem VerifyBundle_binds_witness:
  "\<exists>s2 res t data m. VerifyBundle demo_json demo_crypto ''e.json'' None [] s2 = (Inr res, t) \<and>
     os_fs s2 ''e.json'' = Some (File data m) \<and> br_KeySource res \<noteq> ''key directory''"
proof -
  obtain p q s1 s2 where h: "os_healthy demo_signed_os" "Sign demo_json demo_crypto ''e.json'' ''key'' demo_signed_os = (Inr p, s1)"
    "Attest demo_json demo_crypto ''e.json'' ''key'' s1 = (Inr q, s2)" "os_healthy s2" using demo_signed by blast
  obtain res t where v: "VerifyBundle demo_json demo_crypto ''e.json'' None [] s2 = (Inr res, t)"
    using signed_bundle_ok[OF demo_laws(1,2) h(1,2,3), of None "[]"]
    by (cases "VerifyBundle demo_json demo_crypto ''e.json'' None [] s2") auto
  then show ?thesis using VerifyBundle_binds[OF v h(4)] by blast
qed

section \<open>Keys\<close>

lemma key_names_plain: "plain_name ''firedrill.key''" "plain_name ''firedrill.pub''" "plain_name ''firedrill.cosign.pub''"
  by (simp_all add: plain_name_def)

lemma key_paths_distinct:
  "path_Join [d, ''firedrill.key''] \<noteq> path_Join [d, ''firedrill.pub'']"
  "path_Join [d, ''firedrill.key''] \<noteq> path_Join [d, ''firedrill.cosign.pub'']"
  "path_Join [d, ''firedrill.pub''] \<noteq> path_Join [d, ''firedrill.cosign.pub'']"
  by (simp_all add: path_Join_inj key_names_plain)

lemma GenerateKeypair_Inr:
  assumes "GenerateKeypair cr dir s = (Inr (pp, qq), t)"
  obtains n pub priv m m' where "cr_GenerateKey cr n = Inr (pub, priv)" "pp = path_Join [dir, ''firedrill.key'']"
    "qq = path_Join [dir, ''firedrill.pub'']" "os_fs t pp = Some (File (cr_pemEncode cr privPEMType priv) m)"
    "os_fs t qq = Some (File (cr_pemEncode cr pubPEMType pub) m')" "os_frame {dir, pp, qq, path_Join [dir, ''firedrill.cosign.pub'']} s t"
proof -
  let ?k = "path_Join [dir, ''firedrill.key'']" and ?p = "path_Join [dir, ''firedrill.pub'']"
    and ?c = "path_Join [dir, ''firedrill.cosign.pub'']"
  note G = assms[unfolded GenerateKeypair_def Let_def]
  obtain s1 where m: "os_MkdirAll dir s = (None, s1)" using G by (auto split: prod.splits option.splits)
  obtain e s2 where st: "os_Stat ?k s1 = (Inl e, s2)" using G m by (auto split: prod.splits sum.splits)
  obtain pub priv where g: "cr_GenerateKey cr (os_tick s2) = Inr (pub, priv)"
    using G m st by (auto split: sum.splits prod.splits)
  obtain s3 where w1: "os_WriteFile ?k (cr_pemEncode cr privPEMType priv) s2 = (None, s3)"
    using G m st g by (auto split: prod.splits option.splits)
  obtain s4 where w2: "os_WriteFile ?p (cr_pemEncode cr pubPEMType pub) s3 = (None, s4)"
    using G m st g w1 by (auto split: prod.splits option.splits)
  obtain spki where w3: "os_WriteFile ?c (cr_pemEncode cr ''PUBLIC KEY'' spki) s4 = (None, t)" and pq: "pp = ?k" "qq = ?p"
    using G m st g w1 w2 by (auto split: prod.splits option.splits sum.splits)
  let ?D = "{dir, ?k, ?p, ?c}"
  have "os_frame ?D s s1" using os_frame_mono[OF os_MkdirAll_frame[of dir s], of ?D] m by simp
  moreover have "os_frame ?D s1 s2" using os_Stat_frame[OF st] .
  moreover have "os_frame ?D s2 s3"
    using os_frame_mono[OF os_WriteFile_frame[of ?k s2 "cr_pemEncode cr privPEMType priv"], of ?D] w1 by simp
  moreover have "os_frame ?D s3 s4"
    using os_frame_mono[OF os_WriteFile_frame[of ?p s3 "cr_pemEncode cr pubPEMType pub"], of ?D] w2 by simp
  moreover have "os_frame ?D s4 t"
    using os_frame_mono[OF os_WriteFile_frame[of ?c s4 "cr_pemEncode cr ''PUBLIC KEY'' spki"], of ?D] w3 by simp
  ultimately have "os_frame ?D s t" using os_frame_trans_same by blast
  moreover obtain mk where "os_fs t ?k = Some (File (cr_pemEncode cr privPEMType priv) mk)"
    using os_WriteFile_ok[OF w1] os_WriteFile_other[OF w2 key_paths_distinct(1)] os_WriteFile_other[OF w3 key_paths_distinct(2)] by auto
  moreover obtain mp where "os_fs t ?p = Some (File (cr_pemEncode cr pubPEMType pub) mp)"
    using os_WriteFile_ok[OF w2] os_WriteFile_other[OF w3 key_paths_distinct(3)] by auto
  ultimately show ?thesis using that g pq by simp
qed

text \<open>If the existence test fails for a reason of its own, the private key is written all the same.\<close>

lemma GenerateKeypair_overwrites:
  assumes "os_fs s dir = Some Dir" "os_fs s (path_Join [dir, ''firedrill.key'']) = Some (File old m)"
    and "os_fault s (os_tick s) = None" "os_fault s (os_tick s + 1) = Some e" "os_fault s (os_tick s + 2) = None"
    and "cr_GenerateKey cr (os_tick s + 2) = Inr (pub, priv)"
  shows "\<exists>m'. os_fs (snd (GenerateKeypair cr dir s)) (path_Join [dir, ''firedrill.key'']) = Some (File (cr_pemEncode cr privPEMType priv) m')"
proof -
  let ?k = "path_Join [dir, ''firedrill.key'']" and ?p = "path_Join [dir, ''firedrill.pub'']"
    and ?c = "path_Join [dir, ''firedrill.cosign.pub'']" and ?d = "cr_pemEncode cr privPEMType priv"
  have m: "os_MkdirAll dir s = (None, os_step s)" using assms(1,3) by (simp add: os_MkdirAll_def)
  have st: "os_Stat ?k (os_step s) = (Inl e, os_step (os_step s))" using assms(4) by (simp add: os_Stat_def)
  have g: "cr_GenerateKey cr (os_tick (os_step (os_step s))) = Inr (pub, priv)" using assms(6) by simp
  obtain s3 m' where w1: "os_WriteFile ?k ?d (os_step (os_step s)) = (None, s3)" and k: "os_fs s3 ?k = Some (File ?d m')"
    using assms(2,5) by (simp add: os_WriteFile_def)
  have "os_frame {?p, ?c} s3 (snd (GenerateKeypair cr dir s))"
  proof -
    obtain r4 s4 where w2: "os_WriteFile ?p (cr_pemEncode cr pubPEMType pub) s3 = (r4, s4)" by fastforce
    have f4: "os_frame {?p, ?c} s3 s4"
      using os_frame_mono[OF os_WriteFile_frame[of ?p s3 "cr_pemEncode cr pubPEMType pub"], of "{?p, ?c}"] w2 by simp
    moreover have "os_frame {?p, ?c} s4 (snd (os_WriteFile ?c x s4))" for x
      by (rule os_frame_mono[OF os_WriteFile_frame]) simp
    moreover have "snd (GenerateKeypair cr dir s) = s4 \<or>
        (\<exists>x. snd (GenerateKeypair cr dir s) = snd (os_WriteFile ?c x s4))"
      unfolding GenerateKeypair_def Let_def m st g w1 w2 prod.case option.case sum.case
      by (cases r4; cases "cr_PKIX cr pub") (auto split: prod.splits option.splits, (metis snd_conv)+)
    ultimately show ?thesis using f4 os_frame_trans_same[OF f4] by fastforce
  qed
  then have "os_fs (snd (GenerateKeypair cr dir s)) ?k = os_fs s3 ?k"
    by (rule os_frame_fs) (use key_paths_distinct(1,2)[of dir] in simp)
  then show ?thesis using k by simp
qed

text \<open>
  C26: key generation and faults of the system. With a key file in place and an existence test that itself works, it returns an error and
  changes nothing but possibly the missing key directory, whatever else fails. The test takes every error of \<open>Stat\<close> for absence: if it
  fails with the key in place, and the write works, the key is replaced by the new one, against the comment that it refuses to overwrite. When generation succeeds,
  \<open>LoadPrivateKey\<close> and \<open>LoadPublicKey\<close> return the generated pair (each if its read works).
\<close>

theorem GenerateKeypair_safe:
  assumes "pem_roundtrip cr"
    and "\<forall>n pub priv. cr_GenerateKey cr n = Inr (pub, priv) \<longrightarrow> length pub = 32 \<and> length priv = 64"
  shows "(os_fs s (path_Join [dir, ''firedrill.key'']) \<noteq> None \<and> os_fault s (os_tick s + 1) = None \<longrightarrow>
      \<not> res_ok (fst (GenerateKeypair cr dir s)) \<and> os_frame {dir} s (snd (GenerateKeypair cr dir s))) \<and>
    (\<forall>old m e pub priv. os_fs s dir = Some Dir \<and> os_fs s (path_Join [dir, ''firedrill.key'']) = Some (File old m) \<and>
        os_fault s (os_tick s) = None \<and> os_fault s (os_tick s + 1) = Some e \<and> os_fault s (os_tick s + 2) = None \<and>
        cr_GenerateKey cr (os_tick s + 2) = Inr (pub, priv) \<longrightarrow>
      (\<exists>m'. os_fs (snd (GenerateKeypair cr dir s)) (path_Join [dir, ''firedrill.key'']) =
        Some (File (cr_pemEncode cr ''FIREDRILL ED25519 PRIVATE KEY'' priv) m'))) \<and>
    (\<forall>pp qq t. GenerateKeypair cr dir s = (Inr (pp, qq), t) \<longrightarrow>
      (\<exists>n pub priv. cr_GenerateKey cr n = Inr (pub, priv) \<and>
         (os_fault t (os_tick t) = None \<longrightarrow>
           fst (LoadPrivateKey cr dir t) = Inr priv \<and> fst (LoadPublicKey cr dir t) = Inr pub)))"
proof (intro conjI impI allI)
  let ?k = "path_Join [dir, ''firedrill.key'']"
  assume a: "os_fs s ?k \<noteq> None \<and> os_fault s (os_tick s + 1) = None"
  obtain r s1 where m: "os_MkdirAll dir s = (r, s1)" by fastforce
  have f: "os_frame {dir} s s1" using os_MkdirAll_frame[of dir s] m by simp
  have t: "os_tick s1 = os_tick s + 1" using m by (auto simp: os_MkdirAll_def split: option.splits node.splits)
  have "os_fs s1 ?k \<noteq> None" using a m by (auto simp: os_MkdirAll_def split: option.splits node.splits if_splits)
  then obtain node where "os_fs s1 ?k = Some node" by auto
  then obtain fi where "os_Stat ?k s1 = (Inr fi, os_step s1)"
    using a f t by (cases node) (auto simp: os_Stat_def os_frame_def)
  then have g: "fst (GenerateKeypair cr dir s) \<in> range Inl" "snd (GenerateKeypair cr dir s) = (if r = None then os_step s1 else s1)"
    using m by (auto simp: GenerateKeypair_def Let_def split: option.splits)
  then show "\<not> res_ok (fst (GenerateKeypair cr dir s))" by auto
  show "os_frame {dir} s (snd (GenerateKeypair cr dir s))" using g(2) f os_frame_trans_same[OF f os_frame_step] by simp
next
  fix old m e pub priv
  assume "os_fs s dir = Some Dir \<and> os_fs s (path_Join [dir, ''firedrill.key'']) = Some (File old m) \<and>
    os_fault s (os_tick s) = None \<and> os_fault s (os_tick s + 1) = Some e \<and> os_fault s (os_tick s + 2) = None \<and>
    cr_GenerateKey cr (os_tick s + 2) = Inr (pub, priv)"
  then show "\<exists>m'. os_fs (snd (GenerateKeypair cr dir s)) (path_Join [dir, ''firedrill.key'']) =
      Some (File (cr_pemEncode cr ''FIREDRILL ED25519 PRIVATE KEY'' priv) m')"
    using GenerateKeypair_overwrites[of s dir old m e cr pub priv] unfolding privPEMType_def by blast
next
  fix pp qq t assume a: "GenerateKeypair cr dir s = (Inr (pp, qq), t)"
  obtain n pub priv m m' where g: "cr_GenerateKey cr n = Inr (pub, priv)" "pp = path_Join [dir, ''firedrill.key'']"
    "qq = path_Join [dir, ''firedrill.pub'']" "os_fs t pp = Some (File (cr_pemEncode cr privPEMType priv) m)"
    "os_fs t qq = Some (File (cr_pemEncode cr pubPEMType pub) m')" "os_frame {dir, pp, qq, path_Join [dir, ''firedrill.cosign.pub'']} s t"
    using GenerateKeypair_Inr[OF a] by blast
  have "length pub = 32" "length priv = 64" using assms(2) g(1) by blast+
  then have "fst (LoadPrivateKey cr dir t) = Inr priv" "fst (LoadPublicKey cr dir t) = Inr pub" if "os_fault t (os_tick t) = None"
    using g(2-5) assms(1) that
    by (simp_all add: LoadPrivateKey_def LoadPublicKey_def ParsePublicKeyPEM_def pem_roundtrip_def os_ReadFile_def)
  then show "\<exists>n pub priv. cr_GenerateKey cr n = Inr (pub, priv) \<and> (os_fault t (os_tick t) = None \<longrightarrow>
      fst (LoadPrivateKey cr dir t) = Inr priv \<and> fst (LoadPublicKey cr dir t) = Inr pub)"
    using g(1) by (intro exI[of _ n] exI[of _ pub] exI[of _ priv]) simp
qed

text \<open>A key directory with a key in it, with a working and with a failing \<open>Stat\<close>.\<close>

definition keyed_os :: "msg option \<Rightarrow> OS" where
  "keyed_os fault = demo_os\<lparr>os_fs := [''k'' \<mapsto> Dir, path_Join [''k'', ''firedrill.key''] \<mapsto> File ''old'' 0],
     os_fault := (\<lambda>n. if n = 1 then fault else None)\<rparr>"

theorem GenerateKeypair_safe_witness:
  "\<not> res_ok (fst (GenerateKeypair demo_crypto ''k'' (keyed_os None))) \<and>
   (\<exists>priv m. os_fs (snd (GenerateKeypair demo_crypto ''k'' (keyed_os (Some (Msg ''i/o error'' []))))) (path_Join [''k'', ''firedrill.key'']) =
     Some (File (cr_pemEncode demo_crypto ''FIREDRILL ED25519 PRIVATE KEY'' priv) m))"
proof -
  have k: "\<forall>n pub priv. cr_GenerateKey demo_crypto n = Inr (pub, priv) \<longrightarrow> length pub = 32 \<and> length priv = 64"
    by (auto simp: demo_crypto_def)
  have d: "path_Join [''k'', ''firedrill.key''] \<noteq> ''k''" by code_simp
  have o: "os_fs (keyed_os f) ''k'' = Some Dir" "os_fs (keyed_os f) (path_Join [''k'', ''firedrill.key'']) = Some (File ''old'' 0)"
    "os_tick (keyed_os f) = 0" "os_fault (keyed_os f) n = (if n = 1 then f else None)" for f n
    using d by (simp_all add: keyed_os_def demo_os_def)
  obtain pub priv where g: "cr_GenerateKey demo_crypto (0 + 2) = Inr (pub, priv)" by (auto simp: demo_crypto_def)
  note safe = GenerateKeypair_safe[OF demo_laws(3) k, of _ "''k''"]
  have "\<not> res_ok (fst (GenerateKeypair demo_crypto ''k'' (keyed_os None)))" using safe[of "keyed_os None"] o[of None] by simp
  moreover have "\<exists>priv m. os_fs (snd (GenerateKeypair demo_crypto ''k'' (keyed_os (Some (Msg ''i/o error'' [])))))
      (path_Join [''k'', ''firedrill.key'']) = Some (File (cr_pemEncode demo_crypto ''FIREDRILL ED25519 PRIVATE KEY'' priv) m)"
    using safe[of "keyed_os (Some (Msg ''i/o error'' []))"] g unfolding o by fastforce
  ultimately show ?thesis by blast
qed

end
