(* ===== verification/FD_Report.thy ===== *)
theory FD_Report
  imports FD_Evidence FD_Source
begin

text \<open>
  Reading evidence back: \<open>pkg/report/scan.go\<close>, \<open>gate.go\<close>, \<open>controls.go\<close>, \<open>history.go\<close>,
  \<open>scorecard.go\<close> and the decisions of \<open>print.go\<close> and \<open>html.go\<close>.

  What is written to a terminal or to a document is the list of formatted messages, in order; times are
  their argument \<open>AInt\<close> (nanoseconds), durations \<open>ADur\<close>, and the bar of the history table its
  arguments, since it is computed with floating-point numbers. The decoder of evidence and the sorting function of
  \<open>sort.Slice\<close> are parameters.

  The lemmas give the exact condition under which a subject passes the gate, that no required subject is
  dropped, that the control report attributes every run, and that history and scorecard lose nothing.
\<close>

section \<open>Grouping\<close>

text \<open>
  A Go map from a key to a slice that is only appended to. The laws are what the reports use: an append
  extends the slice of one key and adds the key.
\<close>

locale multimap =
  fixes empty :: 'm and push :: "'k \<Rightarrow> 'v \<Rightarrow> 'm \<Rightarrow> 'm"
    and look :: "'m \<Rightarrow> 'k \<Rightarrow> 'v list" and keys :: "'m \<Rightarrow> 'k list"
  assumes look_empty: "look empty k = []"
    and look_push: "look (push k v m) k' = (if k' = k then look m k @ [v] else look m k')"
    and keys_empty: "keys empty = []"
    and keys_push: "set (keys (push k v m)) = insert k (set (keys m))"
    and keys_distinct: "distinct (keys m) \<Longrightarrow> distinct (keys (push k v m))"
begin

abbreviation push_all :: "('k \<times> 'v) list \<Rightarrow> 'm \<Rightarrow> 'm" where
  "push_all kvs m \<equiv> fold (\<lambda>(k, v). push k v) kvs m"

lemma look_push_all: "look (push_all kvs m) k = look m k @ map snd (filter (\<lambda>kv. fst kv = k) kvs)"
  by (induction kvs arbitrary: m) (auto simp: look_push)

lemma keys_push_all: "set (keys (push_all kvs m)) = set (keys m) \<union> fst ` set kvs"
  by (induction kvs arbitrary: m) (auto simp: keys_push)

lemma keys_push_all_distinct: "distinct (keys m) \<Longrightarrow> distinct (keys (push_all kvs m))"
  by (induction kvs arbitrary: m) (auto simp: keys_distinct)

lemma look_grouped: "look (push_all kvs empty) k = map snd (filter (\<lambda>kv. fst kv = k) kvs)"
  by (simp add: look_push_all look_empty)

lemma keys_grouped: "set (keys (push_all kvs empty)) = fst ` set kvs"
  by (simp add: keys_push_all keys_empty)

end

type_synonym 'v groups = "(string \<times> 'v list) list"

fun group_push :: "string \<Rightarrow> 'v \<Rightarrow> 'v groups \<Rightarrow> 'v groups" where
  "group_push k v [] = [(k, [v])]"
| "group_push k v ((k', vs) # m) = (if k' = k then (k', vs @ [v]) # m else (k', vs) # group_push k v m)"

definition group_look :: "'v groups \<Rightarrow> string \<Rightarrow> 'v list" where
  "group_look m k = (case map_of m k of None \<Rightarrow> [] | Some vs \<Rightarrow> vs)"

interpretation grp: multimap "[]" group_push group_look "map fst"
proof
  show "group_look (group_push k v m) k' = (if k' = k then group_look m k @ [v] else group_look m k')"
    for k k' and v :: 'a and m
    by (induction k v m rule: group_push.induct) (auto simp: group_look_def)
  show set: "set (map fst (group_push k v m)) = insert k (set (map fst m))" for k and v :: 'a and m
    by (induction k v m rule: group_push.induct) auto
  show "distinct (map fst m) \<Longrightarrow> distinct (map fst (group_push k v m))" for k and v :: 'a and m
  proof (induction k v m rule: group_push.induct)
    case (2 k v k' vs m)
    then show ?case using set[of k v m] by auto
  qed simp
qed (simp_all add: group_look_def)

section \<open>Evidence files\<close>

record evidenceFile =
  ef_Path :: string
  ef_E :: Evidence

text \<open>\<open>filepath.Glob\<close>: I/O errors are ignored, the names of a directory are sorted, and a directory
  part with wildcards is expanded first.\<close>

definition hasMeta :: "string \<Rightarrow> bool" where
  "hasMeta p \<longleftrightarrow> (\<exists>c \<in> set p. c \<in> set ''*?['' \<or> c = CHR 0x5C)"

definition path_Split :: "string \<Rightarrow> string \<times> string" where
  "path_Split p = (let f = rev (takeWhile (\<lambda>c. c \<noteq> CHR ''/'') (rev p)) in (take (length p - length f) p, f))"

definition cleanGlobPath :: "string \<Rightarrow> string" where
  "cleanGlobPath p = (if p = [] then ''.'' else if p = ''/'' then p else butlast p)"

definition glob_dir :: "string \<Rightarrow> string \<Rightarrow> OS \<Rightarrow> string list \<times> OS" where
  "glob_dir dir pattern s =
     (case os_Stat dir s of
        (Inr (True, _), s1) \<Rightarrow>
          (case os_ReadDir dir s1 of
             (Inr es, s2) \<Rightarrow>
               (map (\<lambda>n. path_Join [dir, n]) (filter (\<lambda>n. path_Match pattern n = Inr True) (sort (map de_Name es))), s2)
           | (Inl _, s2) \<Rightarrow> ([], s2))
      | (_, s1) \<Rightarrow> ([], s1))"

fun glob_dirs :: "string list \<Rightarrow> string \<Rightarrow> OS \<Rightarrow> string list \<times> OS" where
  "glob_dirs [] pattern s = ([], s)"
| "glob_dirs (d # ds) pattern s =
     (case glob_dir d pattern s of (ms, s1) \<Rightarrow> (case glob_dirs ds pattern s1 of (ms', s2) \<Rightarrow> (ms @ ms', s2)))"

lemma glob_dir_shorter:
  assumes "path_Split p = (d, f)" and "hasMeta (cleanGlobPath d)"
  shows "length (cleanGlobPath d) < length p"
proof -
  have "d \<noteq> []" "d \<noteq> ''/''" using assms(2) by (auto simp: cleanGlobPath_def hasMeta_def)
  moreover have "length d \<le> length p" using assms(1) by (auto simp: path_Split_def Let_def)
  moreover have "length (butlast d) < length d" using \<open>d \<noteq> []\<close> by simp
  ultimately show ?thesis unfolding cleanGlobPath_def by (simp only: if_False)
qed

function filepath_Glob :: "string \<Rightarrow> OS \<Rightarrow> string list res \<times> OS" where
  "filepath_Glob pattern s =
     (if \<not> glob_ok pattern then (Inl (Msg ''syntax error in pattern'' []), s)
      else if \<not> hasMeta pattern then
        (case os_Stat pattern s of (Inr _, s1) \<Rightarrow> (Inr [pattern], s1) | (Inl _, s1) \<Rightarrow> (Inr [], s1))
      else (case path_Split pattern of (dir0, file) \<Rightarrow>
        let dir = cleanGlobPath dir0 in
        if \<not> hasMeta dir then (case glob_dir dir file s of (ms, s1) \<Rightarrow> (Inr ms, s1))
        else (case filepath_Glob dir s of
                (Inl e, s1) \<Rightarrow> (Inl e, s1)
              | (Inr ds, s1) \<Rightarrow> (case glob_dirs ds file s1 of (ms, s2) \<Rightarrow> (Inr ms, s2)))))"
  by pat_completeness auto
termination
  by (relation "measure (\<lambda>(pattern, _). length pattern)") (auto intro: glob_dir_shorter[OF sym])

declare filepath_Glob.simps [simp del]

fun scan_files :: "(string \<Rightarrow> Evidence res) \<Rightarrow> string list \<Rightarrow> OS \<Rightarrow> evidenceFile list res \<times> OS" where
  "scan_files un [] s = (Inr [], s)"
| "scan_files un (p # ps) s =
     (case os_ReadFile p s of
        (Inl e, s1) \<Rightarrow> (Inl e, s1)
      | (Inr data, s1) \<Rightarrow>
          (case scan_files un ps s1 of
             (Inl e, s2) \<Rightarrow> (Inl e, s2)
           | (Inr fs, s2) \<Rightarrow>
               (case un data of
                  Inl _ \<Rightarrow> (Inr fs, s2)
                | Inr e \<Rightarrow> if ev_Drill e = [] then (Inr fs, s2) else (Inr (\<lparr>ef_Path = p, ef_E = e\<rparr> # fs), s2))))"

definition scanEvidence :: "(string \<Rightarrow> Evidence res) \<Rightarrow> string \<Rightarrow> OS \<Rightarrow> evidenceFile list res \<times> OS" where
  "scanEvidence un dir s =
     (case filepath_Glob (path_Join [dir, ''*.json'']) s of
        (Inl e, s1) \<Rightarrow> (Inl e, s1)
      | (Inr matches, s1) \<Rightarrow> scan_files un matches s1)"

section \<open>The recovery gate\<close>

record GateOptions =
  go_Dir :: string
  go_MaxAge :: duration
  go_By :: string
  go_Subjects :: "string list"
  go_RequireSigned :: bool
  go_PublicKey :: "string option"
  go_AllowUnverified :: bool
  go_Now :: gotime

record SubjectStatus =
  ss_Subject :: string
  ss_Runs :: nat
  ss_LastRun :: "gotime option"
  ss_LastVerified :: "gotime option"
  ss_Signed :: bool
  ss_Violations :: "msg list"
  ss_Evidence :: string

definition OK :: "SubjectStatus \<Rightarrow> bool" where
  "OK st \<longleftrightarrow> ss_Violations st = []"

record GateReport =
  gr_GeneratedAt :: gotime
  gr_EvidenceDir :: string
  gr_By :: string
  gr_MaxAge :: "duration option"
  gr_Subjects :: "SubjectStatus list"
  gr_Violations :: nat

definition subjectsOf :: "Evidence \<Rightarrow> string \<Rightarrow> string list" where
  "subjectsOf e by = (if by = ''control'' then ev_Controls e else [ev_Drill e])"

definition noEvidence :: msg where
  "noEvidence = Msg ''no evidence - has this drill run at all?'' []"

text \<open>\<open>evaluate\<close>: the violations are appended in the order of the source.\<close>

definition age_violations :: "GateOptions \<Rightarrow> gotime \<Rightarrow> evidenceFile option \<Rightarrow> msg list" where
  "age_violations opts now verified =
     (if go_MaxAge opts > 0 then
        (case verified of
           None \<Rightarrow> [Msg ''no verified run on record'' []]
         | Some v \<Rightarrow>
             if time_Sub now (ev_FinishedAt (ef_E v)) > go_MaxAge opts
             then [Msg ''last verified run was %s ago (max %s)'' [ADur (time_Sub now (ev_FinishedAt (ef_E v))), ADur (go_MaxAge opts)]]
             else [])
      else [])"

definition unsigned_violation :: "GateOptions \<Rightarrow> msg" where
  "unsigned_violation opts =
     Msg (''evidence is unsigned or its signature does not validate'' @
       (if go_PublicKey opts \<noteq> None then '' against the pinned key'' else [])) []"

definition evaluate ::
  "Json \<Rightarrow> Crypto \<Rightarrow> (evidenceFile list \<Rightarrow> evidenceFile list) \<Rightarrow> string \<Rightarrow> evidenceFile list \<Rightarrow> GateOptions \<Rightarrow> gotime \<Rightarrow>
   OS \<Rightarrow> SubjectStatus \<times> OS" where
  "evaluate js cr srt name runs0 opts now s =
     (if runs0 = [] then
        (\<lparr>ss_Subject = name, ss_Runs = length runs0, ss_LastRun = None, ss_LastVerified = None, ss_Signed = False,
          ss_Violations = [noEvidence], ss_Evidence = []\<rparr>, s)
      else
       (let runs = srt runs0; latest = runs ! 0;
            verified = find (\<lambda>r. ev_Verified (ef_E r)) runs;
            sigOn = (case verified of None \<Rightarrow> latest | Some v \<Rightarrow> v)
        in (case Verify js cr (ef_Path sigOn) (go_PublicKey opts) s of (err, s1) \<Rightarrow>
            let signed = (err = None) in
            (\<lparr>ss_Subject = name, ss_Runs = length runs0, ss_LastRun = Some (ev_FinishedAt (ef_E latest)),
              ss_LastVerified = map_option (\<lambda>v. ev_FinishedAt (ef_E v)) verified, ss_Signed = signed,
              ss_Violations =
                (if \<not> ev_Verified (ef_E latest) \<and> \<not> go_AllowUnverified opts
                 then [Msg ''latest run did not verify recovery'' []] else []) @
                age_violations opts now verified @
                (if go_RequireSigned opts \<and> \<not> signed then [unsigned_violation opts] else []),
              ss_Evidence = ef_Path latest\<rparr>, s1))))"

text \<open>The loop over the subjects. \<open>sort.Slice\<close> sorts the slice of the map in place, so a name that is
  listed twice is evaluated on the sorted slice.\<close>

fun gate_loop ::
  "Json \<Rightarrow> Crypto \<Rightarrow> (evidenceFile list \<Rightarrow> evidenceFile list) \<Rightarrow> (string \<Rightarrow> evidenceFile list) \<Rightarrow> GateOptions \<Rightarrow> gotime \<Rightarrow>
   string list \<Rightarrow> OS \<Rightarrow> SubjectStatus list \<times> nat \<times> OS" where
  "gate_loop js cr srt groups opts now [] s = ([], 0, s)"
| "gate_loop js cr srt groups opts now (name # names) s =
     (case evaluate js cr srt name (groups name) opts now s of (st, s1) \<Rightarrow>
      case gate_loop js cr srt (groups(name := srt (groups name))) opts now names s1 of (sts, n, s2) \<Rightarrow>
      (st # sts, (if OK st then n else Suc n), s2))"

definition gate_groups :: "evidenceFile list \<Rightarrow> string \<Rightarrow> evidenceFile groups" where
  "gate_groups files by =
     fold (\<lambda>(k, f). group_push k f) (concat (map (\<lambda>f. map (\<lambda>k. (k, f)) (subjectsOf (ef_E f) by)) files)) []"

definition Gate ::
  "(string \<Rightarrow> Evidence res) \<Rightarrow> Json \<Rightarrow> Crypto \<Rightarrow> (evidenceFile list \<Rightarrow> evidenceFile list) \<Rightarrow> gotime \<Rightarrow> GateOptions \<Rightarrow>
   OS \<Rightarrow> GateReport res \<times> OS" where
  "Gate un js cr srt time_Now opts s =
     (case scanEvidence un (go_Dir opts) s of
        (Inl e, s1) \<Rightarrow> (Inl e, s1)
      | (Inr files, s1) \<Rightarrow>
         (let now = (if go_Now opts = 0 then time_Now else go_Now opts);
              by = (if go_By opts = [] then ''drill'' else go_By opts)
          in if by \<noteq> ''drill'' \<and> by \<noteq> ''control'' then (Inl (Msg ''gate by %q unsupported (drill|control)'' [AQuo by]), s1)
          else
           (let groups = gate_groups files by;
                names = sort (if go_Subjects opts = [] then map fst groups else go_Subjects opts)
            in (case gate_loop js cr srt (group_look groups) opts now names s1 of (sts, n, s2) \<Rightarrow>
              (Inr \<lparr>gr_GeneratedAt = now, gr_EvidenceDir = go_Dir opts, gr_By = by,
                 gr_MaxAge = (if go_MaxAge opts > 0 then Some (go_MaxAge opts) else None),
                 gr_Subjects = sts, gr_Violations = n\<rparr>, s2)))))"

section \<open>What the gate decides\<close>

abbreviation fin :: "evidenceFile \<Rightarrow> gotime" where "fin r \<equiv> ev_FinishedAt (ef_E r)"
abbreviation ver :: "evidenceFile \<Rightarrow> bool" where "ver r \<equiv> ev_Verified (ef_E r)"

text \<open>The sorting the gate relies on is one of evidence files, newest first.\<close>

abbreviation sorts_runs :: "(evidenceFile list \<Rightarrow> evidenceFile list) \<Rightarrow> bool" where
  "sorts_runs srt \<equiv> slice_sort srt fin"

text \<open>\<open>r\<close> is a run of \<open>runs\<close> with property \<open>P\<close> and none with it finished later.\<close>

definition newest_run :: "(evidenceFile \<Rightarrow> bool) \<Rightarrow> evidenceFile list \<Rightarrow> evidenceFile \<Rightarrow> bool" where
  "newest_run P runs r \<longleftrightarrow> r \<in> set runs \<and> P r \<and> (\<forall>x \<in> set runs. P x \<longrightarrow> fin x \<le> fin r)"

lemma age_violations_Nil:
  assumes "case v of None \<Rightarrow> \<forall>x \<in> set runs. \<not> ver x | Some r \<Rightarrow> newest_run ver runs r"
  shows "age_violations opts now v = [] \<longleftrightarrow>
    (go_MaxAge opts > 0 \<longrightarrow> (\<exists>r \<in> set runs. ver r \<and> time_Sub now (fin r) \<le> go_MaxAge opts))"
proof (cases v)
  case None
  then show ?thesis using assms by (auto simp: age_violations_def)
next
  case (Some r)
  then have r: "newest_run ver runs r" using assms by simp
  have "(\<exists>x \<in> set runs. ver x \<and> time_Sub now (fin x) \<le> go_MaxAge opts) \<longleftrightarrow> time_Sub now (fin r) \<le> go_MaxAge opts"
    using r time_Sub_antimono order_trans unfolding newest_run_def by metis
  then show ?thesis using Some by (auto simp: age_violations_def not_less)
qed

lemma evaluate_cases:
  assumes "sorts_runs srt" and "runs \<noteq> []"
  obtains latest v where "newest_run (\<lambda>_. True) runs latest"
    and "case v of None \<Rightarrow> \<forall>x \<in> set runs. \<not> ver x | Some r \<Rightarrow> newest_run ver runs r"
    and "evaluate js cr srt name runs opts now s =
      (let sigOn = (case v of None \<Rightarrow> latest | Some r \<Rightarrow> r); signed = (fst (Verify js cr (ef_Path sigOn) (go_PublicKey opts) s) = None) in
       (\<lparr>ss_Subject = name, ss_Runs = length runs, ss_LastRun = Some (fin latest), ss_LastVerified = map_option fin v,
         ss_Signed = signed,
         ss_Violations =
           (if \<not> ver latest \<and> \<not> go_AllowUnverified opts then [Msg ''latest run did not verify recovery'' []] else []) @
           age_violations opts now v @ (if go_RequireSigned opts \<and> \<not> signed then [unsigned_violation opts] else []),
         ss_Evidence = ef_Path latest\<rparr>, snd (Verify js cr (ef_Path sigOn) (go_PublicKey opts) s)))"
proof -
  obtain latest rest where l: "srt runs = latest # rest"
    using slice_sort.srt_Nil[OF assms(1)] assms(2) by (meson neq_Nil_conv)
  have newest: "newest_run (\<lambda>_. True) runs latest"
    using slice_sort.hd_srt_max[OF assms(1,2)] l by (simp add: newest_run_def)
  define v where "v = find ver (srt runs)"
  have ver: "case v of None \<Rightarrow> \<forall>x \<in> set runs. \<not> ver x | Some r \<Rightarrow> newest_run ver runs r"
  proof (cases v)
    case None
    then show ?thesis using slice_sort.find_srt_None[OF assms(1), of ver runs] v_def by simp
  next
    case (Some r)
    then show ?thesis using slice_sort.find_srt_max[OF assms(1), of ver runs r] v_def by (auto simp: newest_run_def)
  qed
  have l0: "srt runs ! 0 = latest" using l by simp
  show thesis
    by (rule that[OF newest ver], unfold evaluate_def Let_def l0 v_def[symmetric])
      (use assms(2) in \<open>simp split: prod.splits\<close>)
qed

text \<open>
  C28: when a subject passes the gate. With no evidence it never does. Otherwise it passes exactly when the
  newest run verified (or unverified runs are allowed), some verified run is no older than
  \<open>MaxAge\<close> (when that is positive), and, where signatures are required, the newest verified run (the newest
  run, if none verified) has a signature that validates under the pinned key. The answer does not depend on how \<open>sort.Slice\<close>
  orders runs that finished at the same instant, except through which of them is called newest.
\<close>

theorem evaluate_passes_iff:
  assumes "sorts_runs srt"
  shows "if runs = [] then \<not> OK (fst (evaluate js cr srt name runs opts now s))
    else (\<exists>latest sigOn. newest_run (\<lambda>_. True) runs latest \<and>
      (if \<exists>r \<in> set runs. ver r then newest_run ver runs sigOn else sigOn = latest) \<and>
      (OK (fst (evaluate js cr srt name runs opts now s)) \<longleftrightarrow>
        (ver latest \<or> go_AllowUnverified opts) \<and>
        (go_MaxAge opts > 0 \<longrightarrow> (\<exists>r \<in> set runs. ver r \<and> time_Sub now (fin r) \<le> go_MaxAge opts)) \<and>
        (go_RequireSigned opts \<longrightarrow> fst (Verify js cr (ef_Path sigOn) (go_PublicKey opts) s) = None)))"
proof (cases "runs = []")
  case True
  then show ?thesis by (simp add: evaluate_def OK_def)
next
  case False
  obtain latest v where l: "newest_run (\<lambda>_. True) runs latest"
    and v: "case v of None \<Rightarrow> \<forall>x \<in> set runs. \<not> ver x | Some r \<Rightarrow> newest_run ver runs r"
    and e: "evaluate js cr srt name runs opts now s =
      (let sigOn = (case v of None \<Rightarrow> latest | Some r \<Rightarrow> r); signed = (fst (Verify js cr (ef_Path sigOn) (go_PublicKey opts) s) = None) in
       (\<lparr>ss_Subject = name, ss_Runs = length runs, ss_LastRun = Some (fin latest), ss_LastVerified = map_option fin v,
         ss_Signed = signed,
         ss_Violations =
           (if \<not> ver latest \<and> \<not> go_AllowUnverified opts then [Msg ''latest run did not verify recovery'' []] else []) @
           age_violations opts now v @ (if go_RequireSigned opts \<and> \<not> signed then [unsigned_violation opts] else []),
         ss_Evidence = ef_Path latest\<rparr>, snd (Verify js cr (ef_Path sigOn) (go_PublicKey opts) s)))"
    by (rule evaluate_cases[OF assms False]) blast
  let ?sig = "case v of None \<Rightarrow> latest | Some r \<Rightarrow> r"
  have "if \<exists>r \<in> set runs. ver r then newest_run ver runs ?sig else ?sig = latest"
    using v by (auto simp: newest_run_def split: option.splits)
  moreover have "OK (fst (evaluate js cr srt name runs opts now s)) \<longleftrightarrow>
      (ver latest \<or> go_AllowUnverified opts) \<and> age_violations opts now v = [] \<and>
      (go_RequireSigned opts \<longrightarrow> fst (Verify js cr (ef_Path ?sig) (go_PublicKey opts) s) = None)"
    unfolding e by (simp add: OK_def Let_def)
  ultimately show ?thesis using False l age_violations_Nil[OF v, of opts now] by (simp only: if_False) blast
qed

definition demo_run :: "string \<Rightarrow> gotime \<Rightarrow> bool \<Rightarrow> evidenceFile" where
  "demo_run path t ok = \<lparr>ef_Path = path, ef_E = demo_evidence\<lparr>ev_FinishedAt := t, ev_Verified := ok\<rparr>\<rparr>"

definition demo_gate :: GateOptions where
  "demo_gate = \<lparr>go_Dir = ''evidence'', go_MaxAge = 10, go_By = [], go_Subjects = [''pay-1'', ''idle''], go_RequireSigned = False,
     go_PublicKey = None, go_AllowUnverified = True, go_Now = 12\<rparr>"

theorem evaluate_passes_iff_witness:
  "OK (fst (evaluate demo_json demo_crypto (sort_newest fin) ''pay-1'' [demo_run ''a'' 3 True, demo_run ''b'' 9 False] demo_gate 12 demo_os)) \<and>
   \<not> OK (fst (evaluate demo_json demo_crypto (sort_newest fin) ''pay-1'' [demo_run ''a'' 1 True, demo_run ''b'' 9 False] demo_gate 12 demo_os))"
  using evaluate_passes_iff[OF newest.slice_sort_axioms, of "[demo_run ''a'' 3 True, demo_run ''b'' 9 False]" demo_json demo_crypto "''pay-1''" demo_gate 12 demo_os]
    evaluate_passes_iff[OF newest.slice_sort_axioms, of "[demo_run ''a'' 1 True, demo_run ''b'' 9 False]" demo_json demo_crypto "''pay-1''" demo_gate 12 demo_os]
  by (auto simp: demo_run_def demo_gate_def time_Sub_def)

lemma evaluate_basic:
  "ss_Subject (fst (evaluate js cr srt name runs opts now s)) = name"
  "ss_Runs (fst (evaluate js cr srt name runs opts now s)) = length runs"
  "runs = [] \<Longrightarrow> \<not> OK (fst (evaluate js cr srt name runs opts now s))"
  by (simp_all add: evaluate_def OK_def Let_def split: prod.splits)

lemma gate_loop_spec:
  assumes "sorts_runs srt" and "gate_loop js cr srt groups opts now names s = (sts, n, t)"
  shows "map ss_Subject sts = names \<and> n = length (filter (\<lambda>st. \<not> OK st) sts) \<and>
    (\<forall>st \<in> set sts. ss_Runs st = length (groups (ss_Subject st)) \<and> (groups (ss_Subject st) = [] \<longrightarrow> \<not> OK st))"
  using assms(2)
proof (induction names arbitrary: groups s sts n t)
  case Nil
  then show ?case by simp
next
  case (Cons name names)
  obtain st s1 where e: "evaluate js cr srt name (groups name) opts now s = (st, s1)" by fastforce
  obtain sts' n' s2 where l: "gate_loop js cr srt (groups(name := srt (groups name))) opts now names s1 = (sts', n', s2)"
    using prod_cases3 by blast
  have "length ((groups(name := srt (groups name))) k) = length (groups k)" for k
    using slice_sort.length_srt[OF assms(1)] by simp
  moreover from this have "(groups(name := srt (groups name))) k = [] \<longleftrightarrow> groups k = []" for k
    by (metis length_0_conv)
  ultimately show ?case
    using Cons.prems Cons.IH[OF l] e l evaluate_basic[where srt = srt and js = js and cr = cr and name = name and runs = "groups name" and opts = opts and now = now and s = s] by auto
qed

lemma gate_groups_look:
  "group_look (gate_groups files by) k = concat (map (\<lambda>f. map (\<lambda>_. f) (filter ((=) k) (subjectsOf (ef_E f) by))) files)"
proof -
  have "map snd (filter (\<lambda>kv. fst kv = k) (map (\<lambda>k. (k, f)) ks)) = map (\<lambda>_. f) (filter ((=) k) ks)"
    for f :: evidenceFile and ks by (induction ks) auto
  then show ?thesis by (simp add: gate_groups_def grp.look_grouped filter_concat map_concat comp_def)
qed

lemma gate_groups_keys:
  "set (map fst (gate_groups files by)) = (\<Union>f \<in> set files. set (subjectsOf (ef_E f) by))"
  unfolding gate_groups_def grp.keys_grouped by force

definition gate_by :: "GateOptions \<Rightarrow> string" where
  "gate_by opts = (if go_By opts = [] then ''drill'' else go_By opts)"

lemma Gate_Inr:
  assumes "Gate un js cr srt time_Now opts s = (Inr rep, t)"
  obtains files s1 where "scanEvidence un (go_Dir opts) s = (Inr files, s1)"
    and "gate_loop js cr srt (group_look (gate_groups files (gate_by opts))) opts
           (if go_Now opts = 0 then time_Now else go_Now opts)
           (sort (if go_Subjects opts = [] then map fst (gate_groups files (gate_by opts)) else go_Subjects opts)) s1 =
         (gr_Subjects rep, gr_Violations rep, t)"
proof -
  obtain files s1 where f: "scanEvidence un (go_Dir opts) s = (Inr files, s1)"
    using assms by (auto simp: Gate_def split: prod.splits sum.splits)
  show thesis
    by (rule that[OF f])
      (use assms f in \<open>auto simp: Gate_def gate_by_def Let_def split: prod.splits if_splits\<close>)
qed

text \<open>
  C29: the report of the gate is complete. It has one status per required subject, in sorted order (for no required
  subjects: one per subject that occurs in the evidence); the number of violations is the number of subjects
  that fail; each status counts exactly the evidence of its subject, and a required subject without any
  evidence, a drill that quietly stopped running, is among the failing ones.
\<close>

theorem Gate_complete:
  assumes "sorts_runs srt" and "Gate un js cr srt time_Now opts s = (Inr rep, t)"
  shows "\<exists>files s1. scanEvidence un (go_Dir opts) s = (Inr files, s1) \<and>
    sorted (map ss_Subject (gr_Subjects rep)) \<and>
    (go_Subjects opts \<noteq> [] \<longrightarrow> mset (map ss_Subject (gr_Subjects rep)) = mset (go_Subjects opts)) \<and>
    (go_Subjects opts = [] \<longrightarrow>
       set (map ss_Subject (gr_Subjects rep)) = (\<Union>f \<in> set files. set (subjectsOf (ef_E f) (gate_by opts)))) \<and>
    gr_Violations rep = length (filter (\<lambda>st. \<not> OK st) (gr_Subjects rep)) \<and>
    (\<forall>st \<in> set (gr_Subjects rep).
       ss_Runs st = length (filter ((=) (ss_Subject st)) (concat (map (\<lambda>f. subjectsOf (ef_E f) (gate_by opts)) files))) \<and>
       (ss_Runs st = 0 \<longrightarrow> \<not> OK st))"
proof -
  obtain files s1 where f: "scanEvidence un (go_Dir opts) s = (Inr files, s1)"
    and l: "gate_loop js cr srt (group_look (gate_groups files (gate_by opts))) opts
           (if go_Now opts = 0 then time_Now else go_Now opts)
           (sort (if go_Subjects opts = [] then map fst (gate_groups files (gate_by opts)) else go_Subjects opts)) s1 =
         (gr_Subjects rep, gr_Violations rep, t)"
    by (rule Gate_Inr[OF assms(2)])
  note spec = gate_loop_spec[OF assms(1) l]
  have runs: "length (group_look (gate_groups files b) k) = length (filter ((=) k) (concat (map (\<lambda>f. subjectsOf (ef_E f) b) files)))"
    for b k unfolding gate_groups_look by (induction files) auto
  have names: "map ss_Subject (gr_Subjects rep) =
      sort (if go_Subjects opts = [] then map fst (gate_groups files (gate_by opts)) else go_Subjects opts)"
    using spec by blast
  have "set (map ss_Subject (gr_Subjects rep)) = (\<Union>f \<in> set files. set (subjectsOf (ef_E f) (gate_by opts)))"
    if "go_Subjects opts = []" using that gate_groups_keys unfolding names by simp
  moreover have "sorted (map ss_Subject (gr_Subjects rep))"
    "go_Subjects opts \<noteq> [] \<longrightarrow> mset (map ss_Subject (gr_Subjects rep)) = mset (go_Subjects opts)"
    unfolding names by simp_all
  ultimately show ?thesis using f spec runs by (intro exI[of _ files] exI[of _ s1]) (metis length_0_conv)
qed

lemma Gate_ok:
  "res_ok (fst (Gate un js cr srt time_Now opts s)) \<longleftrightarrow>
     res_ok (fst (scanEvidence un (go_Dir opts) s)) \<and> (gate_by opts = ''drill'' \<or> gate_by opts = ''control'')"
  by (cases "fst (scanEvidence un (go_Dir opts) s)") (auto simp: Gate_def gate_by_def Let_def split: prod.splits sum.splits)

lemma res_okE: "res_ok (fst p) \<Longrightarrow> (\<And>x t. p = (Inr x, t) \<Longrightarrow> P) \<Longrightarrow> P"
  by (cases p; cases "fst p") auto

definition demo_evidence_os :: OS where
  "demo_evidence_os = demo_os\<lparr>os_fs := [''evidence'' \<mapsto> Dir, ''evidence/r.json'' \<mapsto> File ''run'' 1, ''evidence/x.json'' \<mapsto> File ''junk'' 1],
     os_entries := (\<lambda>p. [\<lparr>de_Name = ''x.json'', de_IsDir = False, de_Info = Inr (4, 1)\<rparr>,
       \<lparr>de_Name = ''r.json'', de_IsDir = False, de_Info = Inr (3, 1)\<rparr>, \<lparr>de_Name = ''r.html'', de_IsDir = False, de_Info = Inr (3, 1)\<rparr>])\<rparr>"

definition demo_unEvidence :: "string \<Rightarrow> Evidence res" where
  "demo_unEvidence d = (if d = ''run'' then Inr demo_evidence else bad)"

lemma demo_glob:
  "glob_ok ''evidence/*.json''" "path_Join [''evidence'', ''*.json''] = ''evidence/*.json''"
  "path_Match ''*.json'' ''r.json'' = Inr True" "path_Match ''*.json'' ''x.json'' = Inr True" "path_Match ''*.json'' ''r.html'' = Inr False"
  "path_Join [''evidence'', ''r.json''] = ''evidence/r.json''" "path_Join [''evidence'', ''x.json''] = ''evidence/x.json''"
  "hasMeta ''evidence/*.json''" "\<not> hasMeta ''evidence''" "path_Split ''evidence/*.json'' = (''evidence/'', ''*.json'')"
  by code_simp+

lemma demo_scan:
  "fst (scanEvidence demo_unEvidence ''evidence'' demo_evidence_os) = Inr [\<lparr>ef_Path = ''evidence/r.json'', ef_E = demo_evidence\<rparr>]"
  by (simp add: scanEvidence_def filepath_Glob.simps demo_glob cleanGlobPath_def glob_dir_def os_Stat_def os_ReadDir_def
      os_ReadFile_def demo_evidence_os_def demo_os_def demo_unEvidence_def bad_def demo_evidence_def)

theorem Gate_complete_witness:
  "\<exists>rep t. Gate demo_unEvidence demo_json demo_crypto (sort_newest fin) 0 demo_gate demo_evidence_os = (Inr rep, t) \<and>
     map ss_Subject (gr_Subjects rep) = [''idle'', ''pay-1''] \<and> 1 \<le> gr_Violations rep"
proof -
  obtain s1 where sc: "scanEvidence demo_unEvidence ''evidence'' demo_evidence_os = (Inr [\<lparr>ef_Path = ''evidence/r.json'', ef_E = demo_evidence\<rparr>], s1)"
    using demo_scan by (metis prod.collapse)
  obtain rep t where g: "Gate demo_unEvidence demo_json demo_crypto (sort_newest fin) 0 demo_gate demo_evidence_os = (Inr rep, t)"
    by (rule res_okE[of "Gate demo_unEvidence demo_json demo_crypto (sort_newest fin) 0 demo_gate demo_evidence_os"])
      (use sc in \<open>auto simp: Gate_ok gate_by_def demo_gate_def\<close>)
  note c = Gate_complete[OF newest.slice_sort_axioms g, unfolded demo_gate_def, simplified, unfolded sc, simplified]
  have m: "mset (map ss_Subject (gr_Subjects rep)) = mset [''idle'', ''pay-1'']" using c by simp
  have so: "sorted [''idle'', ''pay-1'']" by (simp add: less_eq_char_def less_list_code)
  have sr: "sorted (map ss_Subject (gr_Subjects rep))" using c by blast
  have names: "map ss_Subject (gr_Subjects rep) = [''idle'', ''pay-1'']"
    using properties_for_sort[OF m sr] properties_for_sort[OF refl so] by simp
  then obtain st where st: "st \<in> set (gr_Subjects rep)" "ss_Subject st = ''idle''"
    by (cases "gr_Subjects rep") auto
  have "\<not> OK st" using c st by (auto simp: subjectsOf_def gate_by_def demo_evidence_def)
  then have "st \<in> set (filter (\<lambda>st. \<not> OK st) (gr_Subjects rep))" using st by simp
  then have "1 \<le> gr_Violations rep" using c by (metis One_nat_def Suc_leI length_pos_if_in_set)
  then show ?thesis using g names by (intro exI conjI)
qed

section \<open>What a pass means\<close>

text \<open>Scanning reads: the files stay as they are, and a scanned run is a file of the system that decodes to it.\<close>

lemma glob_fs: "os_fs (snd (glob_dir d p s)) = os_fs s" "os_fs (snd (glob_dirs ds p s)) = os_fs s"
proof -
  have g: "os_fs (snd (glob_dir d p s)) = os_fs s" for d s
    by (auto simp: glob_dir_def os_Stat_def os_ReadDir_def split: prod.splits sum.splits bool.splits)
  show "os_fs (snd (glob_dir d p s)) = os_fs s" by (rule g)
  show "os_fs (snd (glob_dirs ds p s)) = os_fs s"
  proof (induction ds arbitrary: s)
    case (Cons d ds)
    then show ?case using g[of d s] by (auto split: prod.splits) (metis snd_conv)
  qed simp
qed

lemma filepath_Glob_fs: "os_fs (snd (filepath_Glob pattern s)) = os_fs s"
proof (induction pattern s rule: filepath_Glob.induct)
  case (1 pattern s)
  obtain dir0 fn where sp: "path_Split pattern = (dir0, fn)" by fastforce
  obtain r s1 where g: "filepath_Glob (cleanGlobPath dir0) s = (r, s1)" by fastforce
  have d: "os_fs (snd (glob_dir (cleanGlobPath dir0) fn s)) = os_fs s" "os_fs (snd (glob_dirs ds fn s1)) = os_fs s1" for ds
    by (rule glob_fs)+
  show ?case
  proof (cases "glob_ok pattern \<and> hasMeta pattern \<and> hasMeta (cleanGlobPath dir0)")
    case True
    then have "os_fs s1 = os_fs s" using 1[OF _ _ sp[symmetric] refl] g by simp
    then show ?thesis using True d(2) unfolding filepath_Glob.simps[of pattern] by (cases r) (auto simp: sp g Let_def split: prod.splits, metis snd_conv)
  next
    case False
    then show ?thesis using d(1) unfolding filepath_Glob.simps[of pattern] by (auto simp: sp Let_def os_Stat_def split: prod.splits sum.splits)
  qed
qed

lemma scan_files_Inr:
  assumes "scan_files un ps s = (Inr fs, t)"
  shows "os_fs t = os_fs s \<and> (\<forall>f \<in> set fs. \<exists>data m. os_fs s (ef_Path f) = Some (File data m) \<and> un data = Inr (ef_E f))"
  using assms
proof (induction ps arbitrary: s fs)
  case (Cons p ps)
  obtain data s1 gs where r: "os_ReadFile p s = (Inr data, s1)" and l: "scan_files un ps s1 = (Inr gs, t)"
    and fs: "set fs \<subseteq> set gs \<union> {f. ef_Path f = p \<and> un data = Inr (ef_E f)}"
    using Cons.prems by (auto split: prod.splits sum.splits if_splits)
  have "os_fs s1 = os_fs s" using r os_read_fs(1) by (metis snd_conv)
  then show ?case using Cons.IH[OF l] os_ReadFile_Inr[OF r] fs by fastforce
qed simp

lemma scanEvidence_Inr:
  assumes "scanEvidence un dir s = (Inr files, t)"
  shows "os_fs t = os_fs s" and "f \<in> set files \<Longrightarrow> \<exists>data m. os_fs s (ef_Path f) = Some (File data m) \<and> un data = Inr (ef_E f)"
proof -
  obtain ms s1 where g: "filepath_Glob (path_Join [dir, ''*.json'']) s = (Inr ms, s1)" and f: "scan_files un ms s1 = (Inr files, t)"
    using assms by (auto simp: scanEvidence_def split: prod.splits sum.splits)
  have "os_fs s1 = os_fs s" using filepath_Glob_fs g by (metis snd_conv)
  then show "os_fs t = os_fs s" "f \<in> set files \<Longrightarrow> \<exists>data m. os_fs s (ef_Path f) = Some (File data m) \<and> un data = Inr (ef_E f)"
    using scan_files_Inr[OF f] by auto
qed

lemma Verify_None:
  assumes "fst (Verify js cr path trusted s) = None"
  shows "\<exists>data m sigData m' pub. os_fs s path = Some (File data m) \<and> os_fs s (path @ ''.sig'') = Some (File sigData m') \<and>
    signed_by js cr sigData pub data \<and> (\<forall>k. trusted = Some k \<longrightarrow> k = pub)"
proof -
  obtain data s1 sigData s2 where r: "os_ReadFile path s = (Inr data, s1)" "os_ReadFile (path @ ''.sig'') s1 = (Inr sigData, s2)"
    and c: "check_signature js cr trusted data sigData = None"
    using assms by (auto simp: Verify_def split: prod.splits sum.splits)
  have "os_fs s1 = os_fs s" using r(1) os_read_fs(1) by (metis snd_conv)
  then show ?thesis using os_ReadFile_Inr[OF r(1)] os_ReadFile_Inr[OF r(2)] check_signature_None[OF c] by auto
qed

text \<open>The run a passing subject rests on: verified, recent, signed.\<close>

lemma evaluate_OK:
  assumes "sorts_runs srt" and "OK (fst (evaluate js cr srt name runs opts now s))" and "\<not> go_AllowUnverified opts"
  obtains r where "r \<in> set runs" "ver r" "go_MaxAge opts > 0 \<Longrightarrow> time_Sub now (fin r) \<le> go_MaxAge opts"
    "go_RequireSigned opts \<Longrightarrow> fst (Verify js cr (ef_Path r) (go_PublicKey opts) s) = None"
proof -
  have ne: "runs \<noteq> []" using assms(2) evaluate_basic(3) by blast
  obtain latest v where l: "newest_run (\<lambda>_. True) runs latest" and v: "case v of None \<Rightarrow> \<forall>x \<in> set runs. \<not> ver x | Some r \<Rightarrow> newest_run ver runs r"
    and e: "evaluate js cr srt name runs opts now s =
      (let sigOn = (case v of None \<Rightarrow> latest | Some r \<Rightarrow> r); signed = (fst (Verify js cr (ef_Path sigOn) (go_PublicKey opts) s) = None) in
       (\<lparr>ss_Subject = name, ss_Runs = length runs, ss_LastRun = Some (fin latest), ss_LastVerified = map_option fin v,
         ss_Signed = signed,
         ss_Violations =
           (if \<not> ver latest \<and> \<not> go_AllowUnverified opts then [Msg ''latest run did not verify recovery'' []] else []) @
           age_violations opts now v @ (if go_RequireSigned opts \<and> \<not> signed then [unsigned_violation opts] else []),
         ss_Evidence = ef_Path latest\<rparr>, snd (Verify js cr (ef_Path sigOn) (go_PublicKey opts) s)))"
    by (rule evaluate_cases[OF assms(1) ne])
  have ver: "ver latest" "age_violations opts now v = []"
    "go_RequireSigned opts \<Longrightarrow> fst (Verify js cr (ef_Path (case v of None \<Rightarrow> latest | Some r \<Rightarrow> r)) (go_PublicKey opts) s) = None"
    using assms(2,3) by (auto simp: e OK_def Let_def split: if_splits)
  then obtain r where r: "v = Some r" using l v by (cases v) (auto simp: newest_run_def)
  show thesis
    by (rule that[of r]) (use r v ver in \<open>auto simp: newest_run_def age_violations_def split: if_splits\<close>)
qed

lemma evaluate_fs: "os_fs (snd (evaluate js cr srt name runs opts now s)) = os_fs s"
  by (auto simp: evaluate_def Let_def Verify_def os_ReadFile_def split: prod.splits sum.splits)

lemma gate_loop_OK:
  assumes "sorts_runs srt" and "gate_loop js cr srt groups opts now names s = (sts, n, t)" and "st \<in> set sts"
  shows "\<exists>runs s1. mset runs = mset (groups (ss_Subject st)) \<and> os_fs s1 = os_fs s \<and> st = fst (evaluate js cr srt (ss_Subject st) runs opts now s1)"
  using assms(2,3)
proof (induction names arbitrary: groups s sts n)
  case (Cons name names)
  obtain st0 s1 where e: "evaluate js cr srt name (groups name) opts now s = (st0, s1)" by fastforce
  obtain sts' n' s2 where l: "gate_loop js cr srt (groups(name := srt (groups name))) opts now names s1 = (sts', n', s2)" using prod_cases3 by blast
  have fs: "os_fs s1 = os_fs s" using evaluate_fs e by (metis snd_conv)
  have n: "ss_Subject st0 = name" using evaluate_basic(1) e by (metis fst_conv)
  show ?case
  proof (cases "st \<in> set sts'")
    case True
    have t: "s2 = t" using Cons.prems(1) e l by auto
    obtain runs v where "mset runs = mset ((groups(name := srt (groups name))) (ss_Subject st))" "os_fs v = os_fs s1"
      "st = fst (evaluate js cr srt (ss_Subject st) runs opts now v)" using Cons.IH[OF l[unfolded t] True] by blast
    moreover have "mset ((groups(name := srt (groups name))) k) = mset (groups k)" for k using slice_sort.perm[OF assms(1)] by simp
    ultimately show ?thesis using fs by metis
  next
    case False
    then have "st = st0" using Cons.prems e l by auto
    then show ?thesis using e n by (intro exI[of _ "groups name"] exI[of _ s]) simp
  qed
qed simp

text \<open>A report without violations, asked for named drills: each has evidence that verified, is recent where an age is set, and carries a signature of the pinned
  key where one is set.\<close>

lemma Gate_no_violations:
  assumes "sorts_runs srt" and "Gate un js cr srt time_Now opts s = (Inr rep, t)" and "gr_Violations rep = 0"
    and "\<not> go_AllowUnverified opts" and "go_RequireSigned opts" and "go_MaxAge opts > 0" and "go_Now opts = 0" and "gate_by opts = ''drill''" and "name \<in> set (go_Subjects opts)"
  shows "\<exists>path data m e sigData m' pub. os_fs s path = Some (File data m) \<and> un data = Inr e \<and> ev_Drill e = name \<and> ev_Verified e \<and>
    time_Sub time_Now (ev_FinishedAt e) \<le> go_MaxAge opts \<and> os_fs s (path @ ''.sig'') = Some (File sigData m') \<and>
    signed_by js cr sigData pub data \<and> (\<forall>k. go_PublicKey opts = Some k \<longrightarrow> k = pub)"
proof -
  obtain files s1 where f: "scanEvidence un (go_Dir opts) s = (Inr files, s1)"
    and l: "gate_loop js cr srt (group_look (gate_groups files (gate_by opts))) opts (if go_Now opts = 0 then time_Now else go_Now opts)
           (sort (if go_Subjects opts = [] then map fst (gate_groups files (gate_by opts)) else go_Subjects opts)) s1 =
         (gr_Subjects rep, gr_Violations rep, t)"
    by (rule Gate_Inr[OF assms(2)])
  note spec = gate_loop_spec[OF assms(1) l]
  have "name \<in> set (map ss_Subject (gr_Subjects rep))" using spec assms(9) by (auto split: if_splits)
  then obtain st where st: "st \<in> set (gr_Subjects rep)" "ss_Subject st = name" by auto
  have ok: "OK st" using spec assms(3) st(1) by (metis (mono_tags, lifting) filter_empty_conv length_0_conv)
  obtain runs s2 where r: "mset runs = mset (group_look (gate_groups files ''drill'') name)" "os_fs s2 = os_fs s1"
    "st = fst (evaluate js cr srt name runs opts time_Now s2)"
    using gate_loop_OK[OF assms(1) l st(1)] assms(7,8) st(2) by auto
  obtain x where x: "x \<in> set runs" "ver x" "time_Sub time_Now (fin x) \<le> go_MaxAge opts" "fst (Verify js cr (ef_Path x) (go_PublicKey opts) s2) = None"
    using evaluate_OK[OF assms(1) ok[unfolded r(3)] assms(4)] assms(5,6) by metis
  have "x \<in> set files" "ev_Drill (ef_E x) = name"
    using x(1) mset_eq_setD[OF r(1)] by (auto simp: gate_groups_look subjectsOf_def split: if_splits)
  moreover have fs: "os_fs s2 = os_fs s" using r(2) scanEvidence_Inr(1)[OF f] by simp
  moreover obtain data m where d: "os_fs s (ef_Path x) = Some (File data m)" "un data = Inr (ef_E x)"
    using scanEvidence_Inr(2)[OF f calculation(1)] by blast
  moreover obtain sigData m' pub where "os_fs s (ef_Path x @ ''.sig'') = Some (File sigData m')" "signed_by js cr sigData pub data"
    "\<forall>k. go_PublicKey opts = Some k \<longrightarrow> k = pub" using Verify_None[OF x(4)] d(1) unfolding fs by auto
  ultimately show ?thesis using x(2,3) by blast
qed

section \<open>Reports by control, history and scorecard\<close>

record ControlEntry =
  ce_Drill :: string
  ce_FinishedAt :: gotime
  ce_Verified :: bool
  ce_Restore :: duration
  ce_RTOMet :: bool
  ce_RPOMet :: bool
  ce_EvidenceFile :: string
  ce_Signed :: bool

record ControlReport =
  cp_GeneratedAt :: gotime
  cp_EvidenceDir :: string
  cp_Controls :: "ControlEntry groups"
  cp_Unattributed :: nat

definition control_entry :: "evidenceFile \<Rightarrow> bool \<Rightarrow> ControlEntry" where
  "control_entry f signed =
     \<lparr>ce_Drill = ev_Drill (ef_E f), ce_FinishedAt = ev_FinishedAt (ef_E f), ce_Verified = ev_Verified (ef_E f),
      ce_Restore = em_Restore (ev_Measured (ef_E f)), ce_RTOMet = em_RTOMet (ev_Measured (ef_E f)),
      ce_RPOMet = em_RPOMet (ev_Measured (ef_E f)), ce_EvidenceFile = path_Base (ef_Path f), ce_Signed = signed\<rparr>"

fun control_loop :: "Json \<Rightarrow> Crypto \<Rightarrow> evidenceFile list \<Rightarrow> ControlEntry groups \<Rightarrow> nat \<Rightarrow> OS \<Rightarrow> ControlEntry groups \<times> nat \<times> OS" where
  "control_loop js cr [] cs n s = (cs, n, s)"
| "control_loop js cr (f # fs) cs n s =
     (case Verify js cr (ef_Path f) None s of (err, s1) \<Rightarrow>
      let entry = control_entry f (err = None) in
      if ev_Controls (ef_E f) = [] then control_loop js cr fs cs (Suc n) s1
      else control_loop js cr fs (fold (\<lambda>c. group_push c entry) (ev_Controls (ef_E f)) cs) n s1)"

definition BuildControlReport ::
  "(string \<Rightarrow> Evidence res) \<Rightarrow> Json \<Rightarrow> Crypto \<Rightarrow> (ControlEntry list \<Rightarrow> ControlEntry list) \<Rightarrow> gotime \<Rightarrow> string \<Rightarrow> OS \<Rightarrow>
   ControlReport res \<times> OS" where
  "BuildControlReport un js cr srt time_Now dir s =
     (case scanEvidence un dir s of
        (Inl e, s1) \<Rightarrow> (Inl e, s1)
      | (Inr files, s1) \<Rightarrow>
          (case control_loop js cr files [] 0 s1 of (cs, n, s2) \<Rightarrow>
            (Inr \<lparr>cp_GeneratedAt = time_Now, cp_EvidenceDir = dir, cp_Controls = map (\<lambda>(c, es). (c, srt es)) cs,
               cp_Unattributed = n\<rparr>, s2)))"

lemma group_look_map: "srt [] = [] \<Longrightarrow> group_look (map (\<lambda>(c, es). (c, srt es)) m) k = srt (group_look m k)"
  by (induction m) (auto simp: group_look_def split: option.splits)

text \<open>Reading changes no file, so without faults a signature check does not depend on when it is made.\<close>

lemma Verify_reads: "os_fs (snd (Verify js cr path k s)) = os_fs s \<and> (os_healthy s \<longrightarrow> os_healthy (snd (Verify js cr path k s)))"
  by (auto simp: Verify_def os_ReadFile_def os_healthy_def split: prod.splits sum.splits)

lemma Verify_healthy:
  "os_healthy s \<Longrightarrow> os_healthy t \<Longrightarrow> os_fs s = os_fs t \<Longrightarrow> fst (Verify js cr path k s) = fst (Verify js cr path k t)"
  by (auto simp: Verify_def os_ReadFile_def split: prod.splits sum.splits)

definition signed_in :: "Json \<Rightarrow> Crypto \<Rightarrow> OS \<Rightarrow> evidenceFile \<Rightarrow> bool" where
  "signed_in js cr s f \<longleftrightarrow> fst (Verify js cr (ef_Path f) None s) = None"

text \<open>The entries of a control, in the order of the files.\<close>

definition entries_of :: "Json \<Rightarrow> Crypto \<Rightarrow> OS \<Rightarrow> string \<Rightarrow> evidenceFile list \<Rightarrow> ControlEntry list" where
  "entries_of js cr s c fs =
     concat (map (\<lambda>f. map (\<lambda>_. control_entry f (signed_in js cr s f)) (filter ((=) c) (ev_Controls (ef_E f)))) fs)"

lemma entries_of_cong: "os_healthy s \<Longrightarrow> os_healthy t \<Longrightarrow> os_fs s = os_fs t \<Longrightarrow> entries_of js cr s c fs = entries_of js cr t c fs"
  unfolding entries_of_def signed_in_def using Verify_healthy[of s t js cr] by presburger

lemma look_push_same: "group_look (fold (\<lambda>k. group_push k v) ks m) c = group_look m c @ map (\<lambda>_. v) (filter ((=) c) ks)"
  by (induction ks arbitrary: m) (auto simp: grp.look_push)

lemma control_loop_spec:
  assumes "control_loop js cr fs cs n s = (cs', n', t)" and "os_healthy s"
  shows "n' = n + length (filter (\<lambda>f. ev_Controls (ef_E f) = []) fs) \<and>
    group_look cs' c = group_look cs c @ entries_of js cr s c fs"
  using assms
proof (induction fs arbitrary: cs n s)
  case Nil
  then show ?case by (simp add: entries_of_def)
next
  case (Cons f fs)
  obtain err s1 where v: "Verify js cr (ef_Path f) None s = (err, s1)" by fastforce
  have s1: "os_healthy s1" "os_fs s1 = os_fs s" using Verify_reads[of js cr "ef_Path f" None s] v Cons.prems(2) by auto
  have e: "entries_of js cr s1 c fs = entries_of js cr s c fs" by (rule entries_of_cong) (use s1 Cons.prems(2) in auto)
  have f: "entries_of js cr s c (f # fs) =
      map (\<lambda>_. control_entry f (err = None)) (filter ((=) c) (ev_Controls (ef_E f))) @ entries_of js cr s c fs"
    using v by (simp add: entries_of_def signed_in_def)
  show ?case
  proof (cases "ev_Controls (ef_E f) = []")
    case True
    then show ?thesis using Cons.prems(1) Cons.IH[OF _ s1(1), of cs "Suc n"] v e f by (simp add: Let_def)
  next
    case False
    then show ?thesis using Cons.prems(1) Cons.IH[OF _ s1(1)] v e f by (simp add: Let_def look_push_same)
  qed
qed

lemma entries_of_set:
  "set (entries_of js cr s c fs) = {control_entry f (signed_in js cr s f) |f. f \<in> set fs \<and> c \<in> set (ev_Controls (ef_E f))}"
  by (auto simp: entries_of_def)

text \<open>
  C30: the control report attributes every run. For each control the entries are exactly those of the evidence files
  that declare it, newest first, marked signed exactly when the detached signature validates; and the files
  that declare none are counted. (No system call fails.)
\<close>

theorem BuildControlReport_complete:
  assumes "slice_sort srt ce_FinishedAt" and "os_healthy s1" and "scanEvidence un dir s = (Inr files, s1)"
  shows "\<exists>rep t. BuildControlReport un js cr srt time_Now dir s = (Inr rep, t) \<and>
    (\<forall>c. mset (group_look (cp_Controls rep) c) = mset (entries_of js cr s1 c files) \<and>
         sorted_wrt (\<lambda>a b. ce_FinishedAt b \<le> ce_FinishedAt a) (group_look (cp_Controls rep) c)) \<and>
    cp_Unattributed rep = length (filter (\<lambda>f. ev_Controls (ef_E f) = []) files)"
proof -
  obtain cs n s2 where l: "control_loop js cr files [] 0 s1 = (cs, n, s2)" using prod_cases3 by blast
  have look: "group_look cs c = entries_of js cr s1 c files" for c
    using control_loop_spec[OF l assms(2), of c] by (simp add: grp.look_empty)
  have "srt [] = []" using slice_sort.srt_Nil[OF assms(1)] by simp
  note sorted = group_look_map[of srt, OF this]
  have n: "n = length (filter (\<lambda>f. ev_Controls (ef_E f) = []) files)" using control_loop_spec[OF l assms(2)] by simp
  show ?thesis
    unfolding BuildControlReport_def assms(3) prod.case sum.case l
    by (simp add: sorted look n slice_sort.perm[OF assms(1)] slice_sort.newest_first[OF assms(1)])
qed

theorem BuildControlReport_complete_witness:
  "\<exists>rep t. BuildControlReport demo_unEvidence demo_json demo_crypto (sort_newest ce_FinishedAt) 5 ''evidence'' demo_evidence_os = (Inr rep, t) \<and>
     cp_Unattributed rep = 0 \<and> length (group_look (cp_Controls rep) ''SOC2'') = 1"
proof -
  obtain s1 where sc: "scanEvidence demo_unEvidence ''evidence'' demo_evidence_os = (Inr [\<lparr>ef_Path = ''evidence/r.json'', ef_E = demo_evidence\<rparr>], s1)"
    using demo_scan by (metis prod.collapse)
  then have "os_healthy s1"
    by (auto simp: scanEvidence_def filepath_Glob.simps demo_glob cleanGlobPath_def glob_dir_def os_Stat_def os_ReadDir_def
      os_ReadFile_def demo_evidence_os_def demo_os_def demo_unEvidence_def bad_def demo_evidence_def os_healthy_def)
  from BuildControlReport_complete[OF newest.slice_sort_axioms this sc, of demo_json demo_crypto 5]
  obtain rep t where r: "BuildControlReport demo_unEvidence demo_json demo_crypto (sort_newest ce_FinishedAt) 5 ''evidence'' demo_evidence_os = (Inr rep, t)"
    "mset (group_look (cp_Controls rep) ''SOC2'') = mset (entries_of demo_json demo_crypto s1 ''SOC2'' [\<lparr>ef_Path = ''evidence/r.json'', ef_E = demo_evidence\<rparr>])"
    "cp_Unattributed rep = 0" by (auto simp: demo_evidence_def)
  have "length (group_look (cp_Controls rep) ''SOC2'') = 1"
    using arg_cong[OF r(2), of size] by (simp add: entries_of_def demo_evidence_def)
  then show ?thesis using r by blast
qed

definition met :: "bool \<Rightarrow> string" where
  "met ok = (if ok then ''met'' else ''missed'')"

text \<open>The check mark, the cross, the dash and the ellipsis are UTF-8 encoded.\<close>

definition tick :: string where "tick = chars [0xE2, 0x9C, 0x93]"
definition cross :: string where "cross = chars [0xE2, 0x9C, 0x97]"
definition dash :: string where "dash = chars [0xE2, 0x80, 0x94]"
definition ellipsis :: string where "ellipsis = chars [0xE2, 0x80, 0xA6]"

definition yes :: "bool \<Rightarrow> string" where
  "yes ok = (if ok then tick else dash)"

definition mark :: "bool \<Rightarrow> string" where
  "mark ok = (if ok then tick else cross)"

definition trunc :: "string \<Rightarrow> nat \<Rightarrow> string" where
  "trunc s n = (if length s \<le> n then s else take (n - 1) s @ ellipsis)"

definition stamp :: "gotime option \<Rightarrow> msgarg" where
  "stamp t = (case t of None \<Rightarrow> AStr dash | Some x \<Rightarrow> AInt x)"

definition gate_row :: string where "gate_row = ''%-24s  %-17s  %-17s  %-6s  %s''"

definition gate_status :: "SubjectStatus \<Rightarrow> msgarg" where
  "gate_status st = (if OK st then AStr ''ok'' else AErr (Msg ''FAIL: '' (map AErr (ss_Violations st))))"

definition WriteText :: "GateReport \<Rightarrow> msg list" where
  "WriteText r =
     (if gr_Subjects r = [] then [Msg ''no %ss to check in %s'' [AStr (gr_By r), AStr (gr_EvidenceDir r)]]
      else
        [Msg gate_row [AStr (gr_By r), AStr ''LAST RUN (UTC)'', AStr ''LAST VERIFIED'', AStr ''SIGNED'', AStr ''STATUS'']] @
        map (\<lambda>st. Msg gate_row [AStr (trunc (ss_Subject st) 24), stamp (ss_LastRun st), stamp (ss_LastVerified st),
               AStr (yes (ss_Signed st)), gate_status st]) (gr_Subjects r) @
        [Msg ''%d %s(s): %d ok, %d failing'' [AInt (int (length (gr_Subjects r))), AStr (gr_By r),
           AInt (int (length (gr_Subjects r)) - int (gr_Violations r)), AInt (int (gr_Violations r))]])"

definition control_row :: "ControlEntry \<Rightarrow> msg" where
  "control_row e = Msg ''| %s | %s | %s | %s | %s | %s | %s | `%s` |''
     [AInt (ce_FinishedAt e), AStr (ce_Drill e), AStr (if ce_Verified e then ''verified'' else ''failed''),
      ADur (dur_Round (ce_Restore e) Second), AStr (met (ce_RTOMet e)), AStr (met (ce_RPOMet e)), AStr (yes (ce_Signed e)),
      AStr (ce_EvidenceFile e)]"

text \<open>The section of a control; \<open>entries[0]\<close> exists because a control is only added with an entry.\<close>

definition control_section :: "ControlReport \<Rightarrow> string \<Rightarrow> msg list" where
  "control_section r c =
     (let entries = group_look (cp_Controls r) c in
      [Msg ''## %s'' [AStr c],
       Msg ''%d drill run(s), %d verified. Latest run %s.''
         [AInt (int (length entries)), AInt (int (length (filter ce_Verified entries))), AInt (ce_FinishedAt (entries ! 0))],
       Msg ''| Date (UTC) | Drill | Result | Restore time | RTO | RPO | Signed | Evidence |'' [],
       Msg ''|---|---|---|---|---|---|---|---|'' []] @ map control_row entries @ [Msg [] []])"

definition WriteMarkdown :: "ControlReport \<Rightarrow> msg list" where
  "WriteMarkdown r =
     [Msg ''# Recovery-testing evidence by control'' [],
      Msg ''Generated %s from `%s`.'' [AInt (cp_GeneratedAt r), AStr (cp_EvidenceDir r)]] @
     (if cp_Controls r = [] then [Msg ''_No evidence with declared controls found._'' []]
      else concat (map (control_section r) (sort (map fst (cp_Controls r)))) @
        (if cp_Unattributed r > 0
         then [Msg ''_%d evidence file(s) declare no controls and are not attributed._'' [AInt (int (cp_Unattributed r))]] else []))"

record HistoryEntry =
  he_Drill :: string
  he_FinishedAt :: gotime
  he_Verified :: bool
  he_Restore :: duration
  he_BackupAge :: duration
  he_RTOMet :: bool
  he_RPOMet :: bool
  he_File :: string

definition history_entry :: "evidenceFile \<Rightarrow> HistoryEntry" where
  "history_entry f =
     \<lparr>he_Drill = ev_Drill (ef_E f), he_FinishedAt = ev_FinishedAt (ef_E f), he_Verified = ev_Verified (ef_E f),
      he_Restore = em_Restore (ev_Measured (ef_E f)), he_BackupAge = eb_Age (ev_Backup (ef_E f)),
      he_RTOMet = em_RTOMet (ev_Measured (ef_E f)), he_RPOMet = em_RPOMet (ev_Measured (ef_E f)),
      he_File = path_Base (ef_Path f)\<rparr>"

definition LoadHistory ::
  "(string \<Rightarrow> Evidence res) \<Rightarrow> (HistoryEntry list \<Rightarrow> HistoryEntry list) \<Rightarrow> string \<Rightarrow> string \<Rightarrow> OS \<Rightarrow> HistoryEntry list res \<times> OS" where
  "LoadHistory un srt dir drill s =
     (case scanEvidence un dir s of
        (Inl e, s1) \<Rightarrow> (Inl e, s1)
      | (Inr files, s1) \<Rightarrow>
          (Inr (srt (map history_entry (filter (\<lambda>f. \<not> (drill \<noteq> [] \<and> ev_Drill (ef_E f) \<noteq> drill)) files))), s1))"

definition history_row :: string where "history_row = ''%-19s  %-16s  %-8s  %-10s  %-4s %-4s  %s''"

definition WriteHistory :: "HistoryEntry list \<Rightarrow> msg list" where
  "WriteHistory entries =
     (if entries = [] then [Msg ''no drill evidence found'' []]
      else let maxRTO = fold (\<lambda>e m. if he_Restore e > m then he_Restore e else m) entries 0;
               pass = length (filter he_Verified entries)
       in [Msg history_row (map AStr [''WHEN (UTC)'', ''DRILL'', ''RESULT'', ''RESTORE'', ''RTO'', ''RPO'', ''TREND''])] @
          map (\<lambda>e. Msg history_row [AInt (he_FinishedAt e), AStr (trunc (he_Drill e) 16), AStr (if he_Verified e then ''ok'' else ''FAILED''),
                 ADur (dur_Round (he_Restore e) Second), AStr (mark (he_RTOMet e)), AStr (mark (he_RPOMet e)),
                 AErr (Msg ''bar'' [ADur (he_Restore e), ADur maxRTO, AInt 20])]) entries @
          [Msg ''%d run(s), %d verified (%.0f%%)'' [AInt (int (length entries)), AInt (int pass), AInt (100 * int pass), AInt (int (length entries))]])"

record Outcome =
  oc_Drill :: string
  oc_Evidence :: "Evidence option"
  oc_EvidencePath :: string
  oc_Err :: "msg option"

definition score_row :: string where "score_row = ''%-20s  %-10s  %-10s  %-4s %-4s  %s''"

definition rtoStr :: "Evidence \<Rightarrow> msgarg" where
  "rtoStr e = ADur (dur_Round (em_Restore (ev_Measured e)) Second)"

definition outcome_row :: "Outcome \<Rightarrow> string \<Rightarrow> Evidence \<Rightarrow> msg" where
  "outcome_row oc verdict e = Msg score_row [AStr (oc_Drill oc), AStr verdict, rtoStr e, AStr (mark (em_RTOMet (ev_Measured e))),
     AStr (mark (em_RPOMet (ev_Measured e))), AStr (oc_EvidencePath oc)]"

text \<open>\<open>WriteScorecard\<close>: the lines and the three counts. An outcome without an error and without evidence would be a
  nil dereference, \<open>None\<close> here.\<close>

fun score_loop :: "Outcome list \<Rightarrow> nat \<times> nat \<times> nat \<Rightarrow> (msg list \<times> nat \<times> nat \<times> nat) option" where
  "score_loop [] c = Some ([], c)"
| "score_loop (oc # ocs) (v, f, e) =
     (case oc_Err oc of
        Some err \<Rightarrow>
          map_option (\<lambda>(ls, c). (Msg score_row [AStr (oc_Drill oc), AStr ''ERROR'', AStr ''-'', AStr ''-'', AStr ''-'', AErr err] # ls, c))
            (score_loop ocs (v, f, Suc e))
      | None \<Rightarrow>
          (case oc_Evidence oc of
             None \<Rightarrow> None
           | Some ev \<Rightarrow>
               if ev_Verified ev
               then map_option (\<lambda>(ls, c). (outcome_row oc ''verified'' ev # ls, c)) (score_loop ocs (Suc v, f, e))
               else map_option (\<lambda>(ls, c). (outcome_row oc ''FAILED'' ev # ls, c)) (score_loop ocs (v, Suc f, e))))"

definition WriteScorecard :: "Outcome list \<Rightarrow> (msg list \<times> nat \<times> nat \<times> nat) option" where
  "WriteScorecard outcomes =
     map_option (\<lambda>(ls, v, f, e).
       ([Msg score_row (map AStr [''DRILL'', ''RESULT'', ''RESTORE'', ''RTO'', ''RPO'', ''EVIDENCE''])] @ ls @
        [Msg ''%d drill(s): %d verified, %d failed, %d errored''
          [AInt (int (length outcomes)), AInt (int v), AInt (int f), AInt (int e)]], v, f, e))
       (score_loop outcomes (0, 0, 0))"

text \<open>Exactly the outcomes of a fleet run: an error, or evidence.\<close>

definition oc_wf :: "Outcome \<Rightarrow> bool" where
  "oc_wf oc \<longleftrightarrow> oc_Err oc \<noteq> None \<or> oc_Evidence oc \<noteq> None"

definition oc_verified :: "Outcome \<Rightarrow> bool" where
  "oc_verified oc \<longleftrightarrow> oc_Err oc = None \<and> (\<exists>e. oc_Evidence oc = Some e \<and> ev_Verified e)"

lemma score_loop_counts:
  "list_all oc_wf ocs \<Longrightarrow> \<exists>ls. score_loop ocs (v, f, e) =
     Some (ls, v + length (filter oc_verified ocs),
       f + length (filter (\<lambda>oc. oc_Err oc = None \<and> \<not> oc_verified oc) ocs), e + length (filter (\<lambda>oc. oc_Err oc \<noteq> None) ocs)) \<and>
     length ls = length ocs"
proof (induction ocs arbitrary: v f e)
  case Nil
  then show ?case by simp
next
  case (Cons oc ocs)
  then have IH: "list_all oc_wf ocs" and wf: "oc_wf oc" by simp_all
  consider (err) x where "oc_Err oc = Some x" | (ver) ev where "oc_Err oc = None" "oc_Evidence oc = Some ev" "ev_Verified ev"
    | (failed) ev where "oc_Err oc = None" "oc_Evidence oc = Some ev" "\<not> ev_Verified ev"
    using wf by (auto simp: oc_wf_def)
  then show ?case
  proof cases
    case err
    then show ?thesis using Cons.IH[OF IH, of v f "Suc e"] by (auto simp: oc_verified_def)
  next
    case ver
    then show ?thesis using Cons.IH[OF IH, of "Suc v" f e] by (auto simp: oc_verified_def)
  next
    case failed
    then show ?thesis using Cons.IH[OF IH, of v "Suc f" e] by (auto simp: oc_verified_def)
  qed
qed

lemma WriteScorecard_counts:
  assumes "list_all oc_wf ocs"
  obtains ls v f e where "WriteScorecard ocs = Some (ls, v, f, e)" and "v = length (filter oc_verified ocs)"
    and "e = length (filter (\<lambda>oc. oc_Err oc \<noteq> None) ocs)" and "v + f + e = length ocs"
proof -
  obtain ls where ls: "score_loop ocs (0, 0, 0) = Some (ls, length (filter oc_verified ocs),
       length (filter (\<lambda>oc. oc_Err oc = None \<and> \<not> oc_verified oc) ocs), length (filter (\<lambda>oc. oc_Err oc \<noteq> None) ocs))"
    using score_loop_counts[OF assms, of 0 0 0] by auto
  have "length (filter oc_verified ocs) + length (filter (\<lambda>oc. oc_Err oc = None \<and> \<not> oc_verified oc) ocs) +
      length (filter (\<lambda>oc. oc_Err oc \<noteq> None) ocs) = length ocs"
    by (induction ocs) (auto simp: oc_verified_def)
  then show thesis using that ls by (simp add: WriteScorecard_def)
qed

text \<open>History keeps exactly the runs of the asked drill, oldest first; \<open>sort.Slice\<close> with \<open>Before\<close> is a sort by the negated time.\<close>

lemma LoadHistory_complete:
  assumes "slice_sort srt (\<lambda>e. - he_FinishedAt e)" and "scanEvidence un dir s = (Inr files, s1)"
  shows "\<exists>es. LoadHistory un srt dir drill s = (Inr es, s1) \<and>
    mset es = image_mset history_entry (mset (filter (\<lambda>f. drill = [] \<or> ev_Drill (ef_E f) = drill) files)) \<and>
    sorted_wrt (\<lambda>a b. he_FinishedAt a \<le> he_FinishedAt b) es"
  using slice_sort.perm[OF assms(1)] slice_sort.newest_first[OF assms(1)] by (auto simp: LoadHistory_def assms(2))

section \<open>Progress and HTML\<close>

record Printer =
  pr_Color :: bool

definition esc :: "string \<Rightarrow> string" where "esc code = CHR 0x1B # CHR ''['' # code"

definition green :: string where "green = esc ''32m''"
definition red :: string where "red = esc ''31m''"
definition dim :: string where "dim = esc ''2m''"
definition bold :: string where "bold = esc ''1m''"
definition reset :: string where "reset = esc ''0m''"

definition pr_c :: "Printer \<Rightarrow> string \<Rightarrow> string \<Rightarrow> string" where
  "pr_c p code s = (if \<not> pr_Color p then s else code @ s @ reset)"

definition bullet :: string where "bullet = chars [0xE2, 0x96, 0xB8]"

definition Step :: "Printer \<Rightarrow> string \<Rightarrow> string \<Rightarrow> bool \<Rightarrow> string" where
  "Step p action outcome ok =
     (let pad = (if 52 - int (length action) < 1 then 1 else nat (52 - int (length action)));
          status = (if \<not> ok then pr_c p red outcome else pr_c p green outcome)
      in bullet @ '' '' @ action @ '' '' @ pr_c p dim (replicate pad CHR ''.'') @ '' '' @ status @ [CHR 0x0A])"

definition Summary :: "Printer \<Rightarrow> Evidence \<Rightarrow> string \<Rightarrow> bool \<Rightarrow> msg list" where
  "Summary p e evidencePath signed =
     (let mk = (\<lambda>ok. if ok then pr_c p green tick else pr_c p red cross) in
      [Msg ''measured RTO %s (target %s %s)   RPO %s (target %s %s)''
         [ADur (dur_Round (em_Restore (ev_Measured e)) Second), ADur (ev_ObjectiveRTO e), AStr (mk (em_RTOMet (ev_Measured e))),
          ADur (dur_Round (eb_Age (ev_Backup e)) Minute), ADur (ev_ObjectiveRPO e), AStr (mk (em_RPOMet (ev_Measured e)))],
       Msg ''evidence %s%s'' [AStr evidencePath, AStr (if signed then ''  '' @ pr_c p dim (''(signed '' @ tick @ '')'') else [])],
       if ev_Verified e then Msg (pr_c p (bold @ green) ''RECOVERY VERIFIED - sandbox destroyed'') []
       else Msg (pr_c p (bold @ red) ''RECOVERY FAILED - see evidence for details'') []])"

text \<open>A line is aligned: the action and its dots take 52 columns unless the action is longer.\<close>

lemma Step_aligned:
  "\<not> pr_Color p \<Longrightarrow> length action < 52 \<Longrightarrow> length (Step p action outcome ok) = 59 + length outcome"
  by (cases ok) (simp_all add: Step_def pr_c_def bullet_def chars_def Let_def)

text \<open>\<open>WriteHTML\<close>: the template is a parameter that renders the evidence, or fails after writing a part.\<close>

definition WriteHTML :: "(Evidence \<Rightarrow> string \<times> msg option) \<Rightarrow> Evidence \<Rightarrow> string \<Rightarrow> OS \<Rightarrow> string res \<times> OS" where
  "WriteHTML tmpl e evidencePath s =
     (let path = trimSuffix evidencePath ''.json'' @ ''.html'' in
      case os_WriteFile path [] s of (Some err, s1) \<Rightarrow> (Inl err, s1) | (None, s1) \<Rightarrow>
     (case tmpl e of (out, terr) \<Rightarrow>
      case os_WriteFile path out s1 of
        (Some err, s2) \<Rightarrow> (Inl err, snd (os_Close s2))
      | (None, s2) \<Rightarrow>
         (case terr of
            Some err \<Rightarrow> (Inl err, snd (os_Close s2))
          | None \<Rightarrow> (case os_Close s2 of (None, s3) \<Rightarrow> (Inr path, s3) | (Some err, s3) \<Rightarrow> (Inl err, s3)))))"

lemma os_WriteFile_frameD: "os_WriteFile p d s = (x, t) \<Longrightarrow> os_frame {p} s t"
  using os_WriteFile_frame[of p s d] by simp

lemma WriteHTML_frame:
  "WriteHTML tmpl e p s = (r, t) \<Longrightarrow> os_frame {trimSuffix p ''.json'' @ ''.html''} s t"
  unfolding WriteHTML_def Let_def
  by (auto simp: os_Close_def split: prod.splits option.splits dest!: os_WriteFile_frameD
      intro: os_frame_trans_same os_frame_trans_same[OF _ os_frame_step])

end
