(* ===== verification/FD_Drivers.thy ===== *)
theory FD_Drivers
  imports FD_Verify FD_OS "HOL-Library.AList"
begin

text \<open>
  \<open>pkg/drivers\<close>: the registry (\<open>driver.go\<close>) and the three engines, \<open>postgres\<close>, \<open>mysql\<close> and
  \<open>mongodb\<close>. The Go interface \<open>Driver\<close> has these three implementations, so it is a datatype and
  each method a function on it.

  What a driver sees of a sandbox is a \<open>Box\<close>: the command runner, which acts on the outside state
  \<open>'w\<close>, and the connection facts. Backups are files of the \<open>OS\<close>; a command that reads one gets it as the stream that reading it delivers. A Go result \<open>(*RestoreResult, error)\<close>
  keeps both components.

  The lemmas: command lines never carry the password, the two quoting functions are inverted by the language
  that reads them whatever follows, the log scan reports the first line that is not startup noise, a restore
  without an error has run a tool on the stream of the opened backup that exited 0, and waiting for a restored cluster ends.
\<close>

section \<open>The driver interface\<close>

datatype Driver = Postgres | Mysql | Mongodb

record 'w Box =
  bx_Exec :: "string list \<Rightarrow> FileStream option \<Rightarrow> 'w \<Rightarrow> (int \<times> string \<times> msg option) \<times> 'w"
  bx_Host :: string
  bx_HostPort :: string
  bx_User :: string
  bx_Password :: string
  bx_DB :: string

record RestoreResult =
  rr_Duration :: duration
  rr_Output :: string
  rr_Format :: string
  rr_DSN :: string

type_synonym restored = "RestoreResult option \<times> msg option"

definition ellipsis_bytes :: string where "ellipsis_bytes = chars [0xE2, 0x80, 0xA6]"

definition tail :: "string \<Rightarrow> nat \<Rightarrow> string" where
  "tail s n = (if length s \<le> n then s else ellipsis_bytes @ drop (length s - n) s)"

fun Name :: "Driver \<Rightarrow> string" where
  "Name Postgres = ''postgres''"
| "Name Mysql = ''mysql''"
| "Name Mongodb = ''mongodb''"

fun Port :: "Driver \<Rightarrow> string" where
  "Port Postgres = ''5432/tcp''"
| "Port Mysql = ''3306/tcp''"
| "Port Mongodb = ''27017/tcp''"

section \<open>The registry\<close>

type_synonym registry = "(string \<times> Driver) list"

definition Register :: "Driver \<Rightarrow> registry \<Rightarrow> registry" where
  "Register d reg = AList.update (Name d) d reg"

text \<open>The three \<open>init\<close> functions; the order of a Go map is not specified and shows only in an error message.\<close>

definition the_registry :: registry where
  "the_registry = Register Postgres (Register Mysql (Register Mongodb []))"

definition Get :: "registry \<Rightarrow> string \<Rightarrow> Driver res" where
  "Get reg name = (case map_of reg name of None \<Rightarrow> Inl (Msg ''unknown driver %q'' [AQuo name]) | Some d \<Rightarrow> Inr d)"

definition Names :: "registry \<Rightarrow> string list" where
  "Names reg = map fst reg"

lemma Get_Register: "Get (Register d reg) name = (if name = Name d then Inr d else Get reg name)"
  by (simp add: Get_def Register_def update_conv')

lemma Get_empty [simp]: "Get [] name = Inl (Msg ''unknown driver %q'' [AQuo name])"
  by (simp add: Get_def)

lemma Get_Inr: "Get the_registry name = Inr d \<longleftrightarrow> Name d = name"
  by (cases d) (auto simp: the_registry_def Get_Register)

section \<open>Environment and readiness\<close>

abbreviation sq :: char where "sq \<equiv> CHR 0x27"
abbreviation dq :: char where "dq \<equiv> CHR 0x22"
abbreviation bs :: char where "bs \<equiv> CHR 0x5C"
abbreviation nl :: char where "nl \<equiv> CHR 0x0A"

definition pg_ContainerEnv :: "string \<Rightarrow> string \<Rightarrow> string \<Rightarrow> string list" where
  "pg_ContainerEnv user password db =
     [''POSTGRES_DB='' @ db, ''POSTGRES_USER='' @ user, ''POSTGRES_PASSWORD='' @ password]"

definition mysql_ContainerEnv :: "string \<Rightarrow> string \<Rightarrow> string \<Rightarrow> string list" where
  "mysql_ContainerEnv user password db =
     [''MYSQL_DATABASE='' @ db, ''MYSQL_USER='' @ user, ''MYSQL_PASSWORD='' @ password, ''MYSQL_RANDOM_ROOT_PASSWORD=yes'']"

definition mongo_ContainerEnv :: "string \<Rightarrow> string \<Rightarrow> string \<Rightarrow> string list" where
  "mongo_ContainerEnv user password db =
     [''MONGO_INITDB_ROOT_USERNAME='' @ user, ''MONGO_INITDB_ROOT_PASSWORD='' @ password, ''MONGO_INITDB_DATABASE='' @ db]"

fun ContainerEnv :: "Driver \<Rightarrow> string \<Rightarrow> string \<Rightarrow> string \<Rightarrow> string list" where
  "ContainerEnv Postgres = pg_ContainerEnv"
| "ContainerEnv Mysql = mysql_ContainerEnv"
| "ContainerEnv Mongodb = mongo_ContainerEnv"

lemmas ContainerEnv_defs [simp] = pg_ContainerEnv_def mysql_ContainerEnv_def mongo_ContainerEnv_def

definition shellWithPwd :: "string \<Rightarrow> string list" where
  "shellWithPwd cmd = [''sh'', ''-c'', ''export MYSQL_PWD='' @ [dq] @ ''$MYSQL_PASSWORD'' @ [dq] @ ''; exec '' @ cmd]"

definition authJS :: string where
  "authJS = ''db.getSiblingDB('' @ [dq] @ ''admin'' @ [dq] @
     '').auth(process.env.MONGO_INITDB_ROOT_USERNAME, process.env.MONGO_INITDB_ROOT_PASSWORD);''"

definition pg_ReadyCmds :: "string \<Rightarrow> string \<Rightarrow> string \<Rightarrow> string list list" where
  "pg_ReadyCmds user password db =
     [[''pg_isready'', ''-U'', user, ''-d'', db], [''psql'', ''-U'', user, ''-d'', db, ''-c'', ''select 1'']]"

definition mysql_ReadyCmds :: "string \<Rightarrow> string \<Rightarrow> string \<Rightarrow> string list list" where
  "mysql_ReadyCmds user password db =
     [shellWithPwd (''mysqladmin ping --silent -u'' @ user),
      shellWithPwd (''mysql -u'' @ user @ '' '' @ db @ '' -e '' @ [sq] @ ''select 1'' @ [sq])]"

definition mongo_ReadyCmds :: "string \<Rightarrow> string \<Rightarrow> string \<Rightarrow> string list list" where
  "mongo_ReadyCmds user password db =
     [[''mongosh'', ''--quiet'', ''--eval'', authJS @ ''db.adminCommand({ping: 1});'']]"

fun ReadyCmds :: "Driver \<Rightarrow> string \<Rightarrow> string \<Rightarrow> string \<Rightarrow> string list list" where
  "ReadyCmds Postgres = pg_ReadyCmds"
| "ReadyCmds Mysql = mysql_ReadyCmds"
| "ReadyCmds Mongodb = mongo_ReadyCmds"

lemmas ReadyCmds_defs [simp] = pg_ReadyCmds_def mysql_ReadyCmds_def mongo_ReadyCmds_def

text \<open>\<open>SQLCapable\<close>: postgres and mysql speak \<open>database/sql\<close>; mongodb does not implement it.\<close>

fun SQLDriver :: "Driver \<Rightarrow> string option" where
  "SQLDriver Postgres = Some ''pgx''"
| "SQLDriver Mysql = Some ''mysql''"
| "SQLDriver Mongodb = None"

definition pg_DSN :: "'w Box \<Rightarrow> string" where
  "pg_DSN sb = ''postgres://'' @ bx_User sb @ '':'' @ bx_Password sb @ ''@'' @ bx_Host sb @ '':'' @ bx_HostPort sb @ ''/'' @
     bx_DB sb @ ''?sslmode=disable''"

definition mysql_DSN :: "'w Box \<Rightarrow> string" where
  "mysql_DSN sb = bx_User sb @ '':'' @ bx_Password sb @ ''@tcp('' @ bx_Host sb @ '':'' @ bx_HostPort sb @ '')/'' @ bx_DB sb"

fun DSN :: "Driver \<Rightarrow> 'w Box \<Rightarrow> string" where
  "DSN Postgres = pg_DSN"
| "DSN Mysql = mysql_DSN"
| "DSN Mongodb = (\<lambda>sb. [])"

definition pg_ChecksumQuery :: "string \<Rightarrow> string \<Rightarrow> string" where
  "pg_ChecksumQuery table column =
     ''select coalesce(md5(string_agg('' @ column @ ''::text, '' @ [sq] @ '','' @ [sq] @ '' order by '' @ column @ '')), '' @
     [sq] @ ''empty'' @ [sq] @ '') from '' @ table"

definition mysql_ChecksumQuery :: "string \<Rightarrow> string \<Rightarrow> string" where
  "mysql_ChecksumQuery table column =
     ''select coalesce(conv(bit_xor(crc32('' @ column @ '')), 10, 16), '' @ [sq] @ ''empty'' @ [sq] @ '') from '' @ table"

fun ChecksumQuery :: "Driver \<Rightarrow> string \<Rightarrow> string \<Rightarrow> string" where
  "ChecksumQuery Postgres = pg_ChecksumQuery"
| "ChecksumQuery Mysql = mysql_ChecksumQuery"
| "ChecksumQuery Mongodb = (\<lambda>table column. [])"

section \<open>Restoring a dump\<close>

text \<open>\<open>detectFormat\<close> reads five bytes and rewinds; both calls can fail.\<close>

definition detectFormat :: "node \<Rightarrow> OS \<Rightarrow> string res \<times> OS" where
  "detectFormat f s =
     (case (case f of Dir \<Rightarrow> Some (os_isDir []) | File _ _ \<Rightarrow> os_failing s) of
        Some e \<Rightarrow> (Inl (Msg ''reading backup header: %w'' [AErr e]), os_step s)
      | None \<Rightarrow>
          (case os_failing (os_step s) of
             Some e \<Rightarrow> (Inl e, os_step (os_step s))
           | None \<Rightarrow>
              (let magic = (case f of Dir \<Rightarrow> [] | File data _ \<Rightarrow> take 5 data) in
               (Inr (if length magic \<ge> 5 \<and> magic = ''PGDMP'' then ''custom'' else ''plain''), os_step (os_step s)))))"

text \<open>The common end of the three restores: run the tool with the backup on its standard input, timed.\<close>

definition run_restore ::
  "'w Runtime \<Rightarrow> 'w Box \<Rightarrow> string list \<Rightarrow> FileStream \<Rightarrow> string \<Rightarrow> 'w \<Rightarrow> restored \<times> 'w" where
  "run_restore rt sb cmd inp format w =
     (case bx_Exec sb cmd (Some inp) w of ((code, out, err), w1) \<Rightarrow>
      let elapsed = time_Sub (rt_Now rt w1) (rt_Now rt w) in
      (case err of
         Some e \<Rightarrow> ((None, Some (Msg ''restore exec: %w'' [AErr e])), w1)
       | None \<Rightarrow>
           (let res = \<lparr>rr_Duration = elapsed, rr_Output = tail out 4000, rr_Format = format, rr_DSN = []\<rparr> in
            if code \<noteq> 0
            then ((Some res, Some (Msg ''restore failed (exit %d): %s'' [AInt code, AStr (rr_Output res)])), w1)
            else ((Some res, None), w1))))"

definition pg_restore_cmd :: "'w Box \<Rightarrow> string \<Rightarrow> string list" where
  "pg_restore_cmd sb format =
     (if format = ''custom''
      then [''pg_restore'', ''-U'', bx_User sb, ''-d'', bx_DB sb, ''--no-owner'', ''--no-privileges'', ''--exit-on-error'']
      else [''psql'', ''-U'', bx_User sb, ''-d'', bx_DB sb, ''-v'', ''ON_ERROR_STOP=1'', ''-f'', ''-''])"

definition open_failed :: "msg \<Rightarrow> restored" where
  "open_failed e = (None, Some (Msg ''opening backup: %w'' [AErr e]))"

section \<open>Restoring a physical backup\<close>

definition pgdata :: string where "pgdata = ''/var/lib/postgresql/data''"

definition untar_cmd :: "string list" where
  "untar_cmd = [''sh'', ''-c'', ''mkdir -p '' @ pgdata @ '' && tar -xf - -C '' @ pgdata]"

definition prepare_cmd :: "string list" where
  "prepare_cmd = [''sh'', ''-c'', ''chown -R postgres:postgres '' @ pgdata @ '' && chmod 700 '' @ pgdata @
     '' && printf '' @ [sq] @ ''local all all trust'' @ [bs] @ ''nhost all all all trust'' @ [bs] @ ''n'' @ [sq] @ '' > '' @
     pgdata @ ''/pg_hba.conf'']"

definition start_cmd :: "string list" where
  "start_cmd = [''sh'', ''-c'', ''nohup docker-entrypoint.sh postgres >/tmp/firedrill-pg.log 2>&1 & echo started'']"

definition probe_cmd :: "string \<Rightarrow> string list" where
  "probe_cmd db = [''psql'', ''-U'', ''postgres'', ''-d'', db, ''-c'', ''select 1'']"

definition log_cmd :: "string list" where
  "log_cmd = [''sh'', ''-c'', ''tail -c 2000 /tmp/firedrill-pg.log'']"

definition grep_cmd :: "string list" where
  "grep_cmd = [''sh'', ''-c'', ''grep -E '' @ [sq] @ ''FATAL|PANIC'' @ [sq] @ '' /tmp/firedrill-pg.log 2>/dev/null || true'']"

definition transientStartup :: "string list" where
  "transientStartup =
     [''the database system is not yet accepting connections'', ''the database system is starting up'',
      ''the database system is in recovery mode'', ''the database system is shutting down'',
      ''consistent recovery state has not been yet reached'']"

fun fatal_lines :: "string list \<Rightarrow> string" where
  "fatal_lines [] = []"
| "fatal_lines (l # ls) =
     (let line = strings_TrimSpace l in
      if line = [] \<or> \<not> strings_Contains line ''FATAL'' \<and> \<not> strings_Contains line ''PANIC'' then fatal_lines ls
      else if \<exists>t \<in> set transientStartup. strings_Contains line t then fatal_lines ls
      else line)"

definition fatalStartupLine :: "string \<Rightarrow> string" where
  "fatalStartupLine lg = fatal_lines (split1 nl lg)"

text \<open>The \<open>fail\<close> closure of \<open>restoreBasebackup\<close>.\<close>

definition basebackup_fail :: "'w Runtime \<Rightarrow> gotime \<Rightarrow> string \<Rightarrow> int \<Rightarrow> string \<Rightarrow> msg option \<Rightarrow> 'w \<Rightarrow> restored \<times> 'w" where
  "basebackup_fail rt start step code out err w =
     (let res = \<lparr>rr_Duration = time_Sub (rt_Now rt w) start, rr_Output = tail out 4000, rr_Format = ''basebackup'', rr_DSN = []\<rparr> in
      case err of
        Some e \<Rightarrow> ((None, Some (Msg ''%s: %w'' [AStr step, AErr e])), w)
      | None \<Rightarrow> ((Some res, Some (Msg ''%s failed (exit %d): %s'' [AStr step, AInt code, AStr (rr_Output res)])), w))"

text \<open>The waiting loop; \<open>Inl\<close> is a return, \<open>Inr ()\<close> the \<open>break\<close>, and \<open>None\<close> running out of fuel.\<close>

fun wait_cluster ::
  "'w Runtime \<Rightarrow> 'w Box \<Rightarrow> string \<Rightarrow> gotime \<Rightarrow> gotime \<Rightarrow> nat \<Rightarrow> 'w \<Rightarrow> ((restored + unit) \<times> 'w) option" where
  "wait_cluster rt sb db start deadline 0 w = None"
| "wait_cluster rt sb db start deadline (Suc fuel) w =
     (if rt_Now rt w > deadline then
        (case bx_Exec sb log_cmd None w of ((_, logOut, _), w1) \<Rightarrow>
           Some (map_prod Inl id (basebackup_fail rt start ''waiting for restored cluster'' (- 1) logOut (Some (Msg ''not ready after 3m'' [])) w1)))
      else (case rt_CtxErr rt w of
        Some e \<Rightarrow> Some (Inl (None, Some e), w)
      | None \<Rightarrow>
         (case bx_Exec sb (probe_cmd db) None w of ((code, _, err), w1) \<Rightarrow>
          if err = None \<and> code = 0 then Some (Inr (), w1)
          else (case bx_Exec sb grep_cmd None w1 of ((code2, logOut, err2), w2) \<Rightarrow>
            if err2 = None \<and> code2 = 0 \<and> fatalStartupLine logOut \<noteq> []
            then Some (map_prod Inl id (basebackup_fail rt start ''restored cluster startup'' (- 1) (fatalStartupLine logOut) None w2))
            else wait_cluster rt sb db start deadline fuel (rt_Sleep rt Second w2)))))"

text \<open>Each round sleeps a second and the deadline is three minutes away.\<close>

definition wait_fuel :: nat where "wait_fuel = 182"

definition restoreBasebackup ::
  "'w Runtime \<Rightarrow> 'w Box \<Rightarrow> string \<Rightarrow> Source \<Rightarrow> OS \<Rightarrow> 'w \<Rightarrow> (restored \<times> OS \<times> 'w) option" where
  "restoreBasebackup rt sb path src s w =
     (case os_Open path s of
        (Inl e, s0) \<Rightarrow> Some (open_failed e, s0, w)
      | (Inr f, s0) \<Rightarrow>
       (case os_Stream f s0 of (inp, s1) \<Rightarrow>
        let start = rt_Now rt w;
            fl = (\<lambda>step code out err w. case basebackup_fail rt start step code out err w of (r, w') \<Rightarrow> Some (r, s1, w'))
        in case bx_Exec sb untar_cmd (Some inp) w of ((code, out, err), w1) \<Rightarrow>
         if err \<noteq> None \<or> code \<noteq> 0 then fl ''untar basebackup'' code out err w1 else
        (case bx_Exec sb prepare_cmd None w1 of ((code, out, err), w2) \<Rightarrow>
         if err \<noteq> None \<or> code \<noteq> 0 then fl ''preparing data directory'' code out err w2 else
        (case bx_Exec sb start_cmd None w2 of ((code, out, err), w3) \<Rightarrow>
         if err \<noteq> None \<or> code \<noteq> 0 then fl ''starting postgres'' code out err w3 else
        (let db = (if src_Database src = [] then ''postgres'' else src_Database src);
             deadline = rt_Now rt w3 + 3 * Minute
         in case wait_cluster rt sb db start deadline wait_fuel w3 of
              None \<Rightarrow> None
            | Some (Inl r, w4) \<Rightarrow> Some (r, s1, w4)
            | Some (Inr _, w4) \<Rightarrow>
                Some ((Some \<lparr>rr_Duration = time_Sub (rt_Now rt w4) start, rr_Output = [], rr_Format = ''basebackup'',
                         rr_DSN = ''postgres://postgres@'' @ bx_Host sb @ '':'' @ bx_HostPort sb @ ''/'' @ db @ ''?sslmode=disable''\<rparr>,
                       None), s1, w4))))))"

section \<open>MongoDB\<close>

definition toolsConfigPath :: string where "toolsConfigPath = ''/tmp/.firedrill-mongo.conf''"

definition preflight :: "'w Box \<Rightarrow> 'w \<Rightarrow> msg option \<times> 'w" where
  "preflight sb w =
     (case bx_Exec sb [''sh'', ''-c'', ''command -v mongorestore >/dev/null''] None w of ((code, _, err), w1) \<Rightarrow>
      (case err of
         Some e \<Rightarrow> Some (Msg ''checking sandbox tooling: %w'' [AErr e])
       | None \<Rightarrow> if code \<noteq> 0 then Some (Msg (''sandbox image has no mongorestore - use an image that ships the '' @
           ''MongoDB Database Tools (the official mongo:8 image does)'') []) else None, w1))"

definition writePasswordConfig :: "string list" where
  "writePasswordConfig = [''sh'', ''-c'', ''umask 077 && printf '' @ [sq] @ ''password: %s'' @ [bs] @ ''n'' @ [sq] @ '' '' @
     [dq] @ ''$MONGO_INITDB_ROOT_PASSWORD'' @ [dq] @ '' > '' @ toolsConfigPath]"

definition mongorestore_cmd :: "'w Box \<Rightarrow> string list" where
  "mongorestore_cmd sb = [''mongorestore'', ''--username'', bx_User sb, ''--config'', toolsConfigPath,
     ''--authenticationDatabase'', ''admin'', ''--nsExclude'', ''admin.*'', ''--nsExclude'', ''config.*'', ''--archive'']"

definition pg_Restore :: "'w Runtime \<Rightarrow> 'w Box \<Rightarrow> string \<Rightarrow> Source \<Rightarrow> OS \<Rightarrow> 'w \<Rightarrow> (restored \<times> OS \<times> 'w) option" where
  "pg_Restore rt sb path src s w =
     (if src_Format src = ''basebackup'' then restoreBasebackup rt sb path src s w
      else (case os_Open path s of
        (Inl e, s1) \<Rightarrow> Some (open_failed e, s1, w)
      | (Inr f, s1) \<Rightarrow>
          (case detectFormat f s1 of
             (Inl e, s2) \<Rightarrow> Some ((None, Some e), s2, w)
           | (Inr format, s2) \<Rightarrow>
               (case os_Stream f s2 of (inp, s3) \<Rightarrow>
               (case run_restore rt sb (pg_restore_cmd sb format) inp format w of (r, w1) \<Rightarrow> Some (r, s3, w1))))))"

definition mysql_Restore :: "'w Runtime \<Rightarrow> 'w Box \<Rightarrow> string \<Rightarrow> Source \<Rightarrow> OS \<Rightarrow> 'w \<Rightarrow> (restored \<times> OS \<times> 'w) option" where
  "mysql_Restore rt sb path src s w =
     (case os_Open path s of
        (Inl e, s1) \<Rightarrow> Some (open_failed e, s1, w)
      | (Inr f, s1) \<Rightarrow>
          (case os_Stream f s1 of (inp, s2) \<Rightarrow>
          (case run_restore rt sb (shellWithPwd (''mysql -u'' @ bx_User sb @ '' '' @ bx_DB sb)) inp ''plain'' w of
             (r, w1) \<Rightarrow> Some (r, s2, w1))))"

definition mongo_Restore :: "'w Runtime \<Rightarrow> 'w Box \<Rightarrow> string \<Rightarrow> Source \<Rightarrow> OS \<Rightarrow> 'w \<Rightarrow> (restored \<times> OS \<times> 'w) option" where
  "mongo_Restore rt sb path src s w =
     (case preflight sb w of
        (Some e, w1) \<Rightarrow> Some ((None, Some e), s, w1)
      | (None, w1) \<Rightarrow>
         (case os_Open path s of
            (Inl e, s1) \<Rightarrow> Some (open_failed e, s1, w1)
          | (Inr f, s1) \<Rightarrow>
             (case bx_Exec sb writePasswordConfig None w1 of ((code, out, err), w2) \<Rightarrow>
              if err \<noteq> None \<or> code \<noteq> 0
              then Some ((None, Some (Msg ''preparing restore credentials (exit %d): %s %w''
                     ([AInt code, AStr (tail out 500)] @ (case err of None \<Rightarrow> [] | Some e \<Rightarrow> [AErr e])))), s1, w2)
              else (case os_Stream f s1 of (inp, s2) \<Rightarrow>
                   (case run_restore rt sb (mongorestore_cmd sb) inp ''archive'' w2 of (r, w3) \<Rightarrow> Some (r, s2, w3))))))"

fun Restore :: "Driver \<Rightarrow> 'w Runtime \<Rightarrow> 'w Box \<Rightarrow> string \<Rightarrow> Source \<Rightarrow> OS \<Rightarrow> 'w \<Rightarrow> (restored \<times> OS \<times> 'w) option" where
  "Restore Postgres = pg_Restore"
| "Restore Mysql = mysql_Restore"
| "Restore Mongodb = mongo_Restore"

lemmas Restore_defs [simp] = pg_Restore_def mysql_Restore_def mongo_Restore_def

text \<open>\<open>quoteJS\<close> and \<open>shellQuote\<close>.\<close>

fun js_escape :: "char \<Rightarrow> string" where
  "js_escape c =
     (if c = bs then [bs, bs] else if c = dq then [bs, dq] else if c = nl then [bs, CHR ''n'']
      else if c = CHR 0x0D then [bs, CHR ''r''] else [c])"

definition quoteJS :: "string \<Rightarrow> string" where
  "quoteJS s = [dq] @ concat (map js_escape s) @ [dq]"

definition shellQuote :: "string \<Rightarrow> string" where
  "shellQuote s = [sq] @ concat (map (\<lambda>c. if c = sq then [sq, bs, sq, sq] else [c]) s) @ [sq]"

definition lastLine :: "string \<Rightarrow> string" where
  "lastLine s = strings_TrimSpace (last (split1 nl (strings_TrimSpace s)))"

text \<open>\<open>strconv.ParseInt\<close> in base 10 and 64 bits, and \<open>strconv.Atoi\<close>, which is the same on a 64-bit machine.\<close>

definition parse_digits :: "string \<Rightarrow> nat option" where
  "parse_digits s = (if s \<noteq> [] \<and> list_all is_digit s then Some (digits_val 0 s) else None)"

definition strconv_ParseInt :: "string \<Rightarrow> int option" where
  "strconv_ParseInt s =
     (let neg = (s \<noteq> [] \<and> hd s = CHR ''-''); body = (if s \<noteq> [] \<and> (hd s = CHR ''-'' \<or> hd s = CHR ''+'') then tl s else s) in
      case parse_digits body of
        None \<Rightarrow> None
      | Some n \<Rightarrow> (let v = (if neg then - int n else int n) in if is_i64 v then Some v else None))"

definition mongo_eval :: "'w Box \<Rightarrow> string \<Rightarrow> string \<Rightarrow> 'w \<Rightarrow> string res \<times> 'w" where
  "mongo_eval sb db script w =
     (let js = authJS @ ''db = db.getSiblingDB('' @ quoteJS db @ '');'' @ script in
      case bx_Exec sb [''mongosh'', ''--quiet'', ''--eval'', js] None w of ((code, out0, err), w1) \<Rightarrow>
      (case err of
         Some e \<Rightarrow> Inl e
       | None \<Rightarrow>
           (let out = strings_TrimSpace out0 in
            if code \<noteq> 0 then Inl (Msg ''mongosh exited %d: %s'' [AInt code, AStr (tail out 500)]) else Inr out), w1))"

definition print_script :: "string \<Rightarrow> string" where
  "print_script query = ''print('' @ query @ '');''"

definition mongo_Count :: "'w Box \<Rightarrow> string \<Rightarrow> string \<Rightarrow> 'w \<Rightarrow> int res \<times> 'w" where
  "mongo_Count sb db query w =
     (case mongo_eval sb db (print_script query) w of
        (Inl e, w1) \<Rightarrow> (Inl e, w1)
      | (Inr out, w1) \<Rightarrow>
          (case strconv_ParseInt (lastLine out) of
             None \<Rightarrow> (Inl (Msg ''expected a number from %q, got %q'' [AQuo query, AQuo (tail out 200)]), w1)
           | Some n \<Rightarrow> (Inr n, w1)))"

definition rows_script :: "string \<Rightarrow> string" where
  "rows_script query =
     [nl] @ ''const _r = ('' @ query @ '');'' @ [nl] @
     ''if (_r === null || _r === undefined) { print(0); }'' @ [nl] @
     ''else if (Array.isArray(_r)) { print(_r.length); }'' @ [nl] @
     ''else if (typeof _r.itcount === '' @ [dq] @ ''function'' @ [dq] @ '') { print(_r.itcount()); }'' @ [nl] @
     ''else if (typeof _r.toArray === '' @ [dq] @ ''function'' @ [dq] @ '') { print(_r.toArray().length); }'' @ [nl] @
     ''else if (typeof _r === '' @ [dq] @ ''number'' @ [dq] @ '') { print(_r); }'' @ [nl] @
     ''else { print(1); }''"

definition mongo_Rows :: "'w Box \<Rightarrow> string \<Rightarrow> string \<Rightarrow> 'w \<Rightarrow> int res \<times> 'w" where
  "mongo_Rows sb db query w =
     (case mongo_eval sb db (rows_script query) w of
        (Inl e, w1) \<Rightarrow> (Inl e, w1)
      | (Inr out, w1) \<Rightarrow>
          (case strconv_ParseInt (lastLine out) of
             None \<Rightarrow> (Inl (Msg ''expected a row count from %q, got %q'' [AQuo query, AQuo (tail out 200)]), w1)
           | Some n \<Rightarrow> (Inr n, w1)))"

definition mongo_Scalar :: "'w Box \<Rightarrow> string \<Rightarrow> string \<Rightarrow> 'w \<Rightarrow> string res \<times> 'w" where
  "mongo_Scalar sb db query w =
     (case mongo_eval sb db (print_script query) w of (Inl e, w1) \<Rightarrow> (Inl e, w1) | (Inr out, w1) \<Rightarrow> (Inr (lastLine out), w1))"

definition checksum_js :: "string \<Rightarrow> string \<Rightarrow> string \<Rightarrow> string" where
  "checksum_js db collection field =
     authJS @ ''db = db.getSiblingDB('' @ quoteJS db @ '');'' @
     ''db.getCollection('' @ quoteJS collection @ '').find({}, {_id: 0, '' @ quoteJS field @ '': 1})'' @
     ''.sort({'' @ quoteJS field @ '': 1})'' @
     ''.forEach(d => print(String(d['' @ quoteJS field @ ''])));''"

definition checksum_script :: string where
  "checksum_script =
     ''out=$(mongosh --quiet --eval '' @ [dq] @ ''$FIREDRILL_JS'' @ [dq] @ '') || { echo '' @ [dq] @ ''$out'' @ [dq] @ ''; exit 1; }'' @ [nl] @
     ''if [ -z '' @ [dq] @ ''$out'' @ [dq] @ '' ]; then echo empty; else printf '' @ [sq] @ ''%s'' @ [sq] @ '' '' @ [dq] @ ''$out'' @ [dq] @
     '' | md5sum | cut -d'' @ [sq] @ '' '' @ [sq] @ '' -f1; fi''"

definition checksum_cmd :: "string \<Rightarrow> string \<Rightarrow> string \<Rightarrow> string list" where
  "checksum_cmd db collection field =
     [''sh'', ''-c'', ''FIREDRILL_JS='' @ shellQuote (checksum_js db collection field) @ ''; '' @ checksum_script]"

definition mongo_Checksum :: "'w Box \<Rightarrow> string \<Rightarrow> string \<Rightarrow> string \<Rightarrow> 'w \<Rightarrow> string res \<times> 'w" where
  "mongo_Checksum sb db collection field w =
     (case bx_Exec sb (checksum_cmd db collection field) None w of ((code, out0, err), w1) \<Rightarrow>
      (case err of
         Some e \<Rightarrow> Inl e
       | None \<Rightarrow>
           (let out = strings_TrimSpace out0 in
            if code \<noteq> 0 then Inl (Msg ''checksum failed (exit %d): %s'' [AInt code, AStr (tail out 500)]) else Inr (lastLine out)), w1))"

definition mongo_Engine :: "'w Box \<Rightarrow> Source \<Rightarrow> 'w Engine" where
  "mongo_Engine sb src =
     (let db = (if src_Database src = [] then bx_DB sb else src_Database src) in
      \<lparr>eng_Count = mongo_Count sb db, eng_Rows = mongo_Rows sb db, eng_Scalar = mongo_Scalar sb db,
       eng_Checksum = mongo_Checksum sb db\<rparr>)"

section \<open>Quoting\<close>

text \<open>
  How the two languages read a word back. \<open>js_literal\<close> reads a JavaScript string literal (the escapes
  \<open>quoteJS\<close> can write), \<open>sh_word\<close> a POSIX shell word made of single-quoted parts, escaped and plain
  characters, up to a separator. \<open>None\<close> is input outside this fragment.
\<close>

fun js_body :: "string \<Rightarrow> (string \<times> string) option" where
  "js_body [] = None"
| "js_body (c # s) =
     (if c = dq then Some ([], s)
      else if c = nl \<or> c = CHR 0x0D then None
      else if c = bs then
        (case s of
           [] \<Rightarrow> None
         | e # r \<Rightarrow>
             (case (if e = bs then Some bs else if e = dq then Some dq else if e = CHR ''n'' then Some nl
                    else if e = CHR ''r'' then Some (CHR 0x0D) else None) of
                None \<Rightarrow> None
              | Some x \<Rightarrow> map_option (map_prod (Cons x) id) (js_body r)))
      else map_option (map_prod (Cons c) id) (js_body s))"

definition js_literal :: "string \<Rightarrow> (string \<times> string) option" where
  "js_literal s = (if s \<noteq> [] \<and> hd s = dq then js_body (tl s) else None)"

fun sh_word :: "bool \<Rightarrow> string \<Rightarrow> (string \<times> string) option" where
  "sh_word True [] = None"
| "sh_word True (c # s) = (if c = sq then sh_word False s else map_option (map_prod (Cons c) id) (sh_word True s))"
| "sh_word False [] = Some ([], [])"
| "sh_word False (c # s) =
     (if c = sq then sh_word True s
      else if c = bs then (case s of [] \<Rightarrow> None | e # r \<Rightarrow> map_option (map_prod (Cons e) id) (sh_word False r))
      else if c \<in> set ('' ;|&<>()'' @ [nl, CHR 0x09]) then Some ([], c # s)
      else if c \<in> set (''$*?[#~='' @ [dq, CHR 0x60]) then None
      else map_option (map_prod (Cons c) id) (sh_word False s))"

lemma js_body_escape: "js_body (concat (map js_escape s) @ dq # rest) = Some (s, rest)"
  by (induction s) auto

lemma sh_word_quote:
  "sh_word True (concat (map (\<lambda>c. if c = sq then [sq, bs, sq, sq] else [c]) s) @ sq # CHR '';'' # rest) = Some (s, CHR '';'' # rest)"
  by (induction s) auto

text \<open>
  C32: quoting is exact, whatever the text and whatever follows it. JavaScript reads \<open>quoteJS s\<close> back as the string
  \<open>s\<close> and continues right behind it, and the shell reads \<open>shellQuote s\<close> back as the single word \<open>s\<close>, ending at the
  separator the checksum command puts there: neither a database name nor a script can break out of its quotes.
\<close>

theorem quoting_exact:
  "js_literal (quoteJS s @ rest) = Some (s, rest) \<and>
   sh_word False (shellQuote s @ CHR '';'' # rest) = Some (s, CHR '';'' # rest)"
  using js_body_escape[of s rest] sh_word_quote[of s rest] by (simp add: js_literal_def quoteJS_def shellQuote_def)

section \<open>Startup log\<close>

definition broken_line :: "string \<Rightarrow> bool" where
  "broken_line l \<longleftrightarrow> (strings_Contains l ''FATAL'' \<or> strings_Contains l ''PANIC'') \<and>
     \<not> (\<exists>t \<in> set transientStartup. strings_Contains l t)"

lemma not_broken_Nil [simp]: "\<not> broken_line []"
  by (simp add: broken_line_def strings_Contains_def)

lemma fatal_lines_find:
  "fatal_lines ls = (case find broken_line (map strings_TrimSpace ls) of None \<Rightarrow> [] | Some l \<Rightarrow> l)"
  by (induction ls) (auto simp: Let_def broken_line_def strings_Contains_def)

lemma fatalStartupLine_Nil:
  "fatalStartupLine lg = [] \<longleftrightarrow> (\<forall>l \<in> set (split1 nl lg). \<not> broken_line (strings_TrimSpace l))"
  by (auto simp: fatalStartupLine_def fatal_lines_find find_None_iff find_Some_iff split: option.splits)

section \<open>Passwords\<close>

lemma box_pwd:
  "bx_Exec (sb\<lparr>bx_Password := p\<rparr>) = bx_Exec sb" "bx_Host (sb\<lparr>bx_Password := p\<rparr>) = bx_Host sb"
  "bx_HostPort (sb\<lparr>bx_Password := p\<rparr>) = bx_HostPort sb" "bx_User (sb\<lparr>bx_Password := p\<rparr>) = bx_User sb"
  "bx_DB (sb\<lparr>bx_Password := p\<rparr>) = bx_DB sb"
  by simp_all

lemma wait_cluster_pwd: "wait_cluster rt (sb\<lparr>bx_Password := p\<rparr>) db start deadline n w = wait_cluster rt sb db start deadline n w"
proof (induction n arbitrary: w)
  case (Suc n)
  show ?case unfolding wait_cluster.simps box_pwd Suc.IH ..
qed simp

lemmas restore_defs = restoreBasebackup_def run_restore_def pg_restore_cmd_def preflight_def mongorestore_cmd_def
lemmas mongo_defs = mongo_Engine_def mongo_Count_def mongo_Rows_def mongo_Scalar_def mongo_Checksum_def mongo_eval_def

text \<open>
  C33: no command line carries the password. The readiness commands, every command a restore runs and every command of the
  MongoDB check engine are the same for any two passwords; the SQL engines receive it only through the connection string.
\<close>

theorem password_not_in_argv:
  "ReadyCmds d user p db = ReadyCmds d user p' db \<and>
   Restore d rt (sb\<lparr>bx_Password := p\<rparr>) path src s w = Restore d rt sb path src s w \<and>
   mongo_Engine (sb\<lparr>bx_Password := p\<rparr>) src = mongo_Engine sb src"
proof (intro conjI)
  show "ReadyCmds d user p db = ReadyCmds d user p' db" by (cases d) simp_all
  show "Restore d rt (sb\<lparr>bx_Password := p\<rparr>) path src s w = Restore d rt sb path src s w"
    by (cases d; simp only:; unfold Restore.simps Restore_defs restore_defs box_pwd wait_cluster_pwd) (rule refl)+
  show "mongo_Engine (sb\<lparr>bx_Password := p\<rparr>) src = mongo_Engine sb src"
    unfolding mongo_defs box_pwd ..
qed

section \<open>What a restore without an error means\<close>

text \<open>The command that reads the backup, by engine.\<close>

fun restore_tool :: "Driver \<Rightarrow> 'w Box \<Rightarrow> Source \<Rightarrow> node \<Rightarrow> string list" where
  "restore_tool Postgres sb src f =
     (if src_Format src = ''basebackup'' then untar_cmd
      else pg_restore_cmd sb (if \<exists>rest m. f = File (''PGDMP'' @ rest) m then ''custom'' else ''plain''))"
| "restore_tool Mysql sb src f = shellWithPwd (''mysql -u'' @ bx_User sb @ '' '' @ bx_DB sb)"
| "restore_tool Mongodb sb src f = mongorestore_cmd sb"

text \<open>\<open>fed sb cmd inp w0 w1\<close>: the command ran on the stream, from \<open>w0\<close> to \<open>w1\<close>, and exited 0.\<close>

definition fed :: "'w Box \<Rightarrow> string list \<Rightarrow> FileStream \<Rightarrow> 'w \<Rightarrow> 'w \<Rightarrow> bool" where
  "fed sb cmd inp w0 w1 \<longleftrightarrow> (\<exists>out. bx_Exec sb cmd (Some inp) w0 = ((0, out, None), w1))"

lemma run_restore_ok:
  "run_restore rt sb cmd inp format w = ((res, None), w1) \<Longrightarrow>
   fed sb cmd inp w w1 \<and> (\<exists>r. res = Some r \<and> rr_Duration r = time_Sub (rt_Now rt w1) (rt_Now rt w) \<and> rr_DSN r = [])"
  by (auto simp: run_restore_def fed_def Let_def split: prod.splits option.splits if_splits)

lemma PGDMP_prefix: "take 5 d = ''PGDMP'' \<longleftrightarrow> (\<exists>rest. d = ''PGDMP'' @ rest)"
proof
  assume "take 5 d = ''PGDMP''"
  then have "d = ''PGDMP'' @ drop 5 d" by (metis append_take_drop_id)
  then show "\<exists>rest. d = ''PGDMP'' @ rest" by blast
qed auto

lemma detectFormat_ok:
  assumes "detectFormat f s = (Inr format, t)"
  shows "format = (if \<exists>rest m. f = File (''PGDMP'' @ rest) m then ''custom'' else ''plain'') \<and> os_frame P s t"
proof (cases f)
  case Dir
  then show ?thesis using assms by (simp add: detectFormat_def)
next
  case (File d m)
  have "5 \<le> length (take 5 d) \<and> take 5 d = ''PGDMP'' \<longleftrightarrow> (\<exists>rest m. f = File (''PGDMP'' @ rest) m)"
    using PGDMP_prefix[of d] unfolding File by auto
  then show ?thesis using assms unfolding detectFormat_def Let_def File
    by (simp only: node.case split: option.splits) (auto simp: os_frame_def)
qed

lemma basebackup_fail_err: "basebackup_fail rt start step code out err w = ((res, e), w1) \<Longrightarrow> e \<noteq> None \<and> w1 = w"
  by (auto simp: basebackup_fail_def Let_def split: option.splits)

text \<open>The waiting loop ends with \<open>break\<close> only after a query the restored cluster answered.\<close>

definition probed :: "'w Box \<Rightarrow> string \<Rightarrow> 'w \<Rightarrow> bool" where
  "probed sb db w1 \<longleftrightarrow> (\<exists>w0 out. bx_Exec sb (probe_cmd db) None w0 = ((0, out, None), w1))"

lemma wait_cluster_result:
  "wait_cluster rt sb db start deadline n w = Some (r, w1) \<Longrightarrow>
   (case r of Inl (res, e) \<Rightarrow> e \<noteq> None | Inr _ \<Rightarrow> probed sb db w1)"
proof (induction n arbitrary: w)
  case 0
  then show ?case by simp
next
  case (Suc n)
  then show ?case
    by (auto simp: probed_def basebackup_fail_def Let_def split: if_splits option.splits prod.splits sum.splits)
qed

text \<open>\<open>read_as\<close>: the backup at this path was opened and read as this stream; without faults of the system a file is read whole.\<close>

definition read_as :: "OS \<Rightarrow> string \<Rightarrow> node \<Rightarrow> FileStream \<Rightarrow> bool" where
  "read_as s path f inp \<longleftrightarrow> os_fs s path = Some f \<and> streams f inp \<and> (os_healthy s \<and> f \<noteq> Dir \<longrightarrow> fs_Err inp = None)"

lemma read_asI:
  assumes "os_Open path s = (Inr f, s1)" and "os_frame {} s1 s2" and "os_Stream f s2 = (inp, s3)"
  shows "read_as s path f inp"
proof -
  have "os_frame {} s s2" using os_Open_Inr[OF assms(1)] assms(2) os_frame_trans_same[OF os_frame_step] by blast
  then have "os_healthy s \<Longrightarrow> os_failing s2 = None" using os_frame_healthy by fastforce
  then show ?thesis using os_Open_Inr[OF assms(1)] os_Stream_streams[OF assms(3)] by (auto simp: read_as_def)
qed

lemma restoreBasebackup_ok:
  assumes "restoreBasebackup rt sb path src s w = Some ((res, None), s1, w1)"
  shows "\<exists>f inp r w0. read_as s path f inp \<and> fed sb untar_cmd inp w w0 \<and> res = Some r \<and>
    rr_Duration r = time_Sub (rt_Now rt w1) (rt_Now rt w) \<and>
    probed sb (if src_Database src = [] then ''postgres'' else src_Database src) w1"
proof -
  let ?db = "if src_Database src = [] then ''postgres'' else src_Database src"
  obtain f s2 where rd: "os_Open path s = (Inr f, s2)"
    using assms by (auto simp: restoreBasebackup_def open_failed_def split: prod.splits sum.splits)
  obtain inp s3 where st: "os_Stream f s2 = (inp, s3)" by fastforce
  obtain c1 o1 e1 wa where x1: "bx_Exec sb untar_cmd (Some inp) w = ((c1, o1, e1), wa)" by (metis prod.collapse)
  have ok1: "c1 = 0 \<and> e1 = None"
    using assms rd st x1 by (auto simp: restoreBasebackup_def basebackup_fail_def Let_def split: option.splits if_splits)
  obtain c2 o2 e2 wb where x2: "bx_Exec sb prepare_cmd None wa = ((c2, o2, e2), wb)" by (metis prod.collapse)
  have ok2: "c2 = 0 \<and> e2 = None"
    using assms rd st x1 x2 ok1 by (auto simp: restoreBasebackup_def basebackup_fail_def Let_def split: option.splits if_splits)
  obtain c3 o3 e3 wc where x3: "bx_Exec sb start_cmd None wb = ((c3, o3, e3), wc)" by (metis prod.collapse)
  have ok3: "c3 = 0 \<and> e3 = None"
    using assms rd st x1 x2 x3 ok1 ok2 by (auto simp: restoreBasebackup_def basebackup_fail_def Let_def split: option.splits if_splits)
  obtain r wd where wt: "wait_cluster rt sb ?db (rt_Now rt w) (rt_Now rt wc + 3 * Minute) wait_fuel wc = Some (r, wd)"
    using assms rd st x1 x2 x3 ok1 ok2 ok3 by (auto simp: restoreBasebackup_def Let_def split: option.splits if_splits)
  have "r = Inr () \<and> wd = w1 \<and> (\<exists>q. res = Some q \<and> rr_Duration q = time_Sub (rt_Now rt w1) (rt_Now rt w))"
    using assms rd st x1 x2 x3 ok1 ok2 ok3 wt wait_cluster_result[OF wt]
    by (auto simp: restoreBasebackup_def Let_def split: sum.splits)
  moreover have "read_as s path f inp" by (rule read_asI[OF rd os_frame_refl st])
  ultimately show ?thesis using x1 ok1 wait_cluster_result[OF wt] by (auto simp: fed_def)
qed

lemma Restore_read_as:
  assumes "Restore d rt sb path src s w = Some ((res, None), s1, w1)"
  shows "\<exists>f inp r w0 w2. read_as s path f inp \<and> res = Some r \<and> fed sb (restore_tool d sb src f) inp w0 w2 \<and>
    rr_Duration r = time_Sub (rt_Now rt w1) (rt_Now rt w0) \<and>
    (if d = Postgres \<and> src_Format src = ''basebackup''
     then probed sb (if src_Database src = [] then ''postgres'' else src_Database src) w1 else w2 = w1)"
proof (cases d)
  case Postgres
  show ?thesis
  proof (cases "src_Format src = ''basebackup''")
    case True
    then have "restoreBasebackup rt sb path src s w = Some ((res, None), s1, w1)" using assms Postgres by simp
    from restoreBasebackup_ok[OF this] True Postgres show ?thesis by (simp only: restore_tool.simps if_True simp_thms) blast
  next
    case False
    obtain f s2 format s3 where rd: "os_Open path s = (Inr f, s2)" "detectFormat f s2 = (Inr format, s3)"
      using assms Postgres False by (auto simp: open_failed_def split: prod.splits sum.splits)
    obtain inp s4 where st: "os_Stream f s3 = (inp, s4)" by fastforce
    have run: "run_restore rt sb (pg_restore_cmd sb format) inp format w = ((res, None), w1)"
      using assms Postgres False rd st by (auto split: prod.splits)
    have "restore_tool Postgres sb src f = pg_restore_cmd sb format"
      using detectFormat_ok[OF rd(2)] unfolding restore_tool.simps if_not_P[OF False] by simp
    moreover have "read_as s path f inp" using read_asI[OF rd(1) _ st] detectFormat_ok[OF rd(2)] by blast
    ultimately show ?thesis using run_restore_ok[OF run] unfolding Postgres by (metis False)
  qed
next
  case Mysql
  obtain f s2 where rd: "os_Open path s = (Inr f, s2)"
    using assms Mysql by (auto simp: open_failed_def split: prod.splits sum.splits)
  obtain inp s3 where st: "os_Stream f s2 = (inp, s3)" by fastforce
  have "run_restore rt sb (restore_tool Mysql sb src f) inp ''plain'' w = ((res, None), w1)"
    using assms Mysql rd st by (auto split: prod.splits)
  then show ?thesis using run_restore_ok read_asI[OF rd os_frame_refl st] Mysql by fastforce
next
  case Mongodb
  obtain wa where pf: "preflight sb w = (None, wa)" using assms Mongodb by (auto split: prod.splits option.splits)
  obtain f s2 where rd: "os_Open path s = (Inr f, s2)"
    using assms Mongodb pf by (auto simp: open_failed_def split: prod.splits sum.splits)
  obtain inp s3 where st: "os_Stream f s2 = (inp, s3)" by fastforce
  obtain c o1 e wb where x: "bx_Exec sb writePasswordConfig None wa = ((c, o1, e), wb)" by (metis prod.collapse)
  then have "run_restore rt sb (restore_tool Mongodb sb src f) inp ''archive'' wb = ((res, None), w1)"
    using assms Mongodb pf rd st by (auto split: prod.splits if_splits)
  then show ?thesis using run_restore_ok read_asI[OF rd os_frame_refl st] Mongodb by fastforce
qed

text \<open>
  C31: what a restore without an error has done. The backup was opened and streamed to the engine's restore tool, which exited 0; the result
  is there and carries the time between starting and finishing (for a dump, of the tool; for a physical restore, from untarring to the first query the
  restored cluster answered). The stream is the whole backup if reading it ended without an error, as it does for a file when no system call fails. It is not if a read
  failed in the middle: then it is a part of the backup from its beginning, and a tool that exits 0 on it makes the restore a success all
  the same, for a read error reaches nothing but the sandbox's \<open>Exec\<close>, and that of Docker drops it (\<open>docker_Exec_read_error\<close>).
\<close>

theorem Restore_ok:
  assumes "Restore d rt sb path src s w = Some ((res, None), s1, w1)"
  shows "\<exists>f inp r w0 w2. os_fs s path = Some f \<and> res = Some r \<and> fed sb (restore_tool d sb src f) inp w0 w2 \<and>
    (case f of Dir \<Rightarrow> fs_Data inp = [] \<and> fs_Err inp \<noteq> None
     | File data m \<Rightarrow> (\<exists>rest. data = fs_Data inp @ rest) \<and> (fs_Err inp = None \<longrightarrow> fs_Data inp = data) \<and>
         (os_healthy s \<longrightarrow> fs_Err inp = None)) \<and>
    rr_Duration r = time_Sub (rt_Now rt w1) (rt_Now rt w0) \<and>
    (if d = Postgres \<and> src_Format src = ''basebackup''
     then probed sb (if src_Database src = [] then ''postgres'' else src_Database src) w1 else w2 = w1)"
proof -
  have "\<exists>f inp r w0 w2. read_as s path f inp \<and> res = Some r \<and> fed sb (restore_tool d sb src f) inp w0 w2 \<and>
    rr_Duration r = time_Sub (rt_Now rt w1) (rt_Now rt w0) \<and>
    (if d = Postgres \<and> src_Format src = ''basebackup''
     then probed sb (if src_Database src = [] then ''postgres'' else src_Database src) w1 else w2 = w1)"
    by (rule Restore_read_as[OF assms])
  then obtain f inp r w0 w2 where o: "read_as s path f inp" "res = Some r" "fed sb (restore_tool d sb src f) inp w0 w2"
    "rr_Duration r = time_Sub (rt_Now rt w1) (rt_Now rt w0)"
    "if d = Postgres \<and> src_Format src = ''basebackup''
     then probed sb (if src_Database src = [] then ''postgres'' else src_Database src) w1 else w2 = w1" by blast
  have "os_fs s path = Some f" using o(1) by (simp add: read_as_def)
  moreover have "case f of Dir \<Rightarrow> fs_Data inp = [] \<and> fs_Err inp \<noteq> None
     | File data m \<Rightarrow> (\<exists>rest. data = fs_Data inp @ rest) \<and> (fs_Err inp = None \<longrightarrow> fs_Data inp = data) \<and> (os_healthy s \<longrightarrow> fs_Err inp = None)"
    using o(1) by (auto simp: read_as_def streams_def split: node.splits)
  ultimately show ?thesis using o(2-5) by blast
qed

definition demo_box :: "int Box" where
  "demo_box = \<lparr>bx_Exec = \<lambda>cmd stdin w. ((if cmd = probe_cmd ''app'' \<and> w < 5 * Second then 2 else 0, ''ok'', None), w + Second),
     bx_Host = ''127.0.0.1'', bx_HostPort = ''49153'', bx_User = ''firedrill'', bx_Password = ''secret'', bx_DB = ''firedrill''\<rparr>"

definition demo_backup_os :: OS where
  "demo_backup_os = demo_os\<lparr>os_fs := [''/b'' \<mapsto> File ''PGDMP...'' 1]\<rparr>"

definition demo_source :: Source where
  "demo_source = sp_Source (dr_Spec demo_drill)"

text \<open>The same restore, once without faults and once with a read that fails after five bytes.\<close>

definition demo_cut_os :: OS where
  "demo_cut_os = demo_backup_os\<lparr>os_fault := (\<lambda>n. if n = 3 then Some (Msg ''input/output error'' []) else None), os_partial := (\<lambda>n. Some 5)\<rparr>"

theorem Restore_ok_witness:
  "(\<exists>w0 w2. fed demo_box (restore_tool Postgres demo_box demo_source (File ''PGDMP...'' 1)) \<lparr>fs_Data = ''PGDMP...'', fs_Err = None\<rparr> w0 w2) \<and>
   (\<exists>res s1 w1 inp w0. Restore Postgres demo_runtime demo_box ''/b'' demo_source demo_cut_os 0 = Some ((res, None), s1, w1) \<and>
     fed demo_box (restore_tool Postgres demo_box demo_source (File ''PGDMP...'' 1)) inp w0 w1)"
proof
  have r: "\<exists>res s1 w1. Restore Postgres demo_runtime demo_box ''/b'' demo_source s 0 = Some ((res, None), s1, w1)"
    if "s = demo_backup_os \<or> s = demo_cut_os" for s
    using that by (auto simp add: os_Open_def os_Stream_def detectFormat_def run_restore_def demo_box_def demo_cut_os_def demo_backup_os_def demo_os_def
        demo_source_def demo_drill_def Let_def probe_cmd_def pg_restore_cmd_def)
  have fs: "os_fs demo_backup_os ''/b'' = Some (File ''PGDMP...'' 1)" "os_fs demo_cut_os ''/b'' = Some (File ''PGDMP...'' 1)"
    by (simp_all add: demo_backup_os_def demo_cut_os_def)
  have h: "os_healthy demo_backup_os" by (simp add: os_healthy_def demo_backup_os_def demo_os_def)
  have nb: "src_Format demo_source \<noteq> ''basebackup''" by (simp add: demo_source_def demo_drill_def)
  obtain res s1 w1 where a: "Restore Postgres demo_runtime demo_box ''/b'' demo_source demo_backup_os 0 = Some ((res, None), s1, w1)"
    using r by blast
  obtain inp w0 w2 where i: "fed demo_box (restore_tool Postgres demo_box demo_source (File ''PGDMP...'' 1)) inp w0 w2"
    "fs_Err inp = None" "fs_Data inp = ''PGDMP...''"
    using Restore_ok[OF a] h unfolding fs by auto
  then have "inp = \<lparr>fs_Data = ''PGDMP...'', fs_Err = None\<rparr>" by (cases inp) simp
  then show "\<exists>w0 w2. fed demo_box (restore_tool Postgres demo_box demo_source (File ''PGDMP...'' 1)) \<lparr>fs_Data = ''PGDMP...'', fs_Err = None\<rparr> w0 w2"
    using i by blast
  obtain res s1 w1 where b: "Restore Postgres demo_runtime demo_box ''/b'' demo_source demo_cut_os 0 = Some ((res, None), s1, w1)"
    using r by blast
  show "\<exists>res s1 w1 inp w0. Restore Postgres demo_runtime demo_box ''/b'' demo_source demo_cut_os 0 = Some ((res, None), s1, w1) \<and>
     fed demo_box (restore_tool Postgres demo_box demo_source (File ''PGDMP...'' 1)) inp w0 w1"
    using Restore_ok[OF b] b nb unfolding fs by auto
qed

section \<open>Waiting for a restored cluster ends\<close>

lemma wait_cluster_returns:
  assumes "rt_clock rt" and "\<And>cmd inp. rt_forward rt (bx_Exec sb cmd inp)"
  shows "deadline < rt_Now rt w + int n * Second \<Longrightarrow> wait_cluster rt sb db start deadline (Suc n) w \<noteq> None"
proof (induction n arbitrary: w)
  case 0
  then show ?case by (auto split: prod.splits)
next
  case (Suc n)
  obtain x1 w1 where e1: "bx_Exec sb (probe_cmd db) None w = (x1, w1)" by fastforce
  obtain x2 w2 where e2: "bx_Exec sb grep_cmd None w1 = (x2, w2)" by fastforce
  have "rt_Now rt w \<le> rt_Now rt w1" "rt_Now rt w1 \<le> rt_Now rt w2"
    using assms(2)[of "probe_cmd db" None] assms(2)[of grep_cmd None] e1 e2 unfolding rt_forward_def by (metis snd_conv)+
  moreover have "rt_Now rt w2 + Second \<le> rt_Now rt (rt_Sleep rt Second w2)" using assms(1) by (simp add: rt_clock_def)
  ultimately have "deadline < rt_Now rt (rt_Sleep rt Second w2) + int n * Second" using Suc.prems by (simp add: algebra_simps)
  from Suc.IH[OF this] show ?case
    by (subst wait_cluster.simps) (auto simp: e1 e2 simp del: wait_cluster.simps split: prod.splits option.splits)
qed

text \<open>
  Every restore ends. With a clock that \<open>Sleep\<close> advances and no command turning it back, the waiting loop after a
  physical restore leaves within its three minutes, so \<open>Restore\<close> always returns a result or an error.
\<close>

lemma Restore_returns:
  assumes "rt_clock rt" and "\<forall>cmd inp. rt_forward rt (bx_Exec sb cmd inp)"
  shows "\<exists>r. Restore d rt sb path src s w = Some r"
proof -
  have "\<exists>x. wait_cluster rt sb db start (rt_Now rt w + 3 * Minute) wait_fuel w = Some x" for db start w
    using wait_cluster_returns[OF assms(1), of sb "rt_Now rt w + 3 * Minute" w 181 db start] assms(2)
    by (simp add: wait_fuel_def del: wait_cluster.simps)
  then have "\<exists>x. (case wait_cluster rt sb db start (rt_Now rt w + 3 * Minute) wait_fuel w of None \<Rightarrow> None
      | Some (Inl r, w4) \<Rightarrow> Some (r, s1, w4) | Some (Inr _, w4) \<Rightarrow> Some (f w4, s1, w4)) = Some x"
    for db start w and s1 :: OS and f by (metis (mono_tags, lifting) option.simps(5) sumE sum.case(1) sum.case(2) prod.exhaust prod.case)
  then have "restoreBasebackup rt sb path src s w \<noteq> None"
    unfolding restoreBasebackup_def Let_def by (auto split: prod.splits sum.splits)
  then show ?thesis by (cases d) (auto split: prod.splits sum.splits option.splits)
qed

end
