(* ===== verification/FD_Sandbox.thy ===== *)
theory FD_Sandbox
  imports FD_Drivers FD_Encoding FD_Time
begin

text \<open>
  \<open>pkg/sandbox\<close> and \<open>pkg/sandbox/docker\<close>: the sandbox interface, the bounded output buffer and the
  Docker provider.

  The Docker client is a record of the calls the code makes, over the outside state \<open>'w\<close>. A \<open>sync.Once\<close>
  is the flag \<open>once\<close> of the sandbox: \<open>Do\<close> runs its body if the flag is unset and blocks other
  callers meanwhile, so a call of \<open>Destroy\<close> is one step, and the drill, its deferred call and the
  TTL watchdog interleave as sequences of such steps (\<open>teardown_steps\<close>).

  The locale \<open>teardown\<close> is what the callers rely on; it is interpreted for each provider. The lemmas: teardown runs
  once and later calls change nothing, whoever makes them; the buffer keeps exactly the first \<open>Max\<close> bytes; waiting for
  readiness ends; provisioning either delivers the sandbox or leaves nothing running, and after a clean teardown
  nothing is left.
\<close>

section \<open>Configuration and output buffer\<close>

record Config =
  cf_Image :: string
  cf_TTL :: duration
  cf_Name :: string
  cf_Driver :: Driver
  cf_Namespace :: string
  cf_ColdStart :: bool

definition MaxExecOutput :: int where "MaxExecOutput = 4 * 2 ^ 20"

record LimitedBuffer =
  lb_buf :: string
  lb_Max :: int

definition lb_Write :: "string \<Rightarrow> LimitedBuffer \<Rightarrow> nat \<times> LimitedBuffer" where
  "lb_Write p l =
     (let remaining = lb_Max l - int (length (lb_buf l)) in
      (length p,
       if remaining > 0
       then (if int (length p) > remaining then l\<lparr>lb_buf := lb_buf l @ take (nat remaining) p\<rparr> else l\<lparr>lb_buf := lb_buf l @ p\<rparr>)
       else l))"

definition lb_String :: "LimitedBuffer \<Rightarrow> string" where
  "lb_String l = lb_buf l"

text \<open>What is left in the buffer after a sequence of writes.\<close>

definition lb_collect :: "int \<Rightarrow> string list \<Rightarrow> string" where
  "lb_collect mx ps = lb_String (fold (\<lambda>p l. snd (lb_Write p l)) ps \<lparr>lb_buf = [], lb_Max = mx\<rparr>)"

lemma lb_Write_take:
  assumes "lb_buf l = take (nat (lb_Max l)) d"
  shows "lb_buf (snd (lb_Write p l)) = take (nat (lb_Max l)) (d @ p) \<and> lb_Max (snd (lb_Write p l)) = lb_Max l"
proof (cases "lb_Max l \<le> int (length d)")
  case True
  then have "lb_buf l = take (nat (lb_Max l)) (d @ p)" using assms by simp
  moreover have "\<not> lb_Max l - int (length (lb_buf l)) > 0" using assms True by (cases "lb_Max l \<ge> 0") auto
  ultimately show ?thesis by (simp add: lb_Write_def Let_def)
next
  case False
  then have d: "lb_buf l = d" using assms by simp
  have "nat (lb_Max l - int (length d)) = nat (lb_Max l) - length d" by simp
  then show ?thesis using d False by (auto simp: lb_Write_def Let_def)
qed

lemma lb_collect_take: "lb_collect mx ps = take (nat mx) (concat ps)"
proof -
  have "lb_buf l = take (nat (lb_Max l)) d \<Longrightarrow>
      lb_buf (fold (\<lambda>p l. snd (lb_Write p l)) ps l) = take (nat (lb_Max l)) (d @ concat ps)" for l d
  proof (induction ps arbitrary: l d)
    case (Cons p ps)
    then show ?case using lb_Write_take[OF Cons.prems, of p] Cons.IH[of "snd (lb_Write p l)" "d @ p"] by simp
  qed simp
  from this[of "\<lparr>lb_buf = [], lb_Max = mx\<rparr>" "[]"] show ?thesis by (simp add: lb_collect_def lb_String_def)
qed

text \<open>The demultiplexer hands each frame to \<open>Write\<close>, which always reports it as fully written, so draining never stops early.\<close>

lemma lb_Write_full: "fst (lb_Write p l) = length p"
  by (simp add: lb_Write_def Let_def)

section \<open>Teardown\<close>

text \<open>Interleavings: any number of \<open>Destroy\<close> calls, by whoever, between steps of everything else (\<open>env\<close>).\<close>

inductive teardown_steps ::
  "('s \<Rightarrow> 'w \<Rightarrow> msg option \<times> 's \<times> 'w) \<Rightarrow> ('w \<Rightarrow> 'w \<Rightarrow> bool) \<Rightarrow> 's \<Rightarrow> 'w \<Rightarrow> 's \<Rightarrow> 'w \<Rightarrow> bool"
  for destroy env where
  start: "teardown_steps destroy env sb w sb w"
| call: "teardown_steps destroy env sb w sb1 w1 \<Longrightarrow> destroy sb1 w1 = (e, sb2, w2) \<Longrightarrow> teardown_steps destroy env sb w sb2 w2"
| other: "teardown_steps destroy env sb w sb1 w1 \<Longrightarrow> env w1 w2 \<Longrightarrow> teardown_steps destroy env sb w sb1 w2"

locale teardown =
  fixes destroy :: "'s \<Rightarrow> 'w \<Rightarrow> msg option \<times> 's \<times> 'w" and once :: "'s \<Rightarrow> bool"
    and err :: "'s \<Rightarrow> msg option" and was :: "'s \<Rightarrow> bool"
  assumes first: "\<not> once sb \<Longrightarrow> destroy sb w = (e, sb1, w1) \<Longrightarrow> once sb1 \<and> err sb1 = e \<and> (was sb1 \<longleftrightarrow> e = None)"
    and again: "once sb \<Longrightarrow> destroy sb w = (err sb, sb, w)"
begin

lemma destroy_once: "destroy sb w = (e, sb1, w1) \<Longrightarrow> once sb1 \<and> err sb1 = e"
  by (cases "once sb") (auto dest: first simp: again)

lemma destroy_again: "destroy sb w = (e, sb1, w1) \<Longrightarrow> destroy sb1 w2 = (e, sb1, w2)"
  using destroy_once again by metis

lemma steps_frozen: "teardown_steps destroy env sb w sb1 w1 \<Longrightarrow> once sb \<Longrightarrow> sb1 = sb"
  by (induction rule: teardown_steps.induct) (auto simp: again)

lemma steps_first: "teardown_steps destroy env sb w sb1 w1 \<Longrightarrow> \<not> once sb1 \<Longrightarrow> sb1 = sb"
proof (induction rule: teardown_steps.induct)
  case (call sb w sb1 w1 e sb2 w2)
  then show ?case using destroy_once by blast
qed simp_all

text \<open>A property that the body of the teardown establishes and nothing else breaks holds from then on.\<close>

lemma destroyed_invariant:
  assumes "teardown_steps destroy env sb w sb1 w1" and "\<not> once sb"
    and "\<And>w1 sb2 w2. destroy sb w1 = (None, sb2, w2) \<Longrightarrow> P w2"
    and "\<And>w1 w2. env w1 w2 \<Longrightarrow> P w1 \<Longrightarrow> P w2"
  shows "once sb1 \<and> err sb1 = None \<Longrightarrow> P w1"
  using assms
proof (induction rule: teardown_steps.induct)
  case (call sb w sb1 w1 e sb2 w2)
  show ?case
  proof (cases "once sb1")
    case True
    then show ?thesis using call again[OF True] by auto
  next
    case False
    then have "sb1 = sb" using steps_first[OF call.hyps(1)] by simp
    moreover have "e = None" using destroy_once[OF call.hyps(2)] call.prems(1) by simp
    ultimately show ?thesis using call by blast
  qed
qed simp_all

end

section \<open>Names and random strings\<close>

definition lower_rune :: "nat \<Rightarrow> char" where
  "lower_rune r =
     (if (97 \<le> r \<and> r \<le> 122) \<or> (48 \<le> r \<and> r \<le> 57) \<or> r = 45 then char_of r
      else if 65 \<le> r \<and> r \<le> 90 then char_of (r + 32) else CHR ''-'')"

lemma decodeRune_pos: "(r, n) = decodeRune s \<Longrightarrow> s \<noteq> [] \<Longrightarrow> 0 < n"
  using decodeRune_width[of s] by (metis snd_conv)

function sanitize :: "string \<Rightarrow> string" where
  "sanitize s = (if s = [] then [] else case decodeRune s of (r, n) \<Rightarrow> lower_rune r # sanitize (drop n s))"
  by pat_completeness auto
termination
  by (relation "measure length") (auto dest: decodeRune_pos)

declare sanitize.simps [simp del]

definition name_char :: "char \<Rightarrow> bool" where
  "name_char c \<longleftrightarrow> (97 \<le> byte c \<and> byte c \<le> 122) \<or> (48 \<le> byte c \<and> byte c \<le> 57) \<or> c = CHR ''-''"

lemma char_of_dash [simp]: "char_of (45 :: nat) = CHR ''-''"
  by code_simp

lemma lower_rune_name: "name_char (lower_rune r)"
  by (auto simp: lower_rune_def name_char_def)

lemma sanitize_name: "list_all name_char (sanitize s)"
proof (induction s rule: sanitize.induct)
  case (1 s)
  then show ?case by (subst sanitize.simps) (auto simp: lower_rune_name split: prod.splits)
qed

lemma sanitize_id: "list_all name_char s \<Longrightarrow> sanitize s = s"
proof (induction s)
  case Nil
  then show ?case by (simp add: sanitize.simps)
next
  case (Cons c s)
  have c: "name_char c" using Cons.prems by simp
  then have "byte c < 128" by (auto simp: name_char_def)
  moreover have "lower_rune (byte c) = c" using c by (auto simp: name_char_def lower_rune_def)
  ultimately show ?case using Cons by (subst sanitize.simps) (simp add: decodeRune_ascii)
qed

definition dbName :: string where "dbName = ''firedrill''"
definition dbUser :: string where "dbUser = ''firedrill''"

section \<open>The Docker provider\<close>

record ContainerSpec =
  cs_Name :: string
  cs_Image :: string
  cs_Env :: "string list"
  cs_Labels :: "(string \<times> string) list"
  cs_Port :: string
  cs_HostIP :: string
  cs_Entrypoint :: "string list"
  cs_Network :: string

text \<open>\<open>dk_Inspect\<close> returns the host ports bound to a container port, \<open>None\<close> without network settings; \<open>dk_ExecStream\<close> the
  frames of the output stream and how it ended; \<open>dk_Rand\<close> reads random bytes (the process panics if it cannot).\<close>

record 'w Docker =
  dk_New :: "'w \<Rightarrow> msg option \<times> 'w"
  dk_Ping :: "'w \<Rightarrow> msg option \<times> 'w"
  dk_NetworkCreate :: "string \<Rightarrow> 'w \<Rightarrow> string res \<times> 'w"
  dk_ImagePull :: "string \<Rightarrow> 'w \<Rightarrow> msg option \<times> 'w"
  dk_PullWait :: "string \<Rightarrow> 'w \<Rightarrow> msg option \<times> 'w"
  dk_ParsePort :: "string \<Rightarrow> string res"
  dk_ContainerCreate :: "ContainerSpec \<Rightarrow> 'w \<Rightarrow> string res \<times> 'w"
  dk_ContainerStart :: "string \<Rightarrow> 'w \<Rightarrow> msg option \<times> 'w"
  dk_Inspect :: "string \<Rightarrow> string \<Rightarrow> 'w \<Rightarrow> string list option res \<times> 'w"
  dk_ContainerRemove :: "string \<Rightarrow> 'w \<Rightarrow> msg option \<times> 'w"
  dk_NetworkRemove :: "string \<Rightarrow> 'w \<Rightarrow> msg option \<times> 'w"
  dk_ExecCreate :: "string \<Rightarrow> string list \<Rightarrow> bool \<Rightarrow> 'w \<Rightarrow> string res \<times> 'w"
  dk_ExecAttach :: "string \<Rightarrow> 'w \<Rightarrow> msg option \<times> 'w"
  dk_ExecStream :: "string \<Rightarrow> string option \<Rightarrow> 'w \<Rightarrow> (string list \<times> msg option) \<times> 'w"
  dk_ExecInspect :: "string \<Rightarrow> 'w \<Rightarrow> int res \<times> 'w"
  dk_Rand :: "nat \<Rightarrow> 'w \<Rightarrow> string \<times> 'w"

record DockerSandbox =
  db_ContainerID :: string
  db_networkID :: string
  db_password :: string
  db_hostPort :: string
  db_once :: bool
  db_destroyErr :: "msg option"
  db_watchdog :: bool
  db_destroyed :: bool

definition randomHex :: "'w Docker \<Rightarrow> nat \<Rightarrow> 'w \<Rightarrow> string \<times> 'w" where
  "randomHex api n w = map_prod hex_EncodeToString id (dk_Rand api n w)"

text \<open>\<open>Exec\<close>. The goroutine that copies standard input drops the error of \<open>io.Copy\<close> and closes the connection for writing: of the stream, the
  command is sent the bytes that could be read (what of them arrives is in what \<open>dk_ExecStream\<close> does).\<close>

definition docker_Exec ::
  "'w Docker \<Rightarrow> string \<Rightarrow> string list \<Rightarrow> FileStream option \<Rightarrow> 'w \<Rightarrow> (int \<times> string \<times> msg option) \<times> 'w" where
  "docker_Exec api cid cmd inp w =
     (case dk_ExecCreate api cid cmd (inp \<noteq> None) w of
        (Inl e, w1) \<Rightarrow> ((- 1, [], Some (Msg ''exec create: %w'' [AErr e])), w1)
      | (Inr xid, w1) \<Rightarrow>
     (case dk_ExecAttach api xid w1 of
        (Some e, w2) \<Rightarrow> ((- 1, [], Some (Msg ''exec attach: %w'' [AErr e])), w2)
      | (None, w2) \<Rightarrow>
     (case dk_ExecStream api xid (map_option fs_Data inp) w2 of ((frames, serr), w3) \<Rightarrow>
      let out = lb_collect MaxExecOutput frames in
      (case serr of
         Some e \<Rightarrow> ((- 1, out, Some (Msg ''exec output: %w'' [AErr e])), w3)
       | None \<Rightarrow>
     (case dk_ExecInspect api xid w3 of
        (Inl e, w4) \<Rightarrow> ((- 1, out, Some (Msg ''exec inspect: %w'' [AErr e])), w4)
      | (Inr code, w4) \<Rightarrow> ((code, out, None), w4))))))"

fun ready_pass :: "(string list \<Rightarrow> 'w \<Rightarrow> (int \<times> string \<times> msg option) \<times> 'w) \<Rightarrow> string list list \<Rightarrow> 'w \<Rightarrow> bool \<times> 'w" where
  "ready_pass exec [] w = (True, w)"
| "ready_pass exec (cmd # cmds) w =
     (case exec cmd w of ((code, _, err), w1) \<Rightarrow> if err \<noteq> None \<or> code \<noteq> 0 then (False, w1) else ready_pass exec cmds w1)"

fun docker_wait :: "'w Runtime \<Rightarrow> (string list \<Rightarrow> 'w \<Rightarrow> (int \<times> string \<times> msg option) \<times> 'w) \<Rightarrow> string list list \<Rightarrow> gotime \<Rightarrow> nat \<Rightarrow> 'w \<Rightarrow> (msg option \<times> 'w) option" where
  "docker_wait rt exec cmds deadline 0 w = None"
| "docker_wait rt exec cmds deadline (Suc n) w =
     (if \<not> rt_Now rt w < deadline then Some (Some (Msg ''sandbox database not ready after 3m'' []), w)
      else (case rt_CtxErr rt w of
        Some e \<Rightarrow> Some (Some e, w)
      | None \<Rightarrow>
          (case ready_pass exec cmds w of
             (True, w1) \<Rightarrow> Some (None, w1)
           | (False, w1) \<Rightarrow> docker_wait rt exec cmds deadline n (rt_Sleep rt (500 * Millisecond) w1))))"

text \<open>Three minutes in steps of half a second; \<open>docker_wait_returns\<close> shows that the fuel is enough.\<close>

definition docker_waitReady ::
  "'w Runtime \<Rightarrow> (string list \<Rightarrow> 'w \<Rightarrow> (int \<times> string \<times> msg option) \<times> 'w) \<Rightarrow> string list list \<Rightarrow> 'w \<Rightarrow> msg option \<times> 'w" where
  "docker_waitReady rt exec cmds w =
     (case docker_wait rt exec cmds (rt_Now rt w + 3 * Minute) 361 w of
        Some r \<Rightarrow> r
      | None \<Rightarrow> (Some (Msg ''sandbox database not ready after 3m'' []), w))"

definition docker_Destroy :: "'w Docker \<Rightarrow> DockerSandbox \<Rightarrow> 'w \<Rightarrow> msg option \<times> DockerSandbox \<times> 'w" where
  "docker_Destroy api sb w =
     (if db_once sb then (db_destroyErr sb, sb, w)
      else
       (case (if db_ContainerID sb \<noteq> [] then dk_ContainerRemove api (db_ContainerID sb) w else (None, w)) of (ce, w1) \<Rightarrow>
        (case (if db_networkID sb \<noteq> [] then dk_NetworkRemove api (db_networkID sb) w1 else (None, w1)) of (ne, w2) \<Rightarrow>
         let err = (case ce of
               Some e \<Rightarrow> Some (Msg ''removing container: %w'' [AErr e])
             | None \<Rightarrow> (case ne of Some e \<Rightarrow> Some (Msg ''removing network: %w'' [AErr e]) | None \<Rightarrow> None))
         in (err, sb\<lparr>db_once := True, db_destroyErr := err, db_watchdog := False, db_destroyed := (err = None)\<rparr>, w2))))"

interpretation docker: teardown "docker_Destroy api" db_once db_destroyErr db_destroyed for api
proof
  show "\<not> db_once sb \<Longrightarrow> docker_Destroy api sb w = (e, sb1, w1) \<Longrightarrow> db_once sb1 \<and> db_destroyErr sb1 = e \<and> (db_destroyed sb1 \<longleftrightarrow> e = None)"
    for api :: "'a Docker" and sb w e sb1 w1
    by (auto simp: docker_Destroy_def Let_def split: prod.splits)
  show "db_once sb \<Longrightarrow> docker_Destroy api sb w = (db_destroyErr sb, sb, w)" for api :: "'a Docker" and sb w
    by (simp add: docker_Destroy_def)
qed

definition docker_spec :: "'w Runtime \<Rightarrow> Config \<Rightarrow> string \<Rightarrow> string \<Rightarrow> string \<Rightarrow> string \<Rightarrow> 'w \<Rightarrow> ContainerSpec" where
  "docker_spec rt cfg name nwID password port w =
     \<lparr>cs_Name = name, cs_Image = cf_Image cfg, cs_Env = ContainerEnv (cf_Driver cfg) dbUser password dbName,
      cs_Labels = [(''firedrill'', ''sandbox''), (''firedrill/drill'', cf_Name cfg),
        (''firedrill.expires-at'', format_RFC3339 (rt_Now rt w + cf_TTL cfg))],
      cs_Port = port, cs_HostIP = ''127.0.0.1'', cs_Entrypoint = (if cf_ColdStart cfg then [''sleep'', ''infinity''] else []),
      cs_Network = nwID\<rparr>"

text \<open>The part of \<open>Provision\<close> behind its \<open>defer\<close>, in two halves: up to the creation of the container, and from its start to
  the published port. Both return the sandbox as it is when they stop.\<close>

definition docker_create ::
  "'w Runtime \<Rightarrow> 'w Docker \<Rightarrow> Config \<Rightarrow> string \<Rightarrow> DockerSandbox \<Rightarrow> 'w \<Rightarrow> string res \<times> DockerSandbox \<times> 'w" where
  "docker_create rt api cfg name sb w =
     (case dk_ImagePull api (cf_Image cfg) w of
        (Some e, w1) \<Rightarrow> (Inl (Msg ''pulling %s: %w'' [AStr (cf_Image cfg), AErr e]), sb, w1)
      | (None, w1) \<Rightarrow>
     (case dk_PullWait api (cf_Image cfg) w1 of
        (Some e, w2) \<Rightarrow> (Inl (Msg ''pulling %s: %w'' [AStr (cf_Image cfg), AErr e]), sb, w2)
      | (None, w2) \<Rightarrow>
     (case dk_ParsePort api (Port (cf_Driver cfg)) of
        Inl e \<Rightarrow> (Inl (Msg ''driver port: %w'' [AErr e]), sb, w2)
      | Inr port \<Rightarrow>
     (case dk_ContainerCreate api (docker_spec rt cfg name (db_networkID sb) (db_password sb) port w2) w2 of
        (Inl e, w3) \<Rightarrow> (Inl (Msg ''creating sandbox container: %w'' [AErr e]), sb, w3)
      | (Inr cid, w3) \<Rightarrow> (Inr port, sb\<lparr>db_ContainerID := cid\<rparr>, w3)))))"

definition docker_boot ::
  "'w Runtime \<Rightarrow> 'w Docker \<Rightarrow> Config \<Rightarrow> string \<Rightarrow> DockerSandbox \<Rightarrow> 'w \<Rightarrow> msg option \<times> DockerSandbox \<times> 'w" where
  "docker_boot rt api cfg port sb w =
     (case dk_ContainerStart api (db_ContainerID sb) w of
        (Some e, w1) \<Rightarrow> (Some (Msg ''starting sandbox: %w'' [AErr e]), sb, w1)
      | (None, w1) \<Rightarrow>
     (case (if \<not> cf_ColdStart cfg
            then docker_waitReady rt (\<lambda>cmd. docker_Exec api (db_ContainerID sb) cmd None) (ReadyCmds (cf_Driver cfg) dbUser (db_password sb) dbName) w1
            else (None, w1)) of
        (Some e, w2) \<Rightarrow> (Some e, sb, w2)
      | (None, w2) \<Rightarrow>
     (case dk_Inspect api (db_ContainerID sb) port w2 of
        (Inl e, w3) \<Rightarrow> (Some (Msg ''inspecting sandbox: %w'' [AErr e]), sb, w3)
      | (Inr None, w3) \<Rightarrow> (Some (Msg ''sandbox has no network settings'' []), sb, w3)
      | (Inr (Some []), w3) \<Rightarrow> (Some (Msg ''sandbox has no published port'' []), sb, w3)
      | (Inr (Some (b # ports)), w3) \<Rightarrow> (None, sb\<lparr>db_hostPort := b\<rparr>, w3))))"

definition docker_Provision :: "'w Runtime \<Rightarrow> 'w Docker \<Rightarrow> Config \<Rightarrow> 'w \<Rightarrow> DockerSandbox res \<times> 'w" where
  "docker_Provision rt api cfg w =
     (case dk_New api w of
        (Some e, w1) \<Rightarrow> (Inl (Msg ''connecting to docker: %w'' [AErr e]), w1)
      | (None, w1) \<Rightarrow>
     (case dk_Ping api w1 of
        (Some e, w2) \<Rightarrow> (Inl (Msg ''cannot reach the Docker daemon - is Docker running? (%w)'' [AErr e]), w2)
      | (None, w2) \<Rightarrow>
     (case randomHex api 4 w2 of (sfx, w3) \<Rightarrow>
     (let name = ''firedrill-'' @ sanitize (cf_Name cfg) @ ''-'' @ sfx in
     (case randomHex api 16 w3 of (password, w4) \<Rightarrow>
     (case dk_NetworkCreate api name w4 of
        (Inl e, w5) \<Rightarrow> (Inl (Msg ''creating sandbox network: %w'' [AErr e]), w5)
      | (Inr nwID, w5) \<Rightarrow>
       (let s0 = \<lparr>db_ContainerID = [], db_networkID = nwID, db_password = password, db_hostPort = [], db_once = False,
               db_destroyErr = None, db_watchdog = False, db_destroyed = False\<rparr>;
            cleanup = (\<lambda>e s w. (Inl e, snd (snd (docker_Destroy api s w))))
        in (case docker_create rt api cfg name s0 w5 of
              (Inl e, s1, w6) \<Rightarrow> cleanup e s1 w6
            | (Inr port, s1, w6) \<Rightarrow>
                (case docker_boot rt api cfg port s1 w6 of
                   (Some e, s2, w7) \<Rightarrow> cleanup e s2 w7
                 | (None, s2, w7) \<Rightarrow> (Inr (s2\<lparr>db_watchdog := True\<rparr>), w7))))))))))"

text \<open>The driver's view of a Docker sandbox.\<close>

definition docker_box :: "'w Docker \<Rightarrow> DockerSandbox \<Rightarrow> 'w Box" where
  "docker_box api sb = \<lparr>bx_Exec = docker_Exec api (db_ContainerID sb), bx_Host = ''127.0.0.1'', bx_HostPort = db_hostPort sb,
     bx_User = dbUser, bx_Password = db_password sb, bx_DB = dbName\<rparr>"

section \<open>Waiting for readiness ends\<close>

lemma ready_pass_forward:
  "(\<And>cmd. rt_forward rt (exec cmd)) \<Longrightarrow> rt_Now rt w \<le> rt_Now rt (snd (ready_pass exec cmds w))"
proof (induction cmds arbitrary: w)
  case (Cons cmd cmds)
  obtain c out e w1 where x: "exec cmd w = ((c, out, e), w1)" by (metis prod.collapse)
  have "rt_Now rt w \<le> rt_Now rt w1" using Cons.prems[of cmd] x unfolding rt_forward_def by (metis snd_conv)
  then show ?case using x Cons.IH[OF Cons.prems, of w1] by auto
qed simp

lemma docker_wait_returns:
  assumes "rt_clock rt" and "\<And>cmd. rt_forward rt (exec cmd)"
  shows "deadline \<le> rt_Now rt w + int n * (500 * Millisecond) \<Longrightarrow> docker_wait rt exec cmds deadline (Suc n) w \<noteq> None"
proof (induction n arbitrary: w)
  case 0
  then show ?case by simp
next
  case (Suc n)
  obtain ok w1 where p: "ready_pass exec cmds w = (ok, w1)" by fastforce
  have "rt_Now rt w \<le> rt_Now rt w1" using ready_pass_forward[of rt exec, OF assms(2), of w cmds] p by simp
  moreover have "rt_Now rt w1 + 500 * Millisecond \<le> rt_Now rt (rt_Sleep rt (500 * Millisecond) w1)"
    using assms(1) by (simp add: rt_clock_def)
  ultimately have "deadline \<le> rt_Now rt (rt_Sleep rt (500 * Millisecond) w1) + int n * (500 * Millisecond)"
    using Suc.prems by (simp add: algebra_simps)
  from Suc.IH[OF this] show ?case
    by (subst docker_wait.simps) (auto simp: p simp del: docker_wait.simps split: option.splits bool.splits)
qed

lemma docker_waitReady_loop:
  assumes "rt_clock rt" and "\<And>cmd. rt_forward rt (exec cmd)"
  shows "docker_wait rt exec cmds (rt_Now rt w + 3 * Minute) 361 w = Some (docker_waitReady rt exec cmds w)"
  using docker_wait_returns[OF assms, where w = w and n = 360 and deadline = "rt_Now rt w + 3 * Minute" and cmds = cmds]
  by (auto simp: docker_waitReady_def simp del: docker_wait.simps split: option.splits)

section \<open>Nothing is left running\<close>

datatype resource = RContainer string | RNetwork string | RPod string string | RNamespace string | RRestore string

text \<open>
  \<open>keeps live f\<close>: the call \<open>f\<close> creates and removes nothing. \<open>docker_laws\<close> is the documented behaviour of the Docker API on what
  exists: a successful create adds one object under a fresh, non-empty id, a failed one adds nothing, a successful remove removes the
  object, and no other call changes what exists.
\<close>

definition keeps :: "('w \<Rightarrow> resource set) \<Rightarrow> ('w \<Rightarrow> 'a \<times> 'w) \<Rightarrow> bool" where
  "keeps live f \<longleftrightarrow> (\<forall>w. live (snd (f w)) = live w)"

definition creates :: "('w \<Rightarrow> resource set) \<Rightarrow> (string \<Rightarrow> resource) \<Rightarrow> ('w \<Rightarrow> string res \<times> 'w) \<Rightarrow> bool" where
  "creates live R f \<longleftrightarrow> (\<forall>w. case f w of
     (Inl _, w1) \<Rightarrow> live w1 = live w
   | (Inr i, w1) \<Rightarrow> i \<noteq> [] \<and> R i \<notin> live w \<and> live w1 = insert (R i) (live w))"

definition removes :: "('w \<Rightarrow> resource set) \<Rightarrow> resource \<Rightarrow> ('w \<Rightarrow> msg option \<times> 'w) \<Rightarrow> bool" where
  "removes live r f \<longleftrightarrow> (\<forall>w. case f w of (None, w1) \<Rightarrow> live w1 = live w - {r} | (Some _, w1) \<Rightarrow> True)"

definition docker_laws :: "('w \<Rightarrow> resource set) \<Rightarrow> 'w Runtime \<Rightarrow> 'w Docker \<Rightarrow> bool" where
  "docker_laws live rt api \<longleftrightarrow>
     keeps live (dk_New api) \<and> keeps live (dk_Ping api) \<and> (\<forall>n. keeps live (dk_Rand api n)) \<and>
     (\<forall>i. keeps live (dk_ImagePull api i)) \<and> (\<forall>i. keeps live (dk_PullWait api i)) \<and> (\<forall>c. keeps live (dk_ContainerStart api c)) \<and>
     (\<forall>c p. keeps live (dk_Inspect api c p)) \<and> (\<forall>c cmd i. keeps live (dk_ExecCreate api c cmd i)) \<and> (\<forall>x. keeps live (dk_ExecAttach api x)) \<and>
     (\<forall>x i. keeps live (dk_ExecStream api x i)) \<and> (\<forall>x. keeps live (dk_ExecInspect api x)) \<and> (\<forall>d w. live (rt_Sleep rt d w) = live w) \<and>
     (\<forall>n. creates live RNetwork (dk_NetworkCreate api n)) \<and> (\<forall>c. creates live RContainer (dk_ContainerCreate api c)) \<and>
     (\<forall>i. removes live (RContainer i) (dk_ContainerRemove api i)) \<and> (\<forall>i. removes live (RNetwork i) (dk_NetworkRemove api i))"

lemma keepsD: "keeps live f \<Longrightarrow> f w = (x, w1) \<Longrightarrow> live w1 = live w"
  unfolding keeps_def by (metis snd_conv)

lemma createsD:
  "creates live R f \<Longrightarrow> f w = (Inl e, w1) \<Longrightarrow> live w1 = live w"
  "creates live R f \<Longrightarrow> f w = (Inr i, w1) \<Longrightarrow> i \<noteq> [] \<and> R i \<notin> live w \<and> live w1 = insert (R i) (live w)"
  unfolding creates_def by (auto dest!: spec[of _ w])

lemma removesD: "removes live r f \<Longrightarrow> f w = (None, w1) \<Longrightarrow> live w1 = live w - {r}"
  unfolding removes_def by (auto dest!: spec[of _ w])

text \<open>A read error of the standard input changes nothing of what \<open>Exec\<close> does and returns: the command runs on the part that was read.\<close>

lemma docker_Exec_read_error: "docker_Exec api cid cmd (Some (inp\<lparr>fs_Err := e\<rparr>)) = docker_Exec api cid cmd (Some inp)"
proof
  have "map_option fs_Data (Some (inp\<lparr>fs_Err := e\<rparr>)) = map_option fs_Data (Some inp)" by simp
  then show "docker_Exec api cid cmd (Some (inp\<lparr>fs_Err := e\<rparr>)) w = docker_Exec api cid cmd (Some inp) w" for w
    by (simp only: docker_Exec_def option.distinct not_False_eq_True)
qed

lemma docker_fed_read_error: "fed (docker_box api sb) cmd (inp\<lparr>fs_Err := e\<rparr>) w0 w1 \<longleftrightarrow> fed (docker_box api sb) cmd inp w0 w1"
  by (simp add: fed_def docker_box_def docker_Exec_read_error)

lemma docker_Exec_keeps:
  assumes "docker_laws live rt api" shows "keeps live (docker_Exec api cid cmd inp)"
proof -
  note laws = assms[unfolded docker_laws_def]
  show ?thesis unfolding keeps_def
  proof
    fix w
    obtain r1 w1 where x1: "dk_ExecCreate api cid cmd (inp \<noteq> None) w = (r1, w1)" by fastforce
    have l1: "live w1 = live w" using laws x1 keepsD by metis
    show "live (snd (docker_Exec api cid cmd inp w)) = live w"
    proof (cases r1)
      case (Inl e)
      then show ?thesis using x1 l1 by (simp add: docker_Exec_def)
    next
      case (Inr xid)
      obtain r2 w2 where x2: "dk_ExecAttach api xid w1 = (r2, w2)" by fastforce
      obtain fr se w3 where x3: "dk_ExecStream api xid (map_option fs_Data inp) w2 = ((fr, se), w3)" by (metis prod.collapse)
      obtain r4 w4 where x4: "dk_ExecInspect api xid w3 = (r4, w4)" by fastforce
      have "live w2 = live w1" "live w3 = live w2" "live w4 = live w3" using laws x2 x3 x4 keepsD by metis+
      then show ?thesis using x1 x2 x3 x4 Inr l1 by (auto simp: docker_Exec_def Let_def split: option.splits sum.splits)
    qed
  qed
qed

lemma ready_pass_keeps: "(\<And>cmd. keeps live (exec cmd)) \<Longrightarrow> live (snd (ready_pass exec cmds w)) = live w"
proof (induction cmds arbitrary: w)
  case (Cons cmd cmds)
  obtain c out e w1 where x: "exec cmd w = ((c, out, e), w1)" by (metis prod.collapse)
  then have "live w1 = live w" using keepsD[OF Cons.prems] by blast
  then show ?case using x Cons.IH[OF Cons.prems, of w1] by auto
qed simp

lemma docker_wait_keeps:
  assumes "\<And>cmd. keeps live (exec cmd)" and "\<forall>d w. live (rt_Sleep rt d w) = live w"
  shows "docker_wait rt exec cmds deadline n w = Some (r, w1) \<Longrightarrow> live w1 = live w"
proof (induction n arbitrary: w)
  case (Suc n)
  obtain ok w2 where p: "ready_pass exec cmds w = (ok, w2)" by fastforce
  have "live w2 = live w" using ready_pass_keeps[of live exec, OF assms(1), of cmds w] p by simp
  then show ?case using Suc assms(2) p by (auto split: if_splits option.splits bool.splits)
qed simp

lemma docker_waitReady_keeps:
  assumes "\<And>cmd. keeps live (exec cmd)" and "\<forall>d w. live (rt_Sleep rt d w) = live w"
  shows "live (snd (docker_waitReady rt exec cmds w)) = live w"
  unfolding docker_waitReady_def using docker_wait_keeps[OF assms] by (auto split: option.splits)

definition sb_resources :: "DockerSandbox \<Rightarrow> resource set" where
  "sb_resources sb = (if db_ContainerID sb = [] then {} else {RContainer (db_ContainerID sb)}) \<union>
     (if db_networkID sb = [] then {} else {RNetwork (db_networkID sb)})"

lemma docker_create_live:
  assumes "docker_laws live rt api" and "docker_create rt api cfg name sb w = (r, sb1, w1)" and "db_ContainerID sb = []"
  shows "\<exists>cid. sb1 = sb\<lparr>db_ContainerID := cid\<rparr> \<and> (case r of Inl _ \<Rightarrow> cid = [] | Inr _ \<Rightarrow> cid \<noteq> [] \<and> RContainer cid \<notin> live w) \<and>
    live w1 = live w \<union> (if cid = [] then {} else {RContainer cid})"
proof -
  note laws = assms(1)[unfolded docker_laws_def]
  have sb: "sb = sb\<lparr>db_ContainerID := []\<rparr>" using assms(3) by simp
  obtain e1 wa where x1: "dk_ImagePull api (cf_Image cfg) w = (e1, wa)" by fastforce
  obtain e2 wb where x2: "dk_PullWait api (cf_Image cfg) wa = (e2, wb)" by fastforce
  have l: "live wa = live w" "live wb = live wa" using laws x1 x2 keepsD by metis+
  show ?thesis
  proof (cases "e1 = None \<and> e2 = None \<and> res_ok (dk_ParsePort api (Port (cf_Driver cfg)))")
    case False
    then have "sb1 = sb \<and> live w1 = live w \<and> (\<exists>e. r = Inl e)"
      using assms(2) x1 x2 l
      by (cases "dk_ParsePort api (Port (cf_Driver cfg))") (auto simp: docker_create_def split: option.splits)
    then show ?thesis using sb by (intro exI[of _ "[]"]) auto
  next
    case True
    then obtain port where p: "dk_ParsePort api (Port (cf_Driver cfg)) = Inr port"
      by (cases "dk_ParsePort api (Port (cf_Driver cfg))") auto
    let ?spec = "docker_spec rt cfg name (db_networkID sb) (db_password sb) port wb"
    obtain c wc where x3: "dk_ContainerCreate api ?spec wb = (c, wc)" by fastforce
    have cr: "creates live RContainer (dk_ContainerCreate api ?spec)" using laws by blast
    show ?thesis
    proof (cases c)
      case (Inl e)
      then have "sb1 = sb \<and> w1 = wc \<and> (\<exists>e. r = Inl e)" using assms(2) x1 x2 x3 True p by (auto simp: docker_create_def)
      then show ?thesis using createsD(1)[OF cr] x3 Inl l sb by (intro exI[of _ "[]"]) auto
    next
      case (Inr cid)
      then have "sb1 = sb\<lparr>db_ContainerID := cid\<rparr> \<and> w1 = wc \<and> r = Inr port"
        using assms(2) x1 x2 x3 True p by (simp add: docker_create_def)
      then show ?thesis using createsD(2)[OF cr x3[unfolded Inr]] l by (intro exI[of _ cid]) auto
    qed
  qed
qed

lemma docker_boot_live:
  assumes "docker_laws live rt api" and "docker_boot rt api cfg port sb w = (r, sb1, w1)"
  shows "live w1 = live w \<and> (\<exists>hp. sb1 = sb\<lparr>db_hostPort := hp\<rparr>)"
proof -
  note laws = assms(1)[unfolded docker_laws_def]
  let ?wait = "\<lambda>w. if \<not> cf_ColdStart cfg
    then docker_waitReady rt (\<lambda>cmd. docker_Exec api (db_ContainerID sb) cmd None) (ReadyCmds (cf_Driver cfg) dbUser (db_password sb) dbName) w
    else (None, w)"
  obtain e1 wa where x1: "dk_ContainerStart api (db_ContainerID sb) w = (e1, wa)" by fastforce
  obtain e2 wb where x2: "?wait wa = (e2, wb)" by (metis prod.collapse)
  obtain e3 wc where x3: "dk_Inspect api (db_ContainerID sb) port wb = (e3, wc)" by fastforce
  have l1: "live wa = live w" and l3: "live wc = live wb" using laws x1 x3 keepsD by metis+
  have "live (snd (docker_waitReady rt (\<lambda>cmd. docker_Exec api (db_ContainerID sb) cmd None) cmds wa)) = live wa" for cmds
    by (rule docker_waitReady_keeps) (use docker_Exec_keeps[OF assms(1)] laws in auto)
  then have l2: "live wb = live wa" using x2 by (metis snd_conv)
  have "(sb1 = sb \<or> (\<exists>hp. sb1 = sb\<lparr>db_hostPort := hp\<rparr>)) \<and> live w1 = live w"
  proof (cases "e1 = None \<and> e2 = None")
    case True
    then show ?thesis using assms(2) x1 x2 x3 l1 l2 l3
      by (simp add: docker_boot_def split: sum.splits option.splits list.splits) blast+
  next
    case False
    then show ?thesis using assms(2) x1 x2 l1 l2 by (auto simp: docker_boot_def split: option.splits)
  qed
  moreover have "sb = sb\<lparr>db_hostPort := db_hostPort sb\<rparr>" by simp
  ultimately show ?thesis by blast
qed

lemma docker_Destroy_live:
  assumes "docker_laws live rt api" and "\<not> db_once sb" and "docker_Destroy api sb w = (None, sb1, w1)"
  shows "live w1 = live w - sb_resources sb"
proof -
  note laws = assms(1)[unfolded docker_laws_def]
  define cr where "cr = (if db_ContainerID sb \<noteq> [] then dk_ContainerRemove api (db_ContainerID sb) w else (None, w))"
  obtain ce wa where x1: "cr = (ce, wa)" by fastforce
  define nr where "nr = (if db_networkID sb \<noteq> [] then dk_NetworkRemove api (db_networkID sb) wa else (None, wa))"
  obtain ne wb where x2: "nr = (ne, wb)" by fastforce
  have ok: "ce = None \<and> ne = None \<and> w1 = wb"
    using assms(2,3) x1 x2 unfolding docker_Destroy_def cr_def[symmetric] by (auto simp: nr_def Let_def split: option.splits)
  have rm: "removes live (RContainer i) (dk_ContainerRemove api i)" "removes live (RNetwork i) (dk_NetworkRemove api i)" for i
    using laws by blast+
  have "live wa = live w - (if db_ContainerID sb = [] then {} else {RContainer (db_ContainerID sb)})"
    using x1 ok removesD[OF rm(1)] by (simp add: cr_def split: if_splits)
  moreover have "live wb = live wa - (if db_networkID sb = [] then {} else {RNetwork (db_networkID sb)})"
    using x2 ok removesD[OF rm(2)] by (simp add: nr_def split: if_splits)
  ultimately show ?thesis using ok by (auto simp: sb_resources_def)
qed

definition docker_removes :: "'w Docker \<Rightarrow> bool" where
  "docker_removes api \<longleftrightarrow> (\<forall>i w. fst (dk_ContainerRemove api i w) = None) \<and> (\<forall>i w. fst (dk_NetworkRemove api i w) = None)"

lemma docker_removes_Destroy: "docker_removes api \<Longrightarrow> \<not> db_once sb \<Longrightarrow> \<exists>sb1 w1. docker_Destroy api sb w = (None, sb1, w1)"
proof -
  assume r: "docker_removes api" and o: "\<not> db_once sb"
  have c: "\<exists>w1. (if db_ContainerID sb \<noteq> [] then dk_ContainerRemove api (db_ContainerID sb) w else (None, w)) = (None, w1)"
    using r unfolding docker_removes_def by (metis prod.collapse)
  have "\<exists>w2. (if db_networkID sb \<noteq> [] then dk_NetworkRemove api (db_networkID sb) w1 else (None, w1)) = (None, w2)" for w1
    using r unfolding docker_removes_def by (metis prod.collapse)
  then obtain w1 w2 where
      "(if db_ContainerID sb \<noteq> [] then dk_ContainerRemove api (db_ContainerID sb) w else (None, w)) = (None, w1)"
      "(if db_networkID sb \<noteq> [] then dk_NetworkRemove api (db_networkID sb) w1 else (None, w1)) = (None, w2)"
    using c by blast
  then show ?thesis using o unfolding docker_Destroy_def by (simp only: if_False) simp
qed

text \<open>The stages of a provision, with what exists after each.\<close>

lemma docker_Provision_live:
  assumes "docker_laws live rt api" and "docker_Provision rt api cfg w = (res, w1)"
  shows "(\<exists>e. res = Inl e \<and> live w1 = live w) \<or>
    (\<exists>e s w0. res = Inl e \<and> \<not> db_once s \<and> sb_resources s \<inter> live w = {} \<and> live w0 = live w \<union> sb_resources s \<and>
       w1 = snd (snd (docker_Destroy api s w0))) \<or>
    (\<exists>s. res = Inr s \<and> \<not> db_once s \<and> \<not> db_destroyed s \<and> db_ContainerID s \<noteq> [] \<and> db_networkID s \<noteq> [] \<and>
       sb_resources s \<inter> live w = {} \<and> live w1 = live w \<union> sb_resources s)"
proof -
  note laws = assms(1)[unfolded docker_laws_def]
  obtain e1 wa where x1: "dk_New api w = (e1, wa)" by fastforce
  obtain e2 wb where x2: "dk_Ping api wa = (e2, wb)" by fastforce
  obtain sfx wc where x3: "randomHex api 4 wb = (sfx, wc)" by fastforce
  obtain pw wd where x4: "randomHex api 16 wc = (pw, wd)" by fastforce
  define name where "name = ''firedrill-'' @ sanitize (cf_Name cfg) @ ''-'' @ sfx"
  obtain nr we where x5: "dk_NetworkCreate api name wd = (nr, we)" by fastforce
  have rnd: "keeps live (randomHex api n)" for n using laws unfolding randomHex_def keeps_def by simp
  have l: "live wa = live w" "live wb = live wa" "live wc = live wb" "live wd = live wc"
    using laws x1 x2 x3 x4 keepsD rnd by metis+
  have cr: "creates live RNetwork (dk_NetworkCreate api name)" using laws by blast
  show ?thesis
  proof (cases "e1 = None \<and> e2 = None \<and> res_ok nr")
    case False
    have "live we = live wd" if "nr = Inl e" for e using createsD(1)[OF cr] x5 that by blast
    then have "\<exists>e. res = Inl e \<and> live w1 = live w"
      using False assms(2) x1 x2 x3 x4 x5 l
      by (cases nr) (auto simp: docker_Provision_def Let_def name_def split: option.splits)
    then show ?thesis by blast
  next
    case True
    then obtain nid where n: "nr = Inr nid" by (cases nr) auto
    have nw: "nid \<noteq> []" "RNetwork nid \<notin> live w" "live we = insert (RNetwork nid) (live w)"
      using createsD(2)[OF cr x5[unfolded n]] l by auto
    define s0 where "s0 = \<lparr>db_ContainerID = [], db_networkID = nid, db_password = pw, db_hostPort = [], db_once = False,
               db_destroyErr = None, db_watchdog = False, db_destroyed = False\<rparr>"
    obtain r6 s1 wf where x6: "docker_create rt api cfg name s0 we = (r6, s1, wf)" by (metis prod.collapse)
    have P: "docker_Provision rt api cfg w = (case docker_create rt api cfg name s0 we of
              (Inl e, s1, w6) \<Rightarrow> (Inl e, snd (snd (docker_Destroy api s1 w6)))
            | (Inr port, s1, w6) \<Rightarrow>
                (case docker_boot rt api cfg port s1 w6 of
                   (Some e, s2, w7) \<Rightarrow> (Inl e, snd (snd (docker_Destroy api s2 w7)))
                 | (None, s2, w7) \<Rightarrow> (Inr (s2\<lparr>db_watchdog := True\<rparr>), w7)))"
      using True n x1 x2 x3 x4 x5 by (simp add: docker_Provision_def name_def s0_def Let_def)
    have c0: "db_ContainerID s0 = []" by (simp add: s0_def)
    obtain cid where s1: "s1 = s0\<lparr>db_ContainerID := cid\<rparr>"
      and ci: "case r6 of Inl _ \<Rightarrow> cid = [] | Inr _ \<Rightarrow> cid \<noteq> [] \<and> RContainer cid \<notin> live we"
      and lf: "live wf = live we \<union> (if cid = [] then {} else {RContainer cid})"
      using docker_create_live[OF assms(1) x6 c0] by blast
    have res1: "sb_resources s1 \<inter> live w = {}" "live wf = live w \<union> sb_resources s1"
      using nw ci lf s1 by (auto simp: s0_def sb_resources_def split: sum.splits)
    show ?thesis
    proof (cases r6)
      case (Inl e)
      then have "res = Inl e \<and> w1 = snd (snd (docker_Destroy api s1 wf))" using assms(2) P x6 by simp
      moreover have "\<not> db_once s1" using s1 by (simp add: s0_def)
      ultimately show ?thesis using res1 by blast
    next
      case (Inr port)
      obtain e7 s2 wg where x7: "docker_boot rt api cfg port s1 wf = (e7, s2, wg)" by (metis prod.collapse)
      obtain hp where s2: "s2 = s1\<lparr>db_hostPort := hp\<rparr>" "live wg = live wf" using docker_boot_live[OF assms(1) x7] by blast
      show ?thesis
      proof (cases e7)
        case None
        then have "res = Inr (s2\<lparr>db_watchdog := True\<rparr>) \<and> w1 = wg" using assms(2) P x6 x7 Inr by simp
        moreover have "cid \<noteq> []" using ci Inr by simp
        ultimately show ?thesis using res1 s1 s2 nw by (intro disjI2) (simp add: s0_def sb_resources_def)
      next
        case (Some e)
        then have "res = Inl e \<and> w1 = snd (snd (docker_Destroy api s2 wg))" using assms(2) P x6 x7 Inr by simp
        moreover have "\<not> db_once s2" "sb_resources s2 = sb_resources s1" using s1 s2 by (simp_all add: s0_def sb_resources_def)
        ultimately show ?thesis using res1 s2(2) by metis
      qed
    qed
  qed
qed

text \<open>
  Provisioning leaves nothing behind. When \<open>Provision\<close> succeeds, exactly one new container and one new network exist, and a
  teardown without error removes exactly these. When it fails, at whatever step, and the removals work, what exists is what existed before.
\<close>

lemma docker_Provision_clean:
  assumes "docker_laws live rt api" and "docker_Provision rt api cfg w = (res, w1)"
  shows "case res of
     Inl e \<Rightarrow> docker_removes api \<longrightarrow> live w1 = live w
   | Inr sb \<Rightarrow> RContainer (db_ContainerID sb) \<notin> live w \<and> RNetwork (db_networkID sb) \<notin> live w \<and>
       live w1 = live w \<union> {RContainer (db_ContainerID sb), RNetwork (db_networkID sb)} \<and>
       (\<forall>sb2 w2. docker_Destroy api sb w1 = (None, sb2, w2) \<longrightarrow> live w2 = live w)"
proof -
  consider (early) e where "res = Inl e" "live w1 = live w"
    | (cleanup) e s w0 where "res = Inl e" "\<not> db_once s" "sb_resources s \<inter> live w = {}" "live w0 = live w \<union> sb_resources s"
        "w1 = snd (snd (docker_Destroy api s w0))"
    | (ok) s where "res = Inr s" "\<not> db_once s" "db_ContainerID s \<noteq> []" "db_networkID s \<noteq> []"
        "sb_resources s \<inter> live w = {}" "live w1 = live w \<union> sb_resources s"
    using docker_Provision_live[OF assms] by blast
  then show ?thesis
  proof cases
    case early
    then show ?thesis by simp
  next
    case cleanup
    have "live w1 = live w" if "docker_removes api"
    proof -
      obtain s1 w2 where d: "docker_Destroy api s w0 = (None, s1, w2)" using docker_removes_Destroy[of api s w0] \<open>docker_removes api\<close> cleanup(2) by metis
      then show ?thesis using docker_Destroy_live[OF assms(1) cleanup(2) d] cleanup by auto
    qed
    then show ?thesis using cleanup(1) by simp
  next
    case ok
    have "live w2 = live w" if "docker_Destroy api s w1 = (None, s2, w2)" for s2 w2
      using docker_Destroy_live[OF assms(1) ok(2) that] ok(5,6) by auto
    then show ?thesis using ok by (auto simp: sb_resources_def)
  qed
qed

text \<open>A world for evaluation: the list of what exists; a new object gets an id longer than all others.\<close>

fun res_len :: "resource \<Rightarrow> nat" where
  "res_len (RContainer i) = length i"
| "res_len (RNetwork i) = length i"
| "res_len (RPod n i) = length i"
| "res_len (RNamespace i) = length i"
| "res_len (RRestore i) = length i"

definition fresh_id :: "resource list \<Rightarrow> string" where
  "fresh_id w = replicate (Suc (sum_list (map res_len w))) CHR ''x''"

definition demo_rt :: "resource list Runtime" where
  "demo_rt = \<lparr>rt_Now = \<lambda>w. 0, rt_Sleep = \<lambda>d w. w, rt_CtxErr = \<lambda>w. None\<rparr>"

definition demo_docker :: "resource list Docker" where
  "demo_docker = \<lparr>dk_New = Pair None, dk_Ping = Pair None, dk_NetworkCreate = \<lambda>n w. (Inr (fresh_id w), RNetwork (fresh_id w) # w),
     dk_ImagePull = \<lambda>i. Pair None, dk_PullWait = \<lambda>i. Pair None, dk_ParsePort = Inr,
     dk_ContainerCreate = \<lambda>c w. (Inr (fresh_id w), RContainer (fresh_id w) # w), dk_ContainerStart = \<lambda>c. Pair None,
     dk_Inspect = \<lambda>c p. Pair (Inr (Some [''49153''])), dk_ContainerRemove = \<lambda>i w. (None, removeAll (RContainer i) w),
     dk_NetworkRemove = \<lambda>i w. (None, removeAll (RNetwork i) w), dk_ExecCreate = \<lambda>c cmd i. Pair (Inr ''e''), dk_ExecAttach = \<lambda>x. Pair None,
     dk_ExecStream = \<lambda>x i. Pair ([''ok''], None), dk_ExecInspect = \<lambda>x. Pair (Inr 0), dk_Rand = \<lambda>n. Pair (replicate n CHR ''r'')\<rparr>"

definition demo_config :: Config where
  "demo_config = \<lparr>cf_Image = ''postgres:16'', cf_TTL = Hour, cf_Name = ''pay-1'', cf_Driver = Postgres, cf_Namespace = [], cf_ColdStart = False\<rparr>"

lemma fresh_id_fresh: "r \<in> set w \<Longrightarrow> res_len r < length (fresh_id w)"
  using member_le_sum_list[of "res_len r" "map res_len w"] by (simp add: fresh_id_def)

lemma demo_docker_laws: "docker_laws set demo_rt demo_docker"
proof -
  have "R (fresh_id w) \<notin> set w" if "\<And>i. res_len (R i) = length i" for R w
    using fresh_id_fresh[of "R (fresh_id w)" w] that by auto
  from this[of RNetwork] this[of RContainer] show ?thesis
    by (auto simp: docker_laws_def keeps_def creates_def removes_def demo_docker_def demo_rt_def fresh_id_def)
qed

lemma docker_waitReady_at_once:
  assumes "ready_pass exec cmds w = (True, w1)" and "rt_CtxErr rt w = None"
  shows "docker_waitReady rt exec cmds w = (None, w1)"
proof -
  have n: "(361 :: nat) = Suc 360" by simp
  show ?thesis unfolding docker_waitReady_def n docker_wait.simps using assms by simp
qed

lemma demo_docker_calls:
  "dk_New demo_docker = Pair None" "dk_Ping demo_docker = Pair None" "dk_ImagePull demo_docker i = Pair None"
  "dk_PullWait demo_docker i = Pair None" "dk_ParsePort demo_docker = Inr" "dk_ContainerStart demo_docker i = Pair None"
  "dk_Inspect demo_docker i p = Pair (Inr (Some [''49153'']))" "dk_Rand demo_docker n = Pair (replicate n CHR ''r'')"
  "dk_NetworkCreate demo_docker i w = (Inr (fresh_id w), RNetwork (fresh_id w) # w)"
  "dk_ContainerCreate demo_docker c w = (Inr (fresh_id w), RContainer (fresh_id w) # w)"
  "rt_CtxErr demo_rt w = None" "\<not> cf_ColdStart demo_config"
  by (simp_all add: demo_docker_def demo_rt_def demo_config_def)

lemma demo_docker_Provision:
  "\<exists>sb w1. docker_Provision demo_rt demo_docker demo_config [] = (Inr sb, w1)"
proof -
  have "ready_pass (\<lambda>cmd. docker_Exec demo_docker cid cmd None) cmds w = (True, w)" for cid cmds w
    by (induction cmds) (simp_all add: docker_Exec_def demo_docker_def Let_def)
  note ready = docker_waitReady_at_once[OF this, of demo_rt]
  show ?thesis
    by (simp add: docker_Provision_def docker_create_def docker_boot_def randomHex_def Let_def ready demo_docker_calls)
qed

lemma docker_Provision_clean_example:
  "\<exists>sb w1. docker_Provision demo_rt demo_docker demo_config [] = (Inr sb, w1) \<and>
     set w1 = {RContainer (db_ContainerID sb), RNetwork (db_networkID sb)}"
proof -
  obtain sb w1 where p: "docker_Provision demo_rt demo_docker demo_config [] = (Inr sb, w1)" using demo_docker_Provision by blast
  from docker_Provision_clean[OF demo_docker_laws p] show ?thesis using p by auto
qed

text \<open>
  C34: teardown holds under every interleaving. After a successful provision, let the drill, its deferred call and the TTL watchdog call
  \<open>Destroy\<close> in any order and number, between any other activity that does not recreate the sandbox's ids. Once the sandbox reports
  itself destroyed, its container and its network do not exist, and each further call returns the same result and changes nothing.
\<close>

theorem docker_teardown_sticks:
  assumes "docker_laws live rt api" and "docker_Provision rt api cfg w = (Inr sb, w1)"
    and "teardown_steps (docker_Destroy api) env sb w1 sb2 w2"
    and "\<forall>a b. env a b \<longrightarrow> live b \<inter> {RContainer (db_ContainerID sb), RNetwork (db_networkID sb)} \<subseteq> live a"
    and "db_destroyed sb2"
  shows "RContainer (db_ContainerID sb) \<notin> live w2 \<and> RNetwork (db_networkID sb) \<notin> live w2 \<and>
    (\<forall>w3. docker_Destroy api sb2 w3 = (None, sb2, w3))"
proof -
  let ?P = "\<lambda>w. RContainer (db_ContainerID sb) \<notin> live w \<and> RNetwork (db_networkID sb) \<notin> live w"
  have sb: "\<not> db_once sb" "\<not> db_destroyed sb" "db_ContainerID sb \<noteq> []" "db_networkID sb \<noteq> []"
    using docker_Provision_live[OF assms(1,2)] by auto
  have once: "db_once sb2" using docker.steps_first[OF assms(3)] assms(5) sb(2) by blast
  have "db_once s \<and> (db_destroyed s \<longleftrightarrow> db_destroyErr s = None) \<or> \<not> db_once s \<and> s = sb"
    if "teardown_steps (docker_Destroy api) env a wa s wb" "a = sb" for a wa s wb
    using that
  proof (induction rule: teardown_steps.induct)
    case (call x wx x1 wx1 e x2 wx2)
    then show ?case using docker.first[of x1 api wx1 e x2 wx2] docker.again[of x1 api wx1] by (cases "db_once x1") auto
  qed (use sb in auto)
  then have err: "db_destroyErr sb2 = None" using assms(3,5) once by blast
  have "?P w2"
  proof (rule docker.destroyed_invariant[OF assms(3) sb(1)])
    show "?P wb" if "docker_Destroy api sb wa = (None, x, wb)" for wa x wb
      using docker_Destroy_live[OF assms(1) sb(1) that] sb(3,4) by (auto simp: sb_resources_def)
    show "?P b" if "env a b" "?P a" for a b using assms(4) that by auto
  qed (use once err in simp)
  then show ?thesis using docker.again[of sb2 api] once err by simp
qed

theorem docker_teardown_sticks_witness:
  "\<exists>sb w1 sb2 w2. docker_Provision demo_rt demo_docker demo_config [] = (Inr sb, w1) \<and>
     docker_Destroy demo_docker sb w1 = (None, sb2, w2) \<and> RContainer (db_ContainerID sb) \<notin> set w2"
proof -
  obtain sb w1 where p: "docker_Provision demo_rt demo_docker demo_config [] = (Inr sb, w1)" using demo_docker_Provision by blast
  have nw: "\<not> db_once sb" using docker_Provision_live[OF demo_docker_laws p] by auto
  obtain sb2 w2 where d: "docker_Destroy demo_docker sb w1 = (None, sb2, w2)"
    using docker_removes_Destroy[OF _ nw, of demo_docker w1] by (auto simp: docker_removes_def demo_docker_def)
  have st: "teardown_steps (docker_Destroy demo_docker) (=) sb w1 sb2 w2" by (rule teardown_steps.call[OF teardown_steps.start]) (rule d)
  have "db_destroyed sb2" using docker.first[OF nw d] by simp
  from docker_teardown_sticks[OF demo_docker_laws p st _ this] show ?thesis using p d by (intro exI conjI) auto
qed

end
