(* ===== verification/FD_Kube.thy ===== *)
theory FD_Kube
  imports FD_Sandbox
begin

text \<open>
  \<open>pkg/sandbox/kubernetes\<close> (database pods) and \<open>pkg/drivers/velero\<close> (namespaces restored by Velero).

  The Kubernetes API, the exec and port-forward machinery and the Velero resources are a record of the calls the code makes. An error chain
  (\<open>Unwrap\<close>) with an optional exit status is the datatype \<open>ChainErr\<close>. Polling a Velero restore has no bound of its own: it is a
  \<open>partial_function\<close>, whose value \<open>None\<close> would be a loop without end.

  The lemmas: both teardowns satisfy the locale \<open>teardown\<close>; a pod is only created once the policy that denies its egress has been ensured, and when that
  cuts it off (a policy of that name that was there before is accepted whatever it says); waiting for a pod ends; polling a Velero restore ends when the context has a
  deadline, and the first terminal phase it reads decides the result.
\<close>

section \<open>The cluster\<close>

record PodManifest =
  pm_Name :: string
  pm_Namespace :: string
  pm_Labels :: "(string \<times> string) list"
  pm_Annotations :: "(string \<times> string) list"
  pm_DeadlineSecs :: int
  pm_Image :: string
  pm_Command :: "string list"
  pm_Env :: "(string \<times> string) list"
  pm_Port :: int
  pm_AllowEscalation :: bool

record NetworkPolicy =
  np_Name :: string
  np_Namespace :: string
  np_MatchLabels :: "(string \<times> string) list"
  np_PolicyTypes :: "string list"
  np_Egress :: "string list"

record VeleroBackup =
  vb_Phase :: string
  vb_Created :: gotime
  vb_Completion :: "string option"

record RestoreCR =
  cr_Name :: string
  cr_BackupName :: string
  cr_Included :: "string list"
  cr_Mapping :: "(string \<times> string) list"
  cr_ExistingPolicy :: string

record VeleroRestore =
  vs_Phase :: string
  vs_Warnings :: int
  vs_Errors :: int
  vs_ValidationErrors :: "string list"

datatype ChainErr = ChainErr msg "int option" "ChainErr option"

text \<open>How the \<open>select\<close> in \<open>portForward\<close> ends: ready, \<open>ForwardPorts\<close> returned (an error or nil), or 30 seconds passed.\<close>

datatype Forwarding = PfReady | PfReturned "msg option" | PfTimeout

record 'w Kube =
  ku_InCluster :: "'w \<Rightarrow> bool \<times> 'w"
  ku_Kubeconfig :: "'w \<Rightarrow> msg option \<times> 'w"
  ku_NewClient :: "'w \<Rightarrow> msg option \<times> 'w"
  ku_NewDynamic :: "'w \<Rightarrow> msg option \<times> 'w"
  ku_IsAlreadyExists :: "msg \<Rightarrow> bool"
  ku_IsNotFound :: "msg \<Rightarrow> bool"
  ku_CreateNamespace :: "string \<Rightarrow> (string \<times> string) list \<Rightarrow> (string \<times> string) list \<Rightarrow> 'w \<Rightarrow> msg option \<times> 'w"
  ku_CreatePolicy :: "NetworkPolicy \<Rightarrow> 'w \<Rightarrow> msg option \<times> 'w"
  ku_CreatePod :: "PodManifest \<Rightarrow> 'w \<Rightarrow> msg option \<times> 'w"
  ku_GetPod :: "string \<Rightarrow> string \<Rightarrow> 'w \<Rightarrow> (string \<times> string) res \<times> 'w"
  ku_DeletePod :: "string \<Rightarrow> string \<Rightarrow> 'w \<Rightarrow> msg option \<times> 'w"
  ku_DeleteNamespace :: "string \<Rightarrow> 'w \<Rightarrow> msg option \<times> 'w"
  ku_Executor :: "string \<Rightarrow> string \<Rightarrow> string list \<Rightarrow> bool \<Rightarrow> 'w \<Rightarrow> msg option \<times> 'w"
  ku_Stream :: "string \<Rightarrow> string \<Rightarrow> string list \<Rightarrow> FileStream option \<Rightarrow> 'w \<Rightarrow> (string list \<times> ChainErr option) \<times> 'w"
  ku_RoundTripper :: "'w \<Rightarrow> msg option \<times> 'w"
  ku_NewForward :: "string \<Rightarrow> string \<Rightarrow> int \<Rightarrow> 'w \<Rightarrow> msg option \<times> 'w"
  ku_Forward :: "string \<Rightarrow> string \<Rightarrow> int \<Rightarrow> 'w \<Rightarrow> Forwarding \<times> 'w"
  ku_GetPorts :: "string \<Rightarrow> string \<Rightarrow> 'w \<Rightarrow> int list res \<times> 'w"
  ku_Rand :: "nat \<Rightarrow> 'w \<Rightarrow> string \<times> 'w"
  ku_GetBackup :: "string \<Rightarrow> 'w \<Rightarrow> VeleroBackup res \<times> 'w"
  ku_ParseRFC3339 :: "string \<Rightarrow> gotime option"
  ku_CreateRestore :: "RestoreCR \<Rightarrow> 'w \<Rightarrow> msg option \<times> 'w"
  ku_GetRestore :: "string \<Rightarrow> 'w \<Rightarrow> VeleroRestore res \<times> 'w"
  ku_DeleteRestore :: "string \<Rightarrow> 'w \<Rightarrow> msg option \<times> 'w"

definition kube_randomHex :: "'w Kube \<Rightarrow> nat \<Rightarrow> 'w \<Rightarrow> string \<times> 'w" where
  "kube_randomHex api n w = map_prod hex_EncodeToString id (ku_Rand api n w)"

text \<open>\<open>LoadConfig\<close>: whether the in-cluster configuration was used.\<close>

definition LoadConfig :: "'w Kube \<Rightarrow> 'w \<Rightarrow> bool res \<times> 'w" where
  "LoadConfig api w =
     (case ku_InCluster api w of
        (True, w1) \<Rightarrow> (Inr True, w1)
      | (False, w1) \<Rightarrow>
          (case ku_Kubeconfig api w1 of
             (Some e, w2) \<Rightarrow> (Inl (Msg ''no kubernetes config (in-cluster or kubeconfig): %w'' [AErr e]), w2)
           | (None, w2) \<Rightarrow> (Inr False, w2)))"

definition unless_exists :: "'w Kube \<Rightarrow> msg option \<Rightarrow> msg option" where
  "unless_exists api err = (case err of None \<Rightarrow> None | Some e \<Rightarrow> if ku_IsAlreadyExists api e then None else Some e)"

definition ensureNamespace :: "'w Kube \<Rightarrow> string \<Rightarrow> 'w \<Rightarrow> msg option \<times> 'w" where
  "ensureNamespace api ns w =
     map_prod (unless_exists api) id (ku_CreateNamespace api ns [(''app.kubernetes.io/managed-by'', ''firedrill'')] [] w)"

definition deny_egress :: "string \<Rightarrow> NetworkPolicy" where
  "deny_egress ns = \<lparr>np_Name = ''firedrill-sandbox-deny-egress'', np_Namespace = ns, np_MatchLabels = [(''firedrill/sandbox'', ''true'')],
     np_PolicyTypes = [''Egress''], np_Egress = []\<rparr>"

definition EnsureDenyEgressPolicy :: "'w Kube \<Rightarrow> string \<Rightarrow> 'w \<Rightarrow> msg option \<times> 'w" where
  "EnsureDenyEgressPolicy api ns w = map_prod (unless_exists api) id (ku_CreatePolicy api (deny_egress ns) w)"

definition envVars :: "string list \<Rightarrow> (string \<times> string) list" where
  "envVars env = map (\<lambda>e. case cut1 CHR ''='' e of (k, v, _) \<Rightarrow> (k, v)) env"

fun errorAs :: "ChainErr option \<Rightarrow> int option" where
  "errorAs None = None"
| "errorAs (Some (ChainErr m (Some code) u)) = Some code"
| "errorAs (Some (ChainErr m None u)) = errorAs u"

fun chain_msg :: "ChainErr \<Rightarrow> msg" where
  "chain_msg (ChainErr m x u) = m"

section \<open>Pods\<close>

record KubeSandbox =
  ks_namespace :: string
  ks_podName :: string
  ks_password :: string
  ks_inCluster :: bool
  ks_host :: string
  ks_hostPort :: string
  ks_pfStop :: bool
  ks_once :: bool
  ks_destroyErr :: "msg option"
  ks_watchdog :: bool
  ks_destroyed :: bool

text \<open>\<open>Exec\<close> hands the standard input to client-go as the stream it is; what becomes of a read error there is client-go's.\<close>

definition kube_Exec :: "'w Kube \<Rightarrow> KubeSandbox \<Rightarrow> string list \<Rightarrow> FileStream option \<Rightarrow> 'w \<Rightarrow> (int \<times> string \<times> msg option) \<times> 'w" where
  "kube_Exec api sb cmd inp w =
     (case ku_Executor api (ks_namespace sb) (ks_podName sb) cmd (inp \<noteq> None) w of
        (Some e, w1) \<Rightarrow> ((- 1, [], Some (Msg ''exec setup: %w'' [AErr e])), w1)
      | (None, w1) \<Rightarrow>
         (case ku_Stream api (ks_namespace sb) (ks_podName sb) cmd inp w1 of ((frames, serr), w2) \<Rightarrow>
          let out = lb_collect MaxExecOutput frames in
          (case serr of
             None \<Rightarrow> ((0, out, None), w2)
           | Some ce \<Rightarrow>
               (case errorAs (Some ce) of
                  Some code \<Rightarrow> ((code, out, None), w2)
                | None \<Rightarrow> ((- 1, out, Some (chain_msg ce)), w2)))))"

fun kube_wait :: "'w Runtime \<Rightarrow> 'w Kube \<Rightarrow> KubeSandbox \<Rightarrow> string list list \<Rightarrow> gotime \<Rightarrow> nat \<Rightarrow> 'w \<Rightarrow> (msg option \<times> 'w) option" where
  "kube_wait rt api sb cmds deadline 0 w = None"
| "kube_wait rt api sb cmds deadline (Suc n) w =
     (if \<not> rt_Now rt w < deadline then Some (Some (Msg ''sandbox database not ready after 4m'' []), w)
      else (case rt_CtxErr rt w of
        Some e \<Rightarrow> Some (Some e, w)
      | None \<Rightarrow>
         (case ku_GetPod api (ks_namespace sb) (ks_podName sb) w of
            (Inl _, w1) \<Rightarrow> kube_wait rt api sb cmds deadline n (rt_Sleep rt Second w1)
          | (Inr (phase, _), w1) \<Rightarrow>
              if phase = ''Failed'' \<or> phase = ''Succeeded'' then Some (Some (Msg ''sandbox pod exited (%s)'' [AStr phase]), w1)
              else if phase = ''Running'' then
                (case ready_pass (\<lambda>cmd. kube_Exec api sb cmd None) cmds w1 of
                   (True, w2) \<Rightarrow> Some (None, w2)
                 | (False, w2) \<Rightarrow> kube_wait rt api sb cmds deadline n (rt_Sleep rt Second w2))
              else kube_wait rt api sb cmds deadline n (rt_Sleep rt Second w1))))"

text \<open>Four minutes in steps of a second; \<open>kube_wait_returns\<close> shows that the fuel is enough.\<close>

definition kube_waitReady :: "'w Runtime \<Rightarrow> 'w Kube \<Rightarrow> KubeSandbox \<Rightarrow> string list list \<Rightarrow> 'w \<Rightarrow> msg option \<times> 'w" where
  "kube_waitReady rt api sb cmds w =
     (case kube_wait rt api sb cmds (rt_Now rt w + 4 * Minute) 241 w of
        Some r \<Rightarrow> r
      | None \<Rightarrow> (Some (Msg ''sandbox database not ready after 4m'' []), w))"

text \<open>\<open>portForward\<close>: the local port and whether a stop channel is returned. A nil from \<open>ForwardPorts\<close> is returned as no error, with port 0.\<close>

definition portForward :: "'w Kube \<Rightarrow> KubeSandbox \<Rightarrow> int \<Rightarrow> 'w \<Rightarrow> (int \<times> bool) res \<times> 'w" where
  "portForward api sb podPort w =
     (let ns = ks_namespace sb; pod = ks_podName sb in
      case ku_RoundTripper api w of
        (Some e, w1) \<Rightarrow> (Inl e, w1)
      | (None, w1) \<Rightarrow>
     (case ku_NewForward api ns pod podPort w1 of
        (Some e, w2) \<Rightarrow> (Inl e, w2)
      | (None, w2) \<Rightarrow>
     (case ku_Forward api ns pod podPort w2 of
        (PfReturned (Some e), w3) \<Rightarrow> (Inl e, w3)
      | (PfReturned None, w3) \<Rightarrow> (Inr (0, False), w3)
      | (PfTimeout, w3) \<Rightarrow> (Inl (Msg ''port-forward not ready after 30s'' []), w3)
      | (PfReady, w3) \<Rightarrow>
         (case ku_GetPorts api ns pod w3 of
            (Inl e, w4) \<Rightarrow> (Inl (Msg ''port-forward ports: %w'' [AErr e]), w4)
          | (Inr [], w4) \<Rightarrow> (Inl (Msg ''port-forward ports: %w'' []), w4)
          | (Inr (p # ps), w4) \<Rightarrow> (Inr (p, True), w4)))))"

definition kube_Destroy :: "'w Kube \<Rightarrow> KubeSandbox \<Rightarrow> 'w \<Rightarrow> msg option \<times> KubeSandbox \<times> 'w" where
  "kube_Destroy api sb w =
     (if ks_once sb then (ks_destroyErr sb, sb, w)
      else (case ku_DeletePod api (ks_namespace sb) (ks_podName sb) w of (de, w1) \<Rightarrow>
        let err = (case de of
              None \<Rightarrow> None
            | Some e \<Rightarrow> if ku_IsNotFound api e then None else Some (Msg ''deleting sandbox pod: %w'' [AErr e]))
        in (err, sb\<lparr>ks_once := True, ks_destroyErr := err, ks_watchdog := False, ks_pfStop := False, ks_destroyed := (err = None)\<rparr>, w1)))"

interpretation kube: teardown "kube_Destroy api" ks_once ks_destroyErr ks_destroyed for api
proof
  show "\<not> ks_once sb \<Longrightarrow> kube_Destroy api sb w = (e, sb1, w1) \<Longrightarrow> ks_once sb1 \<and> ks_destroyErr sb1 = e \<and> (ks_destroyed sb1 \<longleftrightarrow> e = None)"
    for api :: "'a Kube" and sb w e sb1 w1
    by (auto simp: kube_Destroy_def Let_def split: prod.splits)
  show "ks_once sb \<Longrightarrow> kube_Destroy api sb w = (ks_destroyErr sb, sb, w)" for api :: "'a Kube" and sb w
    by (simp add: kube_Destroy_def)
qed

text \<open>\<open>intstr.Parse\<close> of the driver's port, with \<open>IntValue\<close>. The TTL in seconds is truncated; Go goes through a floating-point number, which is exact
  below \<open>2 ^ 23\<close> seconds.\<close>

definition port_text :: "Driver \<Rightarrow> string" where
  "port_text d = trimSuffix (Port d) ''/tcp''"

definition port_IntValue :: "Driver \<Rightarrow> int" where
  "port_IntValue d = (case strconv_ParseInt (port_text d) of Some n \<Rightarrow> n | None \<Rightarrow> 0)"

definition pod_manifest :: "'w Runtime \<Rightarrow> Config \<Rightarrow> string \<Rightarrow> string \<Rightarrow> string \<Rightarrow> 'w \<Rightarrow> PodManifest" where
  "pod_manifest rt cfg ns podName password w =
     \<lparr>pm_Name = podName, pm_Namespace = ns,
      pm_Labels = [(''app.kubernetes.io/managed-by'', ''firedrill''), (''firedrill/sandbox'', ''true''), (''firedrill/drill'', sanitize (cf_Name cfg))],
      pm_Annotations = [(''firedrill.expires-at'', format_RFC3339 (rt_Now rt w + cf_TTL cfg))],
      pm_DeadlineSecs = i64 (cf_TTL cfg div Second + 60), pm_Image = cf_Image cfg,
      pm_Command = (if cf_ColdStart cfg then [''sleep'', ''infinity''] else []),
      pm_Env = envVars (ContainerEnv (cf_Driver cfg) dbUser password dbName), pm_Port = port_IntValue (cf_Driver cfg) mod 65536,
      pm_AllowEscalation = False\<rparr>"

text \<open>The part of \<open>Provision\<close> behind its \<open>defer\<close>.\<close>

definition kube_connect :: "'w Kube \<Rightarrow> Config \<Rightarrow> KubeSandbox \<Rightarrow> 'w \<Rightarrow> msg option \<times> KubeSandbox \<times> 'w" where
  "kube_connect api cfg sb w =
     (if ks_inCluster sb then
        (case ku_GetPod api (ks_namespace sb) (ks_podName sb) w of
           (Inl e, w1) \<Rightarrow> (Some e, sb, w1)
         | (Inr (_, ip), w1) \<Rightarrow> (None, sb\<lparr>ks_host := ip, ks_hostPort := port_text (cf_Driver cfg)\<rparr>, w1))
      else
        (case portForward api sb (port_IntValue (cf_Driver cfg)) w of
           (Inl e, w1) \<Rightarrow> (Some (Msg ''port-forward to sandbox: %w'' [AErr e]), sb, w1)
         | (Inr (p, stop), w1) \<Rightarrow> (None, sb\<lparr>ks_host := ''127.0.0.1'', ks_hostPort := go_itoa p, ks_pfStop := stop\<rparr>, w1)))"

definition kube_boot :: "'w Runtime \<Rightarrow> 'w Kube \<Rightarrow> Config \<Rightarrow> KubeSandbox \<Rightarrow> 'w \<Rightarrow> msg option \<times> KubeSandbox \<times> 'w" where
  "kube_boot rt api cfg sb w =
     (case ensureNamespace api (ks_namespace sb) w of (Some e, w1) \<Rightarrow> (Some e, sb, w1) | (None, w1) \<Rightarrow>
     (case EnsureDenyEgressPolicy api (ks_namespace sb) w1 of (Some e, w2) \<Rightarrow> (Some e, sb, w2) | (None, w2) \<Rightarrow>
     (case ku_CreatePod api (pod_manifest rt cfg (ks_namespace sb) (ks_podName sb) (ks_password sb) w2) w2 of
        (Some e, w3) \<Rightarrow> (Some (Msg ''creating sandbox pod: %w'' [AErr e]), sb, w3)
      | (None, w3) \<Rightarrow>
         (let readyCmds = (if cf_ColdStart cfg then [] else ReadyCmds (cf_Driver cfg) dbUser (ks_password sb) dbName) in
          case kube_waitReady rt api sb readyCmds w3 of (Some e, w4) \<Rightarrow> (Some e, sb, w4) | (None, w4) \<Rightarrow> kube_connect api cfg sb w4))))"

definition kube_Provision :: "'w Runtime \<Rightarrow> 'w Kube \<Rightarrow> Config \<Rightarrow> 'w \<Rightarrow> KubeSandbox res \<times> 'w" where
  "kube_Provision rt api cfg w =
     (case LoadConfig api w of (Inl e, w1) \<Rightarrow> (Inl e, w1) | (Inr inCluster, w1) \<Rightarrow>
     (case ku_NewClient api w1 of (Some e, w2) \<Rightarrow> (Inl (Msg ''kubernetes client: %w'' [AErr e]), w2) | (None, w2) \<Rightarrow>
     (let ns = (if cf_Namespace cfg = [] then ''firedrill'' else cf_Namespace cfg) in
     (case kube_randomHex api 16 w2 of (password, w3) \<Rightarrow>
     (case kube_randomHex api 4 w3 of (sfx, w4) \<Rightarrow>
      (let s0 = \<lparr>ks_namespace = ns, ks_podName = ''firedrill-'' @ sanitize (cf_Name cfg) @ ''-'' @ sfx, ks_password = password,
             ks_inCluster = inCluster, ks_host = [], ks_hostPort = [], ks_pfStop = False, ks_once = False, ks_destroyErr = None,
             ks_watchdog = False, ks_destroyed = False\<rparr>
       in (case kube_boot rt api cfg s0 w4 of
             (Some e, s1, w5) \<Rightarrow> (Inl e, snd (snd (kube_Destroy api s1 w5)))
           | (None, s1, w5) \<Rightarrow> (Inr (s1\<lparr>ks_watchdog := True\<rparr>), w5))))))))"

definition kube_box :: "'w Kube \<Rightarrow> KubeSandbox \<Rightarrow> 'w Box" where
  "kube_box api sb = \<lparr>bx_Exec = kube_Exec api sb, bx_Host = ks_host sb, bx_HostPort = ks_hostPort sb,
     bx_User = dbUser, bx_Password = ks_password sb, bx_DB = dbName\<rparr>"

section \<open>Velero\<close>

record VeleroDrill =
  ve_SourceNS :: string
  ve_TargetNS :: string
  ve_Backup :: string
  ve_BackupAge :: duration
  ve_restoreName :: string
  ve_once :: bool
  ve_destroyErr :: "msg option"
  ve_watchdog :: bool
  ve_destroyed :: bool

definition velero_Destroy :: "'w Kube \<Rightarrow> VeleroDrill \<Rightarrow> 'w \<Rightarrow> msg option \<times> VeleroDrill \<times> 'w" where
  "velero_Destroy api d w =
     (if ve_once d then (ve_destroyErr d, d, w)
      else (case ku_DeleteNamespace api (ve_TargetNS d) w of (ne, w1) \<Rightarrow>
        let err1 = (case ne of
              None \<Rightarrow> None
            | Some e \<Rightarrow> if ku_IsNotFound api e then None else Some (Msg ''deleting ephemeral namespace: %w'' [AErr e]))
        in (case (if ve_restoreName d \<noteq> [] then ku_DeleteRestore api (ve_restoreName d) w1 else (None, w1)) of (re, w2) \<Rightarrow>
          let err = (case re of
                None \<Rightarrow> err1
              | Some e \<Rightarrow> if \<not> ku_IsNotFound api e \<and> err1 = None then Some (Msg ''deleting restore CR: %w'' [AErr e]) else err1)
          in (err, d\<lparr>ve_once := True, ve_destroyErr := err, ve_watchdog := False, ve_destroyed := (err = None)\<rparr>, w2))))"

interpretation velero: teardown "velero_Destroy api" ve_once ve_destroyErr ve_destroyed for api
proof
  show "\<not> ve_once d \<Longrightarrow> velero_Destroy api d w = (e, d1, w1) \<Longrightarrow> ve_once d1 \<and> ve_destroyErr d1 = e \<and> (ve_destroyed d1 \<longleftrightarrow> e = None)"
    for api :: "'a Kube" and d w e d1 w1
    by (auto simp: velero_Destroy_def Let_def split: prod.splits)
  show "ve_once d \<Longrightarrow> velero_Destroy api d w = (ve_destroyErr d, d, w)" for api :: "'a Kube" and d w
    by (simp add: velero_Destroy_def)
qed

definition backup_age :: "'w Runtime \<Rightarrow> 'w Kube \<Rightarrow> VeleroBackup \<Rightarrow> 'w \<Rightarrow> duration" where
  "backup_age rt api b w =
     (case vb_Completion b of
        None \<Rightarrow> time_Sub (rt_Now rt w) (vb_Created b)
      | Some ts \<Rightarrow> (case ku_ParseRFC3339 api ts of
            None \<Rightarrow> time_Sub (rt_Now rt w) (vb_Created b)
          | Some t \<Rightarrow> time_Sub (rt_Now rt w) t))"

definition Prepare :: "'w Runtime \<Rightarrow> 'w Kube \<Rightarrow> string \<Rightarrow> string \<Rightarrow> string \<Rightarrow> duration \<Rightarrow> 'w \<Rightarrow> VeleroDrill res \<times> 'w" where
  "Prepare rt api drill backup sourceNS ttl w =
     (case LoadConfig api w of (Inl e, w1) \<Rightarrow> (Inl e, w1) | (Inr _, w1) \<Rightarrow>
     (case ku_NewDynamic api w1 of (Some e, w2) \<Rightarrow> (Inl (Msg ''dynamic client: %w'' [AErr e]), w2) | (None, w2) \<Rightarrow>
     (case ku_NewClient api w2 of (Some e, w3) \<Rightarrow> (Inl (Msg ''kubernetes client: %w'' [AErr e]), w3) | (None, w3) \<Rightarrow>
     (case ku_GetBackup api backup w3 of
        (Inl e, w4) \<Rightarrow> (Inl (Msg ''reading Velero backup %q: %w (is Velero installed and the backup name correct?)'' [AQuo backup, AErr e]), w4)
      | (Inr b, w4) \<Rightarrow>
       if vb_Phase b \<noteq> ''Completed''
       then (Inl (Msg ''velero backup %q is in phase %q, want Completed'' [AQuo backup, AQuo (vb_Phase b)]), w4)
       else (case kube_randomHex api 4 w4 of (sfx, w5) \<Rightarrow>
        (let d = \<lparr>ve_SourceNS = sourceNS, ve_TargetNS = ''firedrill-'' @ sanitize drill @ ''-'' @ sfx, ve_Backup = backup,
               ve_BackupAge = backup_age rt api b w4, ve_restoreName = [], ve_once = False, ve_destroyErr = None, ve_watchdog = False,
               ve_destroyed = False\<rparr>
         in (case ku_CreateNamespace api (ve_TargetNS d) [(''app.kubernetes.io/managed-by'', ''firedrill''), (''firedrill/sandbox'', ''true'')]
                [(''firedrill.expires-at'', format_RFC3339 (rt_Now rt w5 + ttl))] w5 of
               (Some e, w6) \<Rightarrow> (Inl (Msg ''creating ephemeral namespace: %w'' [AErr e]), w6)
             | (None, w6) \<Rightarrow>
                (case EnsureDenyEgressPolicy api (ve_TargetNS d) w6 of
                   (Some e, w7) \<Rightarrow> (Inl e, snd (snd (velero_Destroy api d w7)))
                 | (None, w7) \<Rightarrow> (Inr (d\<lparr>ve_watchdog := True\<rparr>), w7)))))))))"

definition terminal :: "string \<Rightarrow> bool" where
  "terminal phase \<longleftrightarrow> phase = ''Completed'' \<or> phase = ''PartiallyFailed'' \<or> hasPrefix phase ''Failed''"

definition velero_outcome :: "'w Runtime \<Rightarrow> gotime \<Rightarrow> VeleroRestore \<Rightarrow> 'w \<Rightarrow> (duration option \<times> msg option) \<times> 'w" where
  "velero_outcome rt start r w =
     ((Some (time_Sub (rt_Now rt w) start),
       if vs_Phase r \<noteq> ''Completed''
       then Some (Msg ''velero restore phase %s (%d errors, %d warnings)%s''
         [AStr (vs_Phase r), AInt (vs_Errors r), AInt (vs_Warnings r), AStrs (vs_ValidationErrors r)])
       else None), w)"

text \<open>The \<open>select\<close> returns as soon as the context is done, else after two seconds; here the context is read before and after them.\<close>

partial_function (option) velero_poll ::
  "'w Runtime \<Rightarrow> 'w Kube \<Rightarrow> string \<Rightarrow> gotime \<Rightarrow> 'w \<Rightarrow> ((duration option \<times> msg option) \<times> 'w) option" where
  "velero_poll rt api name start w =
     (case rt_CtxErr rt w of
        Some e \<Rightarrow> Some ((None, Some e), w)
      | None \<Rightarrow>
         (let w1 = rt_Sleep rt (2 * Second) w in
          case rt_CtxErr rt w1 of
            Some e \<Rightarrow> Some ((None, Some e), w1)
          | None \<Rightarrow>
             (case ku_GetRestore api name w1 of
                (Inl _, w2) \<Rightarrow> velero_poll rt api name start w2
              | (Inr r, w2) \<Rightarrow>
                  if terminal (vs_Phase r) then Some (velero_outcome rt start r w2) else velero_poll rt api name start w2)))"

definition velero_CR :: "VeleroDrill \<Rightarrow> string \<Rightarrow> RestoreCR" where
  "velero_CR d name = \<lparr>cr_Name = name, cr_BackupName = ve_Backup d, cr_Included = [ve_SourceNS d],
     cr_Mapping = [(ve_SourceNS d, ve_TargetNS d)], cr_ExistingPolicy = ''none''\<rparr>"

definition velero_Restore ::
  "'w Runtime \<Rightarrow> 'w Kube \<Rightarrow> VeleroDrill \<Rightarrow> 'w \<Rightarrow> ((duration option \<times> msg option) \<times> VeleroDrill \<times> 'w) option" where
  "velero_Restore rt api d w =
     (case kube_randomHex api 3 w of (sfx, w1) \<Rightarrow>
      let d1 = d\<lparr>ve_restoreName := ve_TargetNS d @ ''-'' @ sfx\<rparr>; start = rt_Now rt w1 in
      (case ku_CreateRestore api (velero_CR d1 (ve_restoreName d1)) w1 of
         (Some e, w2) \<Rightarrow> Some ((None, Some (Msg ''creating Velero restore: %w'' [AErr e])), d1, w2)
       | (None, w2) \<Rightarrow>
          (case velero_poll rt api (ve_restoreName d1) start w2 of None \<Rightarrow> None | Some (r, w3) \<Rightarrow> Some (r, d1, w3))))"

section \<open>Isolation\<close>

text \<open>Network policies as the cluster has them. A policy in the pod's namespace selects the pod when the pod carries all its labels;
  a policy of type \<open>Egress\<close> that selects it isolates it. What an isolated pod may reach is what the rules of all such policies together
  allow, so it reaches nothing when there is one and none has a rule.\<close>

definition isolates :: "NetworkPolicy \<Rightarrow> PodManifest \<Rightarrow> bool" where
  "isolates q pod \<longleftrightarrow> np_Namespace q = pm_Namespace pod \<and> set (np_MatchLabels q) \<subseteq> set (pm_Labels pod) \<and>
     ''Egress'' \<in> set (np_PolicyTypes q)"

definition no_egress :: "NetworkPolicy set \<Rightarrow> PodManifest \<Rightarrow> bool" where
  "no_egress P pod \<longleftrightarrow> (\<exists>q \<in> P. isolates q pod) \<and> (\<forall>q \<in> P. isolates q pod \<longrightarrow> np_Egress q = [])"

text \<open>The API's contract: a policy that is created was not there before under its namespace and name and is stored as given; an
  \<open>AlreadyExists\<close> error means that one with this namespace and name is there, whatever it says, and changes nothing. The calls made
  before it do not touch policies.\<close>

definition policy_named :: "string \<Rightarrow> string \<Rightarrow> NetworkPolicy set \<Rightarrow> bool" where
  "policy_named ns n P \<longleftrightarrow> (\<exists>q \<in> P. np_Namespace q = ns \<and> np_Name q = n)"

definition policy_laws :: "'w Kube \<Rightarrow> ('w \<Rightarrow> NetworkPolicy set) \<Rightarrow> bool" where
  "policy_laws api pols \<longleftrightarrow>
     (\<forall>w. pols (snd (ku_InCluster api w)) = pols w) \<and> (\<forall>w. pols (snd (ku_Kubeconfig api w)) = pols w) \<and>
     (\<forall>w. pols (snd (ku_NewClient api w)) = pols w) \<and> (\<forall>n w. pols (snd (ku_Rand api n w)) = pols w) \<and>
     (\<forall>n l a w. pols (snd (ku_CreateNamespace api n l a w)) = pols w) \<and>
     (\<forall>p w w1. ku_CreatePolicy api p w = (None, w1) \<longrightarrow>
        \<not> policy_named (np_Namespace p) (np_Name p) (pols w) \<and> pols w1 = insert p (pols w)) \<and>
     (\<forall>p w e w1. ku_CreatePolicy api p w = (Some e, w1) \<and> ku_IsAlreadyExists api e \<longrightarrow>
        policy_named (np_Namespace p) (np_Name p) (pols w) \<and> pols w1 = pols w)"

lemma LoadConfig_policies:
  assumes "policy_laws api pols" and "LoadConfig api w = (r, w1)"
  shows "pols w1 = pols w"
proof -
  have "pols (snd (ku_InCluster api x)) = pols x" "pols (snd (ku_Kubeconfig api x)) = pols x" for x
    using assms(1) by (simp_all add: policy_laws_def)
  then show ?thesis using assms(2) unfolding LoadConfig_def
    by (auto split: prod.splits bool.splits option.splits) (metis snd_conv)+
qed

lemma EnsureDenyEgressPolicy_policies:
  assumes "policy_laws api pols" and "EnsureDenyEgressPolicy api ns w = (None, w1)"
  shows "pols w1 = (if policy_named ns ''firedrill-sandbox-deny-egress'' (pols w) then pols w else insert (deny_egress ns) (pols w))"
proof -
  obtain pe where c: "ku_CreatePolicy api (deny_egress ns) w = (pe, w1)" and "unless_exists api pe = None"
    using assms(2) by (cases "ku_CreatePolicy api (deny_egress ns) w") (auto simp: EnsureDenyEgressPolicy_def)
  moreover from this have "pe = None \<or> (\<exists>e. pe = Some e \<and> ku_IsAlreadyExists api e)"
    by (auto simp: unless_exists_def split: option.splits if_splits)
  moreover have "np_Namespace (deny_egress ns) = ns" "np_Name (deny_egress ns) = ''firedrill-sandbox-deny-egress''"
    by (simp_all add: deny_egress_def)
  ultimately show ?thesis using assms(1) unfolding policy_laws_def by metis
qed

text \<open>What the API is asked to do, in order, by the steps that can reach the creation of the pod.\<close>

lemma kube_boot_policy_first:
  assumes "policy_laws api pols" and "kube_boot rt api cfg sb w = (None, sb1, w1)"
  shows "\<exists>wb. fst (ku_CreatePod api (pod_manifest rt cfg (ks_namespace sb) (ks_podName sb) (ks_password sb) wb) wb) = None \<and>
    pols wb = (if policy_named (ks_namespace sb) ''firedrill-sandbox-deny-egress'' (pols w) then pols w
      else insert (deny_egress (ks_namespace sb)) (pols w))"
proof -
  let ?ns = "ks_namespace sb"
  obtain e1 wa where x1: "ensureNamespace api ?ns w = (e1, wa)" by fastforce
  then have n1: "e1 = None" using assms(2) by (auto simp: kube_boot_def split: option.splits)
  obtain pe wb where x2: "EnsureDenyEgressPolicy api ?ns wa = (pe, wb)" by fastforce
  then have n2: "pe = None" using assms(2) x1 n1 by (auto simp: kube_boot_def split: option.splits)
  obtain ce wc where x3: "ku_CreatePod api (pod_manifest rt cfg ?ns (ks_podName sb) (ks_password sb) wb) wb = (ce, wc)" by fastforce
  then have "ce = None" using assms(2) x1 n1 x2 n2 by (auto simp: kube_boot_def split: option.splits)
  moreover have "wa = snd (ensureNamespace api ?ns w)" using x1 by simp
  then have "pols wa = pols w" using assms(1) by (simp add: ensureNamespace_def policy_laws_def)
  ultimately show ?thesis using x3 EnsureDenyEgressPolicy_policies[OF assms(1), of ?ns wa wb] x2 n2 by (intro exI[of _ wb]) simp
qed

lemma no_egress_after:
  assumes "isolates p pod" and "np_Egress p = []" and "P1 = (if b then P else insert p P)"
  shows "no_egress P1 pod \<longleftrightarrow> (\<forall>q \<in> P. isolates q pod \<longrightarrow> np_Egress q = []) \<and> (b \<longrightarrow> (\<exists>q \<in> P. isolates q pod))"
  using assms by (auto simp: no_egress_def)

lemma kube_boot_names:
  assumes "kube_boot rt api cfg sb w = (r, sb1, w1)"
  shows "ks_namespace sb1 = ks_namespace sb \<and> ks_podName sb1 = ks_podName sb \<and> ks_once sb1 = ks_once sb \<and> ks_destroyed sb1 = ks_destroyed sb"
  using assms by (auto simp: kube_boot_def kube_connect_def Let_def split: prod.splits option.splits sum.splits if_splits)

text \<open>
  C35: the isolation of a database pod. When \<open>Provision\<close> delivers a sandbox, its pod was created after the deny-egress policy had been
  ensured: the policies of the cluster were then those from before the call, plus the policy if none of its name was there. The pod is cut
  off from every egress then exactly when no policy from before the call that isolates it has an egress rule and, if a policy of
  that name was there already, some policy from before the call isolates it; in a namespace without foreign policies that is so. The policy that is
  already there is accepted by its name only: with another content the pod has egress. The pod has an API-side deadline and may not escalate
  privileges. What the API promises about policies is \<open>policy_laws\<close>.
\<close>

theorem kube_Provision_isolated:
  assumes "policy_laws api pols" and "kube_Provision rt api cfg w = (Inr sb, w1)"
  shows "\<exists>wb pod. fst (ku_CreatePod api pod wb) = None \<and> pm_Name pod = ks_podName sb \<and> pm_Namespace pod = ks_namespace sb \<and>
    pm_DeadlineSecs pod = i64 (cf_TTL cfg div Second + 60) \<and> \<not> pm_AllowEscalation pod \<and>
    (policy_named (ks_namespace sb) ''firedrill-sandbox-deny-egress'' (pols w) \<longrightarrow> pols wb = pols w) \<and>
    (no_egress (pols wb) pod \<longleftrightarrow>
       (\<forall>q \<in> pols w. isolates q pod \<longrightarrow> np_Egress q = []) \<and>
       (policy_named (ks_namespace sb) ''firedrill-sandbox-deny-egress'' (pols w) \<longrightarrow> (\<exists>q \<in> pols w. isolates q pod)))"
proof -
  obtain ic w2 w3 p w4 sfx w5 s0 s1 w6 where x: "LoadConfig api w = (Inr ic, w2)" "ku_NewClient api w2 = (None, w3)"
    "kube_randomHex api 16 w3 = (p, w4)" "kube_randomHex api 4 w4 = (sfx, w5)" "kube_boot rt api cfg s0 w5 = (None, s1, w6)"
    and sb: "sb = s1\<lparr>ks_watchdog := True\<rparr>"
    using assms(2) by (auto simp: kube_Provision_def Let_def split: prod.splits option.splits sum.splits)
  have "pols w3 = pols w" using LoadConfig_policies[OF assms(1) x(1)] x(2) assms(1) unfolding policy_laws_def by (metis snd_conv)
  moreover have "pols (snd (kube_randomHex api n v)) = pols v" for n v using assms(1) by (simp add: kube_randomHex_def policy_laws_def)
  ultimately have w5: "pols w5 = pols w" using x(3,4) by (metis snd_conv)
  have n: "ks_namespace sb = ks_namespace s0" "ks_podName sb = ks_podName s0" using kube_boot_names[OF x(5)] sb by simp_all
  let ?b = "policy_named (ks_namespace s0) ''firedrill-sandbox-deny-egress'' (pols w)"
  obtain wb where c: "fst (ku_CreatePod api (pod_manifest rt cfg (ks_namespace s0) (ks_podName s0) (ks_password s0) wb) wb) = None"
    and wb: "pols wb = (if ?b then pols w else insert (deny_egress (ks_namespace s0)) (pols w))"
    using kube_boot_policy_first[OF assms(1) x(5)] unfolding w5 by blast
  define pod where "pod = pod_manifest rt cfg (ks_namespace s0) (ks_podName s0) (ks_password s0) wb"
  have "isolates (deny_egress (ks_namespace s0)) pod" "np_Egress (deny_egress (ks_namespace s0)) = []"
    by (simp_all add: isolates_def deny_egress_def pod_def pod_manifest_def)
  from no_egress_after[OF this wb] show ?thesis unfolding n using c wb pod_def
    by (intro exI[of _ wb] exI[of _ pod]) (simp add: pod_manifest_def)
qed

section \<open>Waiting for a pod ends\<close>

lemma kube_wait_returns:
  assumes "rt_clock rt" and "\<And>ns p. rt_forward rt (ku_GetPod api ns p)" and "\<And>cmd. rt_forward rt (kube_Exec api sb cmd None)"
  shows "deadline \<le> rt_Now rt w + int n * Second \<Longrightarrow> kube_wait rt api sb cmds deadline (Suc n) w \<noteq> None"
proof (induction n arbitrary: w)
  case 0
  then show ?case by simp
next
  case (Suc n)
  obtain g w1 where g: "ku_GetPod api (ks_namespace sb) (ks_podName sb) w = (g, w1)" by fastforce
  obtain ok w2 where p: "ready_pass (\<lambda>cmd. kube_Exec api sb cmd None) cmds w1 = (ok, w2)" by fastforce
  have "rt_Now rt w \<le> rt_Now rt w1" using assms(2) g unfolding rt_forward_def by (metis snd_conv)
  moreover have "rt_Now rt w1 \<le> rt_Now rt w2"
    using ready_pass_forward[of rt "\<lambda>cmd. kube_Exec api sb cmd None", OF assms(3), of w1 cmds] p by simp
  moreover have "rt_Now rt x + Second \<le> rt_Now rt (rt_Sleep rt Second x)" for x using assms(1) by (simp add: rt_clock_def)
  ultimately have "deadline \<le> rt_Now rt (rt_Sleep rt Second w1) + int n * Second" "deadline \<le> rt_Now rt (rt_Sleep rt Second w2) + int n * Second"
    using Suc.prems by (smt (verit) distrib_right of_nat_Suc)+
  from Suc.IH[OF this(1)] Suc.IH[OF this(2)] show ?case
    by (subst kube_wait.simps) (auto simp: g p simp del: kube_wait.simps split: option.splits bool.splits sum.splits prod.splits)
qed

lemma kube_waitReady_loop:
  assumes "rt_clock rt" and "\<And>ns p. rt_forward rt (ku_GetPod api ns p)" and "\<And>cmd. rt_forward rt (kube_Exec api sb cmd None)"
  shows "kube_wait rt api sb cmds (rt_Now rt w + 4 * Minute) 241 w = Some (kube_waitReady rt api sb cmds w)"
  using kube_wait_returns[OF assms, where w = w and n = 240 and deadline = "rt_Now rt w + 4 * Minute" and cmds = cmds]
  by (auto simp: kube_waitReady_def simp del: kube_wait.simps split: option.splits)

lemma kube_waitReady_at_once:
  assumes "ku_GetPod api (ks_namespace sb) (ks_podName sb) w = (Inr (''Running'', ip), w1)"
    and "ready_pass (\<lambda>cmd. kube_Exec api sb cmd None) cmds w1 = (True, w2)" and "rt_CtxErr rt w = None"
  shows "kube_waitReady rt api sb cmds w = (None, w2)"
proof -
  have n: "(241 :: nat) = Suc 240" by simp
  show ?thesis unfolding kube_waitReady_def n kube_wait.simps using assms by simp
qed

section \<open>Velero restores\<close>

lemma velero_poll_returns:
  assumes "rt_clock rt" and "\<And>n. rt_forward rt (ku_GetRestore api n)" and "\<And>w. deadline \<le> rt_Now rt w \<Longrightarrow> rt_CtxErr rt w \<noteq> None"
  shows "deadline \<le> rt_Now rt w + int n * (2 * Second) \<Longrightarrow> velero_poll rt api name start w \<noteq> None"
proof (induction n arbitrary: w)
  case 0
  then have "rt_CtxErr rt w \<noteq> None" using assms(3) by simp
  then show ?case by (subst velero_poll.simps) auto
next
  case (Suc n)
  let ?w1 = "rt_Sleep rt (2 * Second) w"
  obtain g w2 where g: "ku_GetRestore api name ?w1 = (g, w2)" by fastforce
  have "rt_Now rt w + 2 * Second \<le> rt_Now rt ?w1" using assms(1) by (simp add: rt_clock_def)
  moreover have "rt_Now rt ?w1 \<le> rt_Now rt w2" using assms(2) g unfolding rt_forward_def by (metis snd_conv)
  ultimately have "velero_poll rt api name start w2 \<noteq> None" using Suc by (simp add: algebra_simps)
  then show ?case unfolding velero_poll.simps[of rt api name start w] Let_def g
    by (auto simp: velero_outcome_def split: option.splits sum.splits)
qed

text \<open>The polls of a restore: the state before the \<open>k\<close>-th wait, whether the context lives through that wait, and what is read after it.\<close>

fun restore_state :: "'w Runtime \<Rightarrow> 'w Kube \<Rightarrow> string \<Rightarrow> nat \<Rightarrow> 'w \<Rightarrow> 'w" where
  "restore_state rt api name 0 w = w"
| "restore_state rt api name (Suc k) w = restore_state rt api name k (snd (ku_GetRestore api name (rt_Sleep rt (2 * Second) w)))"

definition ctx_alive :: "'w Runtime \<Rightarrow> 'w \<Rightarrow> bool" where
  "ctx_alive rt w \<longleftrightarrow> rt_CtxErr rt w = None \<and> rt_CtxErr rt (rt_Sleep rt (2 * Second) w) = None"

definition restore_read :: "'w Runtime \<Rightarrow> 'w Kube \<Rightarrow> string \<Rightarrow> 'w \<Rightarrow> VeleroRestore res" where
  "restore_read rt api name w = fst (ku_GetRestore api name (rt_Sleep rt (2 * Second) w))"

text \<open>Velero's terminal phases: \<open>Completed\<close>, \<open>PartiallyFailed\<close>, and every phase that begins with \<open>Failed\<close>.\<close>

definition restore_over :: "VeleroRestore res \<Rightarrow> bool" where
  "restore_over g \<longleftrightarrow> (\<exists>r. g = Inr r \<and>
     (vs_Phase r = ''Completed'' \<or> vs_Phase r = ''PartiallyFailed'' \<or> (\<exists>t. vs_Phase r = ''Failed'' @ t)))"

lemma terminal_over: "terminal (vs_Phase r) \<longleftrightarrow> restore_over (Inr r)"
  by (auto simp: terminal_def restore_over_def hasPrefix_def prefix_def)

lemma velero_poll_dead:
  "\<not> ctx_alive rt w \<Longrightarrow> \<exists>e w1. velero_poll rt api name start w = Some ((None, Some e), w1) \<and> rt_CtxErr rt w1 = Some e"
  by (subst velero_poll.simps) (auto simp: ctx_alive_def split: option.splits)

lemma velero_poll_next:
  "ctx_alive rt w \<Longrightarrow> \<not> restore_over (restore_read rt api name w) \<Longrightarrow>
   velero_poll rt api name start w = velero_poll rt api name start (restore_state rt api name 1 w)"
  by (subst velero_poll.simps)
    (auto simp: ctx_alive_def restore_read_def terminal_over Let_def split: option.splits prod.splits sum.splits)

lemma velero_poll_over:
  assumes "ctx_alive rt w" and "restore_over (restore_read rt api name w)"
  shows "\<exists>res err w1. velero_poll rt api name start w = Some ((res, err), w1) \<and> w1 = restore_state rt api name 1 w \<and>
    res = Some (time_Sub (rt_Now rt w1) start) \<and>
    (err = None \<longleftrightarrow> (\<exists>r. restore_read rt api name w = Inr r \<and> vs_Phase r = ''Completed''))"
proof -
  obtain r w1 where g: "ku_GetRestore api name (rt_Sleep rt (2 * Second) w) = (Inr r, w1)"
    using assms(2) by (cases "ku_GetRestore api name (rt_Sleep rt (2 * Second) w)") (auto simp: restore_over_def restore_read_def)
  then have "velero_poll rt api name start w = Some (velero_outcome rt start r w1)"
    using assms by (subst velero_poll.simps) (auto simp: ctx_alive_def restore_read_def terminal_over)
  then show ?thesis using g by (auto simp: velero_outcome_def restore_read_def)
qed

text \<open>What polling returns when it ends: poll \<open>k\<close> is the first that the context does not survive or that reads a terminal phase, and it decides.\<close>

definition poll_outcome ::
  "'w Runtime \<Rightarrow> 'w Kube \<Rightarrow> string \<Rightarrow> gotime \<Rightarrow> 'w \<Rightarrow> duration option \<Rightarrow> msg option \<Rightarrow> 'w \<Rightarrow> bool" where
  "poll_outcome rt api name start w res err w1 \<longleftrightarrow>
     (\<exists>k. (\<forall>j < k. ctx_alive rt (restore_state rt api name j w) \<and>
            \<not> restore_over (restore_read rt api name (restore_state rt api name j w))) \<and>
       (if ctx_alive rt (restore_state rt api name k w)
        then restore_over (restore_read rt api name (restore_state rt api name k w)) \<and> w1 = restore_state rt api name (Suc k) w \<and>
          res = Some (time_Sub (rt_Now rt w1) start) \<and>
          (err = None \<longleftrightarrow> (\<exists>r. restore_read rt api name (restore_state rt api name k w) = Inr r \<and> vs_Phase r = ''Completed''))
        else res = None \<and> err \<noteq> None \<and> rt_CtxErr rt w1 = err))"

lemma poll_outcome_now:
  assumes "if ctx_alive rt w
      then restore_over (restore_read rt api name w) \<and> w1 = restore_state rt api name 1 w \<and>
        res = Some (time_Sub (rt_Now rt w1) start) \<and>
        (err = None \<longleftrightarrow> (\<exists>r. restore_read rt api name w = Inr r \<and> vs_Phase r = ''Completed''))
      else res = None \<and> err \<noteq> None \<and> rt_CtxErr rt w1 = err"
  shows "poll_outcome rt api name start w res err w1"
  unfolding poll_outcome_def using assms by (intro exI[of _ 0]) simp

lemma velero_poll_dead_outcome:
  assumes "\<not> ctx_alive rt w"
  shows "\<exists>res err w1. velero_poll rt api name start w = Some ((res, err), w1) \<and> poll_outcome rt api name start w res err w1"
proof -
  obtain e w1 where "velero_poll rt api name start w = Some ((None, Some e), w1)" "rt_CtxErr rt w1 = Some e"
    using velero_poll_dead[OF assms] by blast
  then show ?thesis using poll_outcome_now[of rt w api name w1 None start "Some e"] assms by auto
qed

lemma poll_outcome_next:
  assumes "ctx_alive rt w" and "\<not> restore_over (restore_read rt api name w)"
    and "poll_outcome rt api name start (restore_state rt api name 1 w) res err w1"
  shows "poll_outcome rt api name start w res err w1"
proof -
  have sh: "restore_state rt api name j (restore_state rt api name 1 w) = restore_state rt api name (Suc j) w" for j by simp
  obtain k where before: "\<forall>j < k. ctx_alive rt (restore_state rt api name (Suc j) w) \<and>
        \<not> restore_over (restore_read rt api name (restore_state rt api name (Suc j) w))"
    and ends: "if ctx_alive rt (restore_state rt api name (Suc k) w)
      then restore_over (restore_read rt api name (restore_state rt api name (Suc k) w)) \<and> w1 = restore_state rt api name (Suc (Suc k)) w \<and>
        res = Some (time_Sub (rt_Now rt w1) start) \<and>
        (err = None \<longleftrightarrow> (\<exists>r. restore_read rt api name (restore_state rt api name (Suc k) w) = Inr r \<and> vs_Phase r = ''Completed''))
      else res = None \<and> err \<noteq> None \<and> rt_CtxErr rt w1 = err"
    using assms(3) unfolding poll_outcome_def sh by blast
  have "\<forall>j < Suc k. ctx_alive rt (restore_state rt api name j w) \<and> \<not> restore_over (restore_read rt api name (restore_state rt api name j w))"
    using before assms(1,2) by (auto simp: less_Suc_eq_0_disj)
  then show ?thesis using ends unfolding poll_outcome_def by blast
qed

lemma velero_poll_result:
  assumes "rt_clock rt" and "\<And>n. rt_forward rt (ku_GetRestore api n)" and "\<And>w. deadline \<le> rt_Now rt w \<Longrightarrow> rt_CtxErr rt w \<noteq> None"
  shows "deadline \<le> rt_Now rt w + int n * (2 * Second) \<Longrightarrow>
    \<exists>res err w1. velero_poll rt api name start w = Some ((res, err), w1) \<and> poll_outcome rt api name start w res err w1"
proof (induction n arbitrary: w)
  case 0
  then have "\<not> ctx_alive rt w" using assms(3)[of w] by (auto simp: ctx_alive_def)
  then show ?case by (rule velero_poll_dead_outcome)
next
  case (Suc n)
  let ?w1 = "rt_Sleep rt (2 * Second) w" and ?w2 = "restore_state rt api name 1 w"
  have "rt_Now rt w + 2 * Second \<le> rt_Now rt ?w1" using assms(1) by (simp add: rt_clock_def)
  moreover have "rt_Now rt ?w1 \<le> rt_Now rt ?w2" using assms(2) by (simp add: rt_forward_def)
  ultimately have "deadline \<le> rt_Now rt ?w2 + int n * (2 * Second)" using Suc.prems by (simp add: algebra_simps)
  then obtain res err w1 where ih: "velero_poll rt api name start ?w2 = Some ((res, err), w1)"
    "poll_outcome rt api name start ?w2 res err w1"
    using Suc.IH by blast
  show ?case
  proof (cases "ctx_alive rt w")
    case False
    then show ?thesis by (rule velero_poll_dead_outcome)
  next
    case alive: True
    show ?thesis
    proof (cases "restore_over (restore_read rt api name w)")
      case True
      then obtain res err w1 where o: "velero_poll rt api name start w = Some ((res, err), w1)" "w1 = restore_state rt api name 1 w"
        "res = Some (time_Sub (rt_Now rt w1) start)" "err = None \<longleftrightarrow> (\<exists>r. restore_read rt api name w = Inr r \<and> vs_Phase r = ''Completed'')"
        using velero_poll_over[OF alive] by blast
      have "poll_outcome rt api name start w res err w1" by (rule poll_outcome_now) (use True alive o(2-4) in simp)
      then show ?thesis using o(1) by blast
    next
      case False
      then show ?thesis using ih velero_poll_next[OF alive False] poll_outcome_next[OF alive False ih(2)] by metis
    qed
  qed
qed

text \<open>
  C36: what a Velero restore reports. With a context that has a deadline, \<open>Restore\<close> returns. It creates the restore under the name that teardown
  deletes, from the source namespace into the ephemeral one and never over existing resources; a refused creation is an error. Otherwise
  the first poll that reads a terminal phase (\<open>Completed\<close>, \<open>PartiallyFailed\<close> or one beginning with \<open>Failed\<close>) while the context lives decides: no
  error exactly when that phase is \<open>Completed\<close>, and in either case the time since the restore was created. Failed reads and other phases keep it
  polling; if the context ends first, its error is returned and no result.
\<close>

theorem velero_Restore_result:
  assumes "rt_clock rt" and "\<forall>n. rt_forward rt (ku_GetRestore api n)" and "\<forall>w. deadline \<le> rt_Now rt w \<longrightarrow> rt_CtxErr rt w \<noteq> None"
  shows "\<exists>res err d1 w1 wa ce wb. velero_Restore rt api d w = Some ((res, err), d1, w1) \<and>
    ve_restoreName d1 \<noteq> [] \<and> ve_TargetNS d1 = ve_TargetNS d \<and> wa = snd (ku_Rand api 3 w) \<and>
    ku_CreateRestore api \<lparr>cr_Name = ve_restoreName d1, cr_BackupName = ve_Backup d, cr_Included = [ve_SourceNS d],
      cr_Mapping = [(ve_SourceNS d, ve_TargetNS d)], cr_ExistingPolicy = ''none''\<rparr> wa = (ce, wb) \<and>
    (if ce = None then poll_outcome rt api (ve_restoreName d1) (rt_Now rt wa) wb res err w1
     else res = None \<and> err \<noteq> None \<and> w1 = wb)"
proof -
  obtain sfx wa where x1: "kube_randomHex api 3 w = (sfx, wa)" by fastforce
  define d1 where "d1 = d\<lparr>ve_restoreName := ve_TargetNS d @ ''-'' @ sfx\<rparr>"
  have d1: "ve_restoreName d1 \<noteq> []" "ve_TargetNS d1 = ve_TargetNS d" "ve_SourceNS d1 = ve_SourceNS d" "ve_Backup d1 = ve_Backup d"
    by (simp_all add: d1_def)
  obtain ce wb where x2: "ku_CreateRestore api (velero_CR d1 (ve_restoreName d1)) wa = (ce, wb)" by fastforce
  have R: "velero_Restore rt api d w = (case ce of
      Some e \<Rightarrow> Some ((None, Some (Msg ''creating Velero restore: %w'' [AErr e])), d1, wb)
    | None \<Rightarrow> (case velero_poll rt api (ve_restoreName d1) (rt_Now rt wa) wb of None \<Rightarrow> None | Some (r, w3) \<Rightarrow> Some (r, d1, w3)))"
    unfolding velero_Restore_def by (simp only: x1 prod.case Let_def d1_def[symmetric] x2)
  have "deadline \<le> rt_Now rt wb + int (nat (deadline - rt_Now rt wb)) * (2 * Second)" by simp
  from velero_poll_result[OF assms(1) _ _ this, of api "ve_restoreName d1" "rt_Now rt wa"] assms(2,3)
  obtain res err w3 where p: "velero_poll rt api (ve_restoreName d1) (rt_Now rt wa) wb = Some ((res, err), w3)"
    "poll_outcome rt api (ve_restoreName d1) (rt_Now rt wa) wb res err w3" by blast
  have x3: "ku_CreateRestore api \<lparr>cr_Name = ve_restoreName d1, cr_BackupName = ve_Backup d, cr_Included = [ve_SourceNS d],
      cr_Mapping = [(ve_SourceNS d, ve_TargetNS d)], cr_ExistingPolicy = ''none''\<rparr> wa = (ce, wb)"
    using x2 d1 by (simp add: velero_CR_def)
  have wa: "wa = snd (ku_Rand api 3 w)" using arg_cong[OF x1, of snd] by (simp add: kube_randomHex_def)
  show ?thesis
  proof (cases ce)
    case (Some e)
    then show ?thesis using R d1(1,2) x3 wa by fastforce
  next
    case None
    then have "velero_Restore rt api d w = Some ((res, err), d1, w3)" using R p(1) by simp
    then show ?thesis using d1(1,2) x3 wa p(2) None by fastforce
  qed
qed

text \<open>A small cluster for evaluation: every call succeeds, objects are counted, and a restore completes on the third poll.\<close>

definition demo_kube :: "int Kube" where
  "demo_kube = \<lparr>ku_InCluster = Pair True, ku_Kubeconfig = Pair None, ku_NewClient = Pair None, ku_NewDynamic = Pair None,
     ku_IsAlreadyExists = \<lambda>e. False, ku_IsNotFound = \<lambda>e. False, ku_CreateNamespace = \<lambda>n l a. Pair None, ku_CreatePolicy = \<lambda>p. Pair None,
     ku_CreatePod = \<lambda>p. Pair None, ku_GetPod = \<lambda>n p. Pair (Inr (''Running'', ''10.0.0.7'')), ku_DeletePod = \<lambda>n p. Pair None,
     ku_DeleteNamespace = \<lambda>n. Pair None, ku_Executor = \<lambda>n p c i. Pair None, ku_Stream = \<lambda>n p c i. Pair ([''ok''], None),
     ku_RoundTripper = Pair None, ku_NewForward = \<lambda>n p q. Pair None, ku_Forward = \<lambda>n p q. Pair PfReady, ku_GetPorts = \<lambda>n p. Pair (Inr [49153]),
     ku_Rand = \<lambda>n. Pair (replicate n CHR ''r''), ku_GetBackup = \<lambda>b. Pair (Inr \<lparr>vb_Phase = ''Completed'', vb_Created = 0, vb_Completion = None\<rparr>),
     ku_ParseRFC3339 = \<lambda>s. None, ku_CreateRestore = \<lambda>c. Pair None,
     ku_GetRestore = \<lambda>n w. (Inr \<lparr>vs_Phase = if w < 5 * Second then ''InProgress'' else ''Completed'', vs_Warnings = 0, vs_Errors = 0, vs_ValidationErrors = []\<rparr>, w),
     ku_DeleteRestore = \<lambda>n. Pair None\<rparr>"

lemma demo_kube_calls:
  "ku_InCluster demo_kube = Pair True" "ku_NewClient demo_kube = Pair None" "ku_NewDynamic demo_kube = Pair None"
  "ku_CreateNamespace demo_kube n l a = Pair None" "ku_CreatePolicy demo_kube p = Pair None" "ku_CreatePod demo_kube m = Pair None"
  "ku_GetPod demo_kube n q = Pair (Inr (''Running'', ''10.0.0.7''))" "ku_Rand demo_kube k = Pair (replicate k CHR ''r'')"
  by (simp_all add: demo_kube_def)

definition demo_ctx :: "int Runtime" where
  "demo_ctx = demo_runtime\<lparr>rt_CtxErr := \<lambda>w. if Hour \<le> w then Some (Msg ''context deadline exceeded'' []) else None\<rparr>"

lemma demo_ctx_clock: "rt_clock demo_ctx" "rt_forward demo_ctx (ku_GetRestore demo_kube n)"
  by (auto simp: demo_ctx_def demo_runtime_def demo_kube_def rt_clock_def rt_forward_def)

theorem velero_Restore_result_witness:
  "\<exists>res d1 w1. velero_Restore demo_ctx demo_kube
     \<lparr>ve_SourceNS = ''shop'', ve_TargetNS = ''firedrill-shop-1'', ve_Backup = ''b'', ve_BackupAge = 0, ve_restoreName = [],
      ve_once = False, ve_destroyErr = None, ve_watchdog = True, ve_destroyed = False\<rparr> 0 = Some ((Some res, None), d1, w1)"
proof -
  have st: "restore_state demo_ctx demo_kube n j w = w + int j * (2 * Second)" for n j w
    by (induction j arbitrary: w) (auto simp: demo_ctx_def demo_runtime_def demo_kube_def)
  have al: "ctx_alive demo_ctx w \<longleftrightarrow> w + 2 * Second < Hour" for w by (auto simp: ctx_alive_def demo_ctx_def demo_runtime_def)
  have ov: "restore_over (restore_read demo_ctx demo_kube n w) \<longleftrightarrow> 3 * Second \<le> w"
    "(\<exists>r. restore_read demo_ctx demo_kube n w = Inr r \<and> vs_Phase r = ''Completed'') \<longleftrightarrow> 3 * Second \<le> w" for n w
    by (auto simp: restore_over_def restore_read_def demo_ctx_def demo_runtime_def demo_kube_def)
  have fin: "res \<noteq> None \<and> err = None" if o: "poll_outcome demo_ctx demo_kube n start 0 res err w1" for n start res err w1
  proof -
    obtain k where k: "\<forall>j < k. 0 + int j * (2 * Second) + 2 * Second < Hour \<and> \<not> 3 * Second \<le> 0 + int j * (2 * Second)"
      "if 0 + int k * (2 * Second) + 2 * Second < Hour
       then 3 * Second \<le> 0 + int k * (2 * Second) \<and> w1 = 0 + int (Suc k) * (2 * Second) \<and>
         res = Some (time_Sub (rt_Now demo_ctx w1) start) \<and> (err = None \<longleftrightarrow> 3 * Second \<le> 0 + int k * (2 * Second))
       else res = None \<and> err \<noteq> None \<and> rt_CtxErr demo_ctx w1 = err"
      using o unfolding poll_outcome_def st al ov by (elim exE conjE) (rule that)
    have "k \<le> 2"
    proof (rule ccontr)
      assume "\<not> k \<le> 2"
      then show False using k(1)[rule_format, of 2] by simp
    qed
    then show ?thesis using k(2) by (auto split: if_splits)
  qed
  let ?d = "\<lparr>ve_SourceNS = ''shop'', ve_TargetNS = ''firedrill-shop-1'', ve_Backup = ''b'', ve_BackupAge = 0, ve_restoreName = [],
      ve_once = False, ve_destroyErr = None, ve_watchdog = True, ve_destroyed = False\<rparr>"
  have c: "ku_CreateRestore demo_kube c w = (None, w)" for c w by (simp add: demo_kube_def)
  have "\<forall>n. rt_forward demo_ctx (ku_GetRestore demo_kube n)" "\<forall>w. Hour \<le> rt_Now demo_ctx w \<longrightarrow> rt_CtxErr demo_ctx w \<noteq> None"
    using demo_ctx_clock(2) by (auto simp: demo_ctx_def demo_runtime_def)
  from velero_Restore_result[OF demo_ctx_clock(1) this, of ?d 0]
  obtain res err d1 w1 where r: "velero_Restore demo_ctx demo_kube ?d 0 = Some ((res, err), d1, w1)"
    "poll_outcome demo_ctx demo_kube (ve_restoreName d1) (rt_Now demo_ctx 0) 0 res err w1"
    unfolding demo_kube_calls c by auto
  then show ?thesis using fin by blast
qed

text \<open>A cluster that keeps its network policies.\<close>

definition policy_kube :: "NetworkPolicy list Kube" where
  "policy_kube = \<lparr>ku_InCluster = Pair True, ku_Kubeconfig = Pair None, ku_NewClient = Pair None, ku_NewDynamic = Pair None,
     ku_IsAlreadyExists = \<lambda>e. e = Msg ''already exists'' [], ku_IsNotFound = \<lambda>e. False, ku_CreateNamespace = \<lambda>n l a. Pair None,
     ku_CreatePolicy = \<lambda>p w. if policy_named (np_Namespace p) (np_Name p) (set w) then (Some (Msg ''already exists'' []), w) else (None, p # w),
     ku_CreatePod = \<lambda>p. Pair None, ku_GetPod = \<lambda>n p. Pair (Inr (''Running'', ''10.0.0.7'')), ku_DeletePod = \<lambda>n p. Pair None,
     ku_DeleteNamespace = \<lambda>n. Pair None, ku_Executor = \<lambda>n p c i. Pair None, ku_Stream = \<lambda>n p c i. Pair ([''ok''], None),
     ku_RoundTripper = Pair None, ku_NewForward = \<lambda>n p q. Pair None, ku_Forward = \<lambda>n p q. Pair PfReady, ku_GetPorts = \<lambda>n p. Pair (Inr [49153]),
     ku_Rand = \<lambda>n. Pair (replicate n CHR ''r''), ku_GetBackup = \<lambda>b. Pair (Inr \<lparr>vb_Phase = ''Completed'', vb_Created = 0, vb_Completion = None\<rparr>),
     ku_ParseRFC3339 = \<lambda>s. None, ku_CreateRestore = \<lambda>c. Pair None, ku_GetRestore = \<lambda>n. Pair (Inl (Msg ''no restore'' [])),
     ku_DeleteRestore = \<lambda>n. Pair None\<rparr>"

definition still_rt :: "'w Runtime" where
  "still_rt = \<lparr>rt_Now = \<lambda>w. 0, rt_Sleep = \<lambda>d w. w, rt_CtxErr = \<lambda>w. None\<rparr>"

definition open_policy :: NetworkPolicy where
  "open_policy = (deny_egress ''firedrill'')\<lparr>np_Egress := [''0.0.0.0/0'']\<rparr>"

lemma policy_kube_laws: "policy_laws policy_kube set"
  by (auto simp: policy_laws_def policy_kube_def split: if_splits)

lemma policy_kube_provisions: "\<exists>sb w1. kube_Provision still_rt policy_kube demo_config w = (Inr sb, w1) \<and> ks_namespace sb = ''firedrill''"
proof -
  have "ready_pass (\<lambda>cmd. kube_Exec policy_kube sb cmd None) cmds w = (True, w)" for sb cmds w
    by (induction cmds) (simp_all add: kube_Exec_def policy_kube_def Let_def)
  then have w: "kube_waitReady still_rt policy_kube sb cmds w = (None, w)" for sb cmds w
    by (intro kube_waitReady_at_once) (simp_all add: still_rt_def policy_kube_def)
  obtain p w2 where p: "EnsureDenyEgressPolicy policy_kube ''firedrill'' w = (None, w2)"
    by (cases "policy_named ''firedrill'' (np_Name (deny_egress ''firedrill'')) (set w)")
      (auto simp: EnsureDenyEgressPolicy_def policy_kube_def unless_exists_def deny_egress_def)
  have c: "ku_InCluster policy_kube = Pair True" "ku_NewClient policy_kube = Pair None" "ku_CreateNamespace policy_kube n l a = Pair None"
    "ku_CreatePod policy_kube m = Pair None" "ku_GetPod policy_kube n q = Pair (Inr (''Running'', ''10.0.0.7''))"
    "ku_Rand policy_kube k = Pair (replicate k CHR ''r'')" for n l a m q k
    by (simp_all add: policy_kube_def)
  have n: "cf_Namespace demo_config = []" by (simp add: demo_config_def)
  show ?thesis
    by (simp add: kube_Provision_def LoadConfig_def kube_boot_def kube_connect_def ensureNamespace_def kube_randomHex_def
        unless_exists_def Let_def w p c n)
qed

text \<open>In a namespace without policies the pod has no egress; next to an earlier policy of the same name that allows some, it has.\<close>

theorem kube_Provision_isolated_witness:
  "(\<exists>sb w1 wb pod. kube_Provision still_rt policy_kube demo_config [] = (Inr sb, w1) \<and> fst (ku_CreatePod policy_kube pod wb) = None \<and>
     pm_Name pod = ks_podName sb \<and> no_egress (set wb) pod) \<and>
   (\<exists>sb w1 wb pod. kube_Provision still_rt policy_kube demo_config [open_policy] = (Inr sb, w1) \<and>
     fst (ku_CreatePod policy_kube pod wb) = None \<and> pm_Name pod = ks_podName sb \<and> \<not> no_egress (set wb) pod)"
proof (intro conjI)
  obtain sb w1 where "kube_Provision still_rt policy_kube demo_config [] = (Inr sb, w1)" using policy_kube_provisions by blast
  with kube_Provision_isolated[OF policy_kube_laws this]
  show "\<exists>sb w1 wb pod. kube_Provision still_rt policy_kube demo_config [] = (Inr sb, w1) \<and> fst (ku_CreatePod policy_kube pod wb) = None \<and>
     pm_Name pod = ks_podName sb \<and> no_egress (set wb) pod"
    by (simp add: policy_named_def) blast
  obtain sb w1 where p: "kube_Provision still_rt policy_kube demo_config [open_policy] = (Inr sb, w1)" and n: "ks_namespace sb = ''firedrill''"
    using policy_kube_provisions by blast
  have "policy_named ''firedrill'' ''firedrill-sandbox-deny-egress'' (set [open_policy])" "np_Egress open_policy \<noteq> []"
    by (simp_all add: policy_named_def open_policy_def deny_egress_def)
  with kube_Provision_isolated[OF policy_kube_laws p] p
  show "\<exists>sb w1 wb pod. kube_Provision still_rt policy_kube demo_config [open_policy] = (Inr sb, w1) \<and>
     fst (ku_CreatePod policy_kube pod wb) = None \<and> pm_Name pod = ks_podName sb \<and> \<not> no_egress (set wb) pod"
    unfolding n by simp blast
qed

end
