(* ===== verification/FD_Notify.thy ===== *)
theory FD_Notify
  imports FD_Report
begin

text \<open>
  \<open>pkg/notify\<close> and \<open>pkg/metrics\<close>: what leaves the process after a drill.

  A HTTP client is a record of the calls the code makes; a response is its status. The text of a Slack message is its list of formatted lines, and
  its JSON encoding a parameter (an error is kept symbolic, so \<open>truncate\<close> is a wrapper around it), as are the Prometheus exposition format and the Pushgateway client. A gauge is its name, its labels and its
  value before conversion to a floating-point number.

  The lemmas: a sink that only wants failures is silent for a verified drill; the text file appears atomically; a sink gives at most one warning; and the
  check gauge of a name is that of the last check of the name.
\<close>

section \<open>Requests\<close>

record Request =
  rq_URL :: string
  rq_Headers :: "(string \<times> string) list"
  rq_Body :: string

record Response =
  rsp_Code :: int
  rsp_Status :: string

record 'w Http =
  ht_NewRequest :: "string \<Rightarrow> msg option"
  ht_Do :: "Request \<Rightarrow> 'w \<Rightarrow> Response res \<times> 'w"
  ht_Text :: "msg list \<Rightarrow> string res"

section \<open>Slack\<close>

definition failed_checks :: "Evidence \<Rightarrow> msg list" where
  "failed_checks e =
     map (\<lambda>c. Msg ''`%s` (%s)'' [AStr (vr_Name c), AErr (vr_Detail c)]) (filter (\<lambda>c. \<not> vr_Passed c \<and> \<not> vr_Skipped c) (ev_Checks e))"

definition Message :: "Evidence \<Rightarrow> msg list" where
  "Message e =
     [if ev_Verified e then Msg '':white_check_mark: *FireDrill: recovery verified* - drill `%s`'' [AStr (ev_Drill e)]
      else Msg '':rotating_light: *FireDrill: recovery NOT verified* - drill `%s`'' [AStr (ev_Drill e)],
      Msg ''> RTO %s (target %s, %s) - RPO %s (target %s, %s)''
        [ADur (dur_Round (em_Restore (ev_Measured e)) Second), ADur (ev_ObjectiveRTO e), AStr (met (em_RTOMet (ev_Measured e))),
         ADur (dur_Round (eb_Age (ev_Backup e)) Minute), ADur (ev_ObjectiveRPO e), AStr (met (em_RPOMet (ev_Measured e)))]] @
     (if failed_checks e \<noteq> [] then [Msg ''> failed checks: %s'' (map AErr (failed_checks e))] else []) @
     (case ev_Error e of None \<Rightarrow> [] | Some err \<Rightarrow> [Msg ''> error: %s'' [AErr (Msg ''truncate(%s, 300)'' [AErr err])]])"

definition Slack :: "'w Http \<Rightarrow> Evidence \<Rightarrow> Sink \<Rightarrow> OS \<Rightarrow> 'w \<Rightarrow> msg option \<times> 'w" where
  "Slack ht e sink s w =
     (if snk_OnlyFailures sink \<and> ev_Verified e then (None, w)
      else (let url = os_Getenv s (snk_WebhookEnv sink) in
       if url = [] then (Some (Msg ''slack sink: env var %s is empty or unset'' [AStr (snk_WebhookEnv sink)]), w)
       else (case ht_Text ht (Message e) of
         Inl err \<Rightarrow> (Some err, w)
       | Inr body \<Rightarrow>
          (case ht_NewRequest ht url of
             Some err \<Rightarrow> (Some err, w)
           | None \<Rightarrow>
              (case ht_Do ht \<lparr>rq_URL = url, rq_Headers = [(''Content-Type'', ''application/json'')], rq_Body = body\<rparr> w of
                 (Inl err, w1) \<Rightarrow> (Some (Msg ''slack sink: %w'' [AErr err]), w1)
               | (Inr resp, w1) \<Rightarrow>
                   if rsp_Code resp \<ge> 300 then (Some (Msg ''slack sink: webhook returned %s'' [AStr (rsp_Status resp)]), w1)
                   else (None, w1))))))"

section \<open>Webhook\<close>

definition event :: "Evidence \<Rightarrow> string" where
  "event e = (if ev_Verified e then ''drill.verified'' else ''drill.failed'')"

definition Webhook :: "Json \<Rightarrow> 'w Http \<Rightarrow> Evidence \<Rightarrow> Sink \<Rightarrow> OS \<Rightarrow> 'w \<Rightarrow> msg option \<times> 'w" where
  "Webhook js ht e sink s w =
     (if snk_OnlyFailures sink \<and> ev_Verified e then (None, w)
      else (let url = os_Getenv s (snk_URLEnv sink) in
       if url = [] then (Some (Msg ''webhook sink: env var %s is empty or unset'' [AStr (snk_URLEnv sink)]), w)
       else (case Canonical js e of
         Inl err \<Rightarrow> (Some (Msg ''webhook sink: %w'' [AErr err]), w)
       | Inr body \<Rightarrow>
          (case ht_NewRequest ht url of
             Some err \<Rightarrow> (Some err, w)
           | None \<Rightarrow>
              (case ht_Do ht \<lparr>rq_URL = url, rq_Headers = [(''Content-Type'', ''application/json''), (''User-Agent'', ''firedrill''),
                      (''X-FireDrill-Event'', event e), (''X-FireDrill-Drill'', ev_Drill e)], rq_Body = body\<rparr> w of
                 (Inl err, w1) \<Rightarrow> (Some (Msg ''webhook sink: %w'' [AErr err]), w1)
               | (Inr resp, w1) \<Rightarrow>
                   if rsp_Code resp \<ge> 300 then (Some (Msg ''webhook sink: %s returned %s'' [AStr (snk_URLEnv sink), AStr (rsp_Status resp)]), w1)
                   else (None, w1))))))"

section \<open>Metrics\<close>

datatype gauge_value = GFlag bool | GSeconds duration | GUnix gotime

record Gauge =
  ga_Name :: string
  ga_Labels :: "(string \<times> string) list"
  ga_Value :: gauge_value

text \<open>\<open>check.With(l).Set(v)\<close> on a gauge vector: one value per label set, the last one set.\<close>

fun vec_set :: "string \<Rightarrow> bool \<Rightarrow> (string \<times> bool) list \<Rightarrow> (string \<times> bool) list" where
  "vec_set k v [] = [(k, v)]"
| "vec_set k v ((k', v') # m) = (if k' = k then (k, v) # m else (k', v') # vec_set k v m)"

definition check_vec :: "Result list \<Rightarrow> (string \<times> bool) list" where
  "check_vec rs = fold (\<lambda>r. vec_set (vr_Name r) (vr_Passed r)) rs []"

definition Registry :: "Evidence \<Rightarrow> bool \<Rightarrow> Gauge list" where
  "Registry e withDrillLabel =
     (let base = (if withDrillLabel then [(''drill'', ev_Drill e)] else []);
          gauge = (\<lambda>name v. \<lparr>ga_Name = name, ga_Labels = base, ga_Value = v\<rparr>)
      in [gauge ''firedrill_drill_verified'' (GFlag (ev_Verified e)),
          gauge ''firedrill_restore_duration_seconds'' (GSeconds (em_Restore (ev_Measured e))),
          gauge ''firedrill_backup_age_seconds'' (GSeconds (eb_Age (ev_Backup e))),
          gauge ''firedrill_rto_met'' (GFlag (em_RTOMet (ev_Measured e))),
          gauge ''firedrill_rpo_met'' (GFlag (em_RPOMet (ev_Measured e))),
          gauge ''firedrill_drill_timestamp_seconds'' (GUnix (ev_FinishedAt e))] @
         map (\<lambda>(k, v). \<lparr>ga_Name = ''firedrill_check_passed'', ga_Labels = base @ [(''check'', k)], ga_Value = GFlag v\<rparr>) (check_vec (ev_Checks e)))"

record 'w Prom =
  pm_Encode :: "Gauge list \<Rightarrow> string res"
  pm_Push :: "string \<Rightarrow> string \<Rightarrow> Gauge list \<Rightarrow> 'w \<Rightarrow> msg option \<times> 'w"

definition prom_file :: "string \<Rightarrow> string \<Rightarrow> string" where
  "prom_file dir drill = path_Join [dir, ''firedrill-'' @ drill @ ''.prom'']"

definition writeTextfile :: "'w Prom \<Rightarrow> Gauge list \<Rightarrow> string \<Rightarrow> string \<Rightarrow> OS \<Rightarrow> msg option \<times> OS" where
  "writeTextfile pm reg dir drill s =
     (case pm_Encode pm reg of
        Inl e \<Rightarrow> (Some e, s)
      | Inr text \<Rightarrow>
         (case os_MkdirAll dir s of (Some e, s1) \<Rightarrow> (Some e, s1) | (None, s1) \<Rightarrow>
          (let final = prom_file dir drill; tmp = final @ ''.tmp'' in
           case os_WriteFile tmp text s1 of (Some e, s2) \<Rightarrow> (Some e, s2) | (None, s2) \<Rightarrow> os_Rename tmp final s2)))"

definition export_one :: "'w Prom \<Rightarrow> Evidence \<Rightarrow> Sink \<Rightarrow> OS \<Rightarrow> 'w \<Rightarrow> msg option \<times> OS \<times> 'w" where
  "export_one pm e sink s w =
     (if snk_Type sink = ''prometheus'' then
        (case writeTextfile pm (Registry e True) (snk_TextfileDir sink) (ev_Drill e) s of (r, s1) \<Rightarrow> (r, s1, w))
      else if snk_Type sink = ''pushgateway'' then
        (case pm_Push pm (snk_URL sink) (ev_Drill e) (Registry e False) w of (r, w1) \<Rightarrow> (r, s, w1))
      else (Some (Msg ''unsupported sink type %q'' [AQuo (snk_Type sink)]), s, w))"

fun Export :: "'w Prom \<Rightarrow> Evidence \<Rightarrow> Sink list \<Rightarrow> OS \<Rightarrow> 'w \<Rightarrow> msg list \<times> OS \<times> 'w" where
  "Export pm e [] s w = ([], s, w)"
| "Export pm e (sink # sinks) s w =
     (case export_one pm e sink s w of (r, s1, w1) \<Rightarrow>
      case Export pm e sinks s1 w1 of (errs, s2, w2) \<Rightarrow>
      ((case r of None \<Rightarrow> errs | Some err \<Rightarrow> Msg ''sink %s: %w'' [AStr (snk_Type sink), AErr err] # errs), s2, w2))"

section \<open>Lemmas\<close>

lemma Slack_only_failures: "snk_OnlyFailures sink \<Longrightarrow> ev_Verified e \<Longrightarrow> Slack ht e sink s w = (None, w)"
  by (simp add: Slack_def)

lemma Webhook_only_failures: "snk_OnlyFailures sink \<Longrightarrow> ev_Verified e \<Longrightarrow> Webhook js ht e sink s w = (None, w)"
  by (simp add: Webhook_def)

lemma map_of_vec_set: "map_of (vec_set k v m) = (map_of m)(k \<mapsto> v)"
  by (induction k v m rule: vec_set.induct) (auto simp: fun_eq_iff)

lemma find_snoc: "find P (xs @ [y]) = (case find P xs of None \<Rightarrow> if P y then Some y else None | Some z \<Rightarrow> Some z)"
  by (induction xs) auto

lemma map_of_fold_vec:
  "map_of (fold (\<lambda>r. vec_set (vr_Name r) (vr_Passed r)) rs m) k =
     (case find (\<lambda>r. vr_Name r = k) (rev rs) of None \<Rightarrow> map_of m k | Some r \<Rightarrow> Some (vr_Passed r))"
proof (induction rs arbitrary: m)
  case (Cons r rs)
  show ?case by (cases "find (\<lambda>r. vr_Name r = k) (rev rs)") (simp_all add: Cons.IH map_of_vec_set find_snoc)
qed simp

text \<open>
  The check gauge reports the last check of its name. \<open>firedrill_check_passed\<close> has one value per check name, so of several checks of one kind
  only the last decides it, and a failed one before it does not show.
\<close>

lemma check_gauge_last:
  "map_of (check_vec rs) k = map_option vr_Passed (find (\<lambda>r. vr_Name r = k) (rev rs))"
  by (simp add: check_vec_def map_of_fold_vec split: option.splits)

lemma prom_append_tmp_ne: "p @ ''.tmp'' \<noteq> p"
  by simp

lemma writeTextfile_atomic:
  assumes "writeTextfile pm reg dir drill s = (r, t)" and "os_fs t (prom_file dir drill) = Some (File d m)"
  shows "os_fs s (prom_file dir drill) = Some (File d m) \<or> pm_Encode pm reg = Inr d"
proof -
  let ?p = "prom_file dir drill"
  show ?thesis
  proof (cases "pm_Encode pm reg")
    case (Inl e)
    then show ?thesis using assms by (simp add: writeTextfile_def)
  next
    case (Inr body)
    obtain e1 s1 where x1: "os_MkdirAll dir s = (e1, s1)" by fastforce
    have f1: "os_fs s1 ?p = Some (File d m) \<Longrightarrow> os_fs s ?p = Some (File d m)" for d m
      using x1 by (auto simp: os_MkdirAll_def split: option.splits node.splits if_splits)
    obtain e2 s2 where x2: "os_WriteFile (?p @ ''.tmp'') body s1 = (e2, s2)" by fastforce
    have f2: "os_fs s2 ?p = os_fs s1 ?p" using os_frame_fs[OF os_WriteFile_frameD[OF x2], of ?p] by simp
    obtain e3 s3 where x3: "os_Rename (?p @ ''.tmp'') ?p s2 = (e3, s3)" by fastforce
    have f3: "os_fs s3 ?p = Some (File d m) \<Longrightarrow> e2 = None \<Longrightarrow> os_fs s2 ?p = Some (File d m) \<or> d = body" for d m
    proof (cases e3)
      case None
      assume a: "os_fs s3 ?p = Some (File d m)" "e2 = None"
      then have "os_fs s2 (?p @ ''.tmp'') = Some (File d m)" using os_Rename_ok x3 None by fastforce
      then show ?thesis using os_WriteFile_ok x2 a(2) by fastforce
    next
      case (Some e)
      assume "os_fs s3 ?p = Some (File d m)"
      then show ?thesis using os_Rename_err x3 Some by metis
    qed
    consider (m) e where "e1 = Some e" "t = s1" | (w) e where "e1 = None" "e2 = Some e" "t = s2" | (r) "e1 = None" "e2 = None" "t = s3"
      using assms(1) x1 x2 x3 Inr by (cases e1; cases e2) (auto simp: writeTextfile_def Let_def)
    then show ?thesis
    proof cases
      case m then show ?thesis using f1 assms(2) by simp
    next
      case w then show ?thesis using f1 f2 assms(2) by simp
    next
      case r
      then have "os_fs s2 ?p = Some (File d m) \<or> d = body" using f3 assms(2) by simp
      then show ?thesis using f1 f2 Inr by auto
    qed
  qed
qed

lemma Export_one_per_failure: "length (fst (Export pm e sinks s w)) \<le> length sinks"
proof (induction sinks arbitrary: s w)
  case (Cons sink sinks)
  obtain r s1 w1 where x: "export_one pm e sink s w = (r, s1, w1)" by (metis prod.collapse)
  obtain errs s2 w2 where y: "Export pm e sinks s1 w1 = (errs, s2, w2)" by (metis prod.collapse)
  then have "length errs \<le> length sinks" using Cons[of s1 w1] by simp
  then show ?case using x y by (simp split: option.splits)
qed simp

end
