(* ===== verification/FD_Drill.thy ===== *)
theory FD_Drill
  imports FD_Notify FD_Kube
begin

text \<open>
  \<open>pkg/drill\<close>: one recovery drill end to end, and the fleet run.

  Everything outside the program is in the record \<open>Env\<close>: the clients a call may use depend on the context it is given (a \<open>Runtime\<close>, whose
  \<open>rt_CtxErr\<close> says whether it is done), so each client is a function of it. \<open>context.WithTimeout\<close> is \<open>with_timeout\<close>. The sandbox interface is the datatype
  \<open>AnySandbox\<close> over the two providers. The TTL watchdog runs in its own goroutine: \<open>nv_fires\<close> decides, before the restore and before the teardown, whether
  it has fired; in between its effect on the outside is part of what the outside does. What goes to the printer is a list of symbolic lines. A loop
  that would not end makes the result \<open>None\<close>.

  The lemmas: the verdict is what the evidence says; the evidence that is written is the one returned, with the real fate of the sandbox; every drill
  ends; nothing of a failed provision or an unwritten drill is left running; a fleet run has one outcome per drill.
\<close>

section \<open>The environment\<close>

record 'w Env =
  nv_rt :: "'w Runtime"
  nv_docker :: "'w Runtime \<Rightarrow> 'w Docker"
  nv_kube :: "'w Runtime \<Rightarrow> 'w Kube"
  nv_k8s :: "'w Runtime \<Rightarrow> 'w K8s"
  nv_http :: "'w Runtime \<Rightarrow> 'w Http"
  nv_s3 :: "'w Runtime \<Rightarrow> 'w \<Rightarrow> S3"
  nv_cd :: Codecs
  nv_js :: Json
  nv_cr :: Crypto
  nv_prom :: "'w Prom"
  nv_tmpl :: "Evidence \<Rightarrow> string \<times> msg option"
  nv_home :: "string res"
  nv_sqlOpen :: "string \<Rightarrow> string \<Rightarrow> 'w \<Rightarrow> 'w DB res \<times> 'w"
  nv_sqlClose :: "'w \<Rightarrow> 'w"
  nv_fires :: "'w \<Rightarrow> bool"

record Options =
  op_Printer :: "Printer option"
  op_EvidenceDir :: string
  op_KeyDir :: string
  op_Version :: string

datatype line = LStep msg msg bool | LInfo msg

definition say :: "Options \<Rightarrow> line list \<Rightarrow> line list" where
  "say opts ls = (case op_Printer opts of None \<Rightarrow> [] | Some _ \<Rightarrow> ls)"

definition with_timeout :: "'w Runtime \<Rightarrow> duration \<Rightarrow> 'w \<Rightarrow> 'w Runtime" where
  "with_timeout ctx d w =
     ctx\<lparr>rt_CtxErr := \<lambda>w1. (case rt_CtxErr ctx w1 of
        Some e \<Rightarrow> Some e
      | None \<Rightarrow> if rt_Now ctx w + d \<le> rt_Now ctx w1 then Some (Msg ''context deadline exceeded'' []) else None)\<rparr>"

text \<open>What a drill returns: evidence, its path, an error; the printed lines; the file system and the outside.\<close>

type_synonym 'w ran = "(Evidence option \<times> string \<times> msg option) \<times> line list \<times> OS \<times> 'w"

section \<open>Sandboxes of either provider\<close>

datatype AnySandbox = SbDocker DockerSandbox | SbKube KubeSandbox

fun any_Destroy :: "'w Docker \<Rightarrow> 'w Kube \<Rightarrow> AnySandbox \<Rightarrow> 'w \<Rightarrow> msg option \<times> AnySandbox \<times> 'w" where
  "any_Destroy dk ku (SbDocker sb) w = (case docker_Destroy dk sb w of (e, sb1, w1) \<Rightarrow> (e, SbDocker sb1, w1))"
| "any_Destroy dk ku (SbKube sb) w = (case kube_Destroy ku sb w of (e, sb1, w1) \<Rightarrow> (e, SbKube sb1, w1))"

fun any_WasDestroyed :: "AnySandbox \<Rightarrow> bool" where
  "any_WasDestroyed (SbDocker sb) = db_destroyed sb"
| "any_WasDestroyed (SbKube sb) = ks_destroyed sb"

fun any_once :: "AnySandbox \<Rightarrow> bool" where
  "any_once (SbDocker sb) = db_once sb"
| "any_once (SbKube sb) = ks_once sb"

fun any_destroyErr :: "AnySandbox \<Rightarrow> msg option" where
  "any_destroyErr (SbDocker sb) = db_destroyErr sb"
| "any_destroyErr (SbKube sb) = ks_destroyErr sb"

fun any_box :: "'w Docker \<Rightarrow> 'w Kube \<Rightarrow> AnySandbox \<Rightarrow> 'w Box" where
  "any_box dk ku (SbDocker sb) = docker_box dk sb"
| "any_box dk ku (SbKube sb) = kube_box ku sb"

definition drill_Provision :: "'w Env \<Rightarrow> 'w Runtime \<Rightarrow> string \<Rightarrow> Config \<Rightarrow> 'w \<Rightarrow> AnySandbox res \<times> 'w" where
  "drill_Provision env ctx provider cfg w =
     (if provider = ''docker'' then map_prod (map_sum id SbDocker) id (docker_Provision ctx (nv_docker env ctx) cfg w)
      else if provider = ''kubernetes'' then map_prod (map_sum id SbKube) id (kube_Provision ctx (nv_kube env ctx) cfg w)
      else (Inl (Msg ''unknown provider %q'' [AQuo provider]), w))"

text \<open>\<open>Destroy(context.Background())\<close>, the call of the drill and of the watchdog.\<close>

definition sb_Destroy :: "'w Env \<Rightarrow> AnySandbox \<Rightarrow> 'w \<Rightarrow> msg option \<times> AnySandbox \<times> 'w" where
  "sb_Destroy env = any_Destroy (nv_docker env (nv_rt env)) (nv_kube env (nv_rt env))"

definition watchdog :: "'w Env \<Rightarrow> ('s \<Rightarrow> 'w \<Rightarrow> msg option \<times> 's \<times> 'w) \<Rightarrow> 's \<Rightarrow> 'w \<Rightarrow> 's \<times> 'w" where
  "watchdog env destroy sb w = (if nv_fires env w then snd (destroy sb w) else (sb, w))"

definition drill_teardown ::
  "string \<Rightarrow> ('s \<Rightarrow> 'w \<Rightarrow> msg option \<times> 's \<times> 'w) \<Rightarrow> ('s \<Rightarrow> bool) \<Rightarrow> Options \<Rightarrow> 's \<Rightarrow> 'w \<Rightarrow> bool \<times> line list \<times> 's \<times> 'w" where
  "drill_teardown what destroy was opts sb w =
     (case destroy sb w of (derr, sb1, w1) \<Rightarrow>
      (was sb1, (case derr of None \<Rightarrow> [] | Some e \<Rightarrow> say opts [LInfo (Msg ''warning: %s teardown: %v'' [AStr what, AErr e])]), sb1, w1))"

section \<open>The verdict\<close>

definition dataCheckNames :: "string \<Rightarrow> bool" where
  "dataCheckNames n \<longleftrightarrow> n \<in> {''rowCount'', ''checksum'', ''smoke'', ''canary'', ''podsReady'', ''resourceCount''}"

fun verdict_loop :: "Result list \<Rightarrow> bool \<Rightarrow> bool \<Rightarrow> bool \<times> bool" where
  "verdict_loop [] verified dataProven = (verified, dataProven)"
| "verdict_loop (r # rs) verified dataProven =
     (let v1 = (if \<not> vr_Passed r \<and> \<not> vr_Skipped r then False else verified);
          v2 = (if vr_Skipped r then False else v1)
      in verdict_loop rs v2 (if vr_Passed r \<and> dataCheckNames (vr_Name r) then True else dataProven))"

definition set_Destroyed :: "bool \<Rightarrow> Evidence \<Rightarrow> Evidence" where
  "set_Destroyed b e = e\<lparr>ev_Sandbox := (ev_Sandbox e)\<lparr>es_Destroyed := b\<rparr>\<rparr>"

definition set_Restore :: "duration \<Rightarrow> Evidence \<Rightarrow> Evidence" where
  "set_Restore t e = e\<lparr>ev_Measured := (ev_Measured e)\<lparr>em_Restore := t\<rparr>\<rparr>"

definition judge :: "Drill \<Rightarrow> Evidence \<Rightarrow> msg option \<Rightarrow> duration \<Rightarrow> duration \<Rightarrow> Evidence" where
  "judge d e restoreErr restoreDur backupAge =
     (let rtoMet = (restoreErr = None \<and> restoreDur \<le> obj_RTO (sp_Objectives (dr_Spec d)));
          rpoMet = (backupAge \<le> obj_RPO (sp_Objectives (dr_Spec d)));
          e1 = e\<lparr>ev_Measured := (ev_Measured e)\<lparr>em_RTOMet := rtoMet, em_RPOMet := rpoMet\<rparr>\<rparr>
      in case verdict_loop (ev_Checks e) (restoreErr = None \<and> rtoMet \<and> rpoMet) False of (verified, dataProven) \<Rightarrow>
         (let e2 = e1\<lparr>ev_Verified := (if \<not> dataProven then False else verified)\<rparr>
          in case restoreErr of None \<Rightarrow> e2 | Some err \<Rightarrow> e2\<lparr>ev_Error := Some err\<rparr>))"

section \<open>Writing, signing, sinks\<close>

definition drill_sign :: "'w Env \<Rightarrow> Options \<Rightarrow> string \<Rightarrow> OS \<Rightarrow> msg option \<times> OS" where
  "drill_sign env opts path s =
     (case (if op_KeyDir opts = [] then DefaultKeyDir (nv_home env) else Inr (op_KeyDir opts)) of
        Inl err \<Rightarrow> (Some err, s)
      | Inr keyDir \<Rightarrow>
     (case LoadPrivateKey (nv_cr env) keyDir s of
        (Inl err, s1) \<Rightarrow> (Some err, s1)
      | (Inr priv, s1) \<Rightarrow>
     (case Sign (nv_js env) (nv_cr env) path priv s1 of
        (Inl err, s2) \<Rightarrow> (Some (Msg ''signing evidence: %w'' [AErr err]), s2)
      | (Inr _, s2) \<Rightarrow>
     (case Attest (nv_js env) (nv_cr env) path priv s2 of
        (Inl err, s3) \<Rightarrow> (Some (Msg ''attesting evidence: %w'' [AErr err]), s3)
      | (Inr _, s3) \<Rightarrow> (None, s3)))))"

definition warn :: "Options \<Rightarrow> string \<Rightarrow> msg option \<Rightarrow> line list" where
  "warn opts fmt r = (case r of None \<Rightarrow> [] | Some err \<Rightarrow> say opts [LInfo (Msg fmt [AErr err])])"

text \<open>The loop over the sinks: what it prints, the metric sinks it puts aside, the outside.\<close>

fun notify_loop :: "'w Env \<Rightarrow> 'w Runtime \<Rightarrow> Options \<Rightarrow> Evidence \<Rightarrow> OS \<Rightarrow> Sink list \<Rightarrow> 'w \<Rightarrow> line list \<times> Sink list \<times> 'w" where
  "notify_loop env ctx opts e s [] w = ([], [], w)"
| "notify_loop env ctx opts e s (sink # sinks) w =
     (if snk_Type sink = ''slack'' then
        (case Slack (nv_http env ctx) e sink s w of (r, w1) \<Rightarrow>
         case notify_loop env ctx opts e s sinks w1 of (ls, ms, w2) \<Rightarrow> (warn opts ''warning: %v'' r @ ls, ms, w2))
      else if snk_Type sink = ''webhook'' then
        (case Webhook (nv_js env) (nv_http env ctx) e sink s w of (r, w1) \<Rightarrow>
         case notify_loop env ctx opts e s sinks w1 of (ls, ms, w2) \<Rightarrow> (warn opts ''warning: %v'' r @ ls, ms, w2))
      else
        (case notify_loop env ctx opts e s sinks w of (ls, ms, w2) \<Rightarrow> (ls, sink # ms, w2)))"

definition drill_sinks :: "'w Env \<Rightarrow> 'w Runtime \<Rightarrow> Options \<Rightarrow> Evidence \<Rightarrow> Sink list \<Rightarrow> OS \<Rightarrow> 'w \<Rightarrow> line list \<times> OS \<times> 'w" where
  "drill_sinks env ctx opts e sinks s w =
     (case notify_loop env ctx opts e s sinks w of (ls, ms, w1) \<Rightarrow>
      case Export (nv_prom env) e ms s w1 of (errs, s1, w2) \<Rightarrow>
      (ls @ say opts (map (\<lambda>err. LInfo (Msg ''warning: metrics %v'' [AErr err])) errs), s1, w2))"

definition drill_html :: "'w Env \<Rightarrow> Options \<Rightarrow> Drill \<Rightarrow> Evidence \<Rightarrow> string \<Rightarrow> OS \<Rightarrow> msg option \<times> line list \<times> OS" where
  "drill_html env opts d e path s =
     (if rep_HTML (sp_Report (dr_Spec d)) then
        (case WriteHTML (nv_tmpl env) e path s of
           (Inl err, s1) \<Rightarrow> (Some (Msg ''writing html report: %w'' [AErr err]), [], s1)
         | (Inr htmlPath, s1) \<Rightarrow> (None, say opts [LInfo (Msg ''report   %s'' [AStr htmlPath])], s1))
      else (None, [], s))"

definition finalize ::
  "'w Env \<Rightarrow> 'w Runtime \<Rightarrow> Drill \<Rightarrow> Options \<Rightarrow> Evidence \<Rightarrow> msg option \<Rightarrow> duration \<Rightarrow> duration \<Rightarrow> OS \<Rightarrow> 'w \<Rightarrow>
     (Evidence \<times> string \<times> msg option) \<times> line list \<times> OS \<times> 'w" where
  "finalize env ctx d opts e0 restoreErr restoreDur backupAge s w =
     (let e = (judge d e0 restoreErr restoreDur backupAge)\<lparr>ev_FinishedAt := rt_Now ctx w\<rparr>;
          dir = (if op_EvidenceDir opts \<noteq> [] then op_EvidenceDir opts else rep_Dir (sp_Report (dr_Spec d)))
      in case evidence_Write (nv_js env) e dir s of
           (Inl err, s1) \<Rightarrow> ((e, [], Some (Msg ''writing evidence: %w'' [AErr err])), [], s1, w)
         | (Inr path, s1) \<Rightarrow>
        (case (if rep_Sign (sp_Report (dr_Spec d)) then drill_sign env opts path s1 else (None, s1)) of
           (Some err, s2) \<Rightarrow> ((e, path, Some err), [], s2, w)
         | (None, s2) \<Rightarrow>
        (case drill_html env opts d e path s2 of
           (Some err, l3, s3) \<Rightarrow> ((e, path, Some err), l3, s3, w)
         | (None, l3, s3) \<Rightarrow>
        (case drill_sinks env ctx opts e (rep_Sinks (sp_Report (dr_Spec d))) s3 w of (l4, s4, w4) \<Rightarrow>
         ((e, path, None), l3 @ l4, s4, w4)))))"

section \<open>A drill\<close>

definition start_evidence :: "Options \<Rightarrow> Drill \<Rightarrow> gotime \<Rightarrow> Evidence" where
  "start_evidence opts d now =
     \<lparr>ev_Drill = drillName d, ev_Tool = ''firedrill '' @ op_Version opts, ev_StartedAt = now, ev_FinishedAt = 0,
      ev_Backup = \<lparr>eb_URI = [], eb_ModTime = 0, eb_Age = 0, eb_Bytes = 0, eb_ResolvedURI = [], eb_Encryption = [], eb_Compression = [],
        eb_UncompressedBytes = 0\<rparr>,
      ev_ObjectiveRTO = obj_RTO (sp_Objectives (dr_Spec d)), ev_ObjectiveRPO = obj_RPO (sp_Objectives (dr_Spec d)),
      ev_Measured = \<lparr>em_Restore = 0, em_RTOMet = False, em_RPOMet = False\<rparr>,
      ev_Sandbox = \<lparr>es_Provider = sbx_Provider (sp_Sandbox (dr_Spec d)), es_Image = sbx_Image (sp_Sandbox (dr_Spec d)), es_Destroyed = False\<rparr>,
      ev_Checks = [], ev_Controls = rep_Controls (sp_Report (dr_Spec d)), ev_Verified = False, ev_Error = None\<rparr>"

definition backup_evidence :: "Drill \<Rightarrow> Backup \<Rightarrow> duration \<Rightarrow> Evidence \<Rightarrow> Evidence" where
  "backup_evidence d b age e =
     e\<lparr>ev_Backup := \<lparr>eb_URI = from_URI (drillFrom d), eb_ModTime = bk_ModTime b, eb_Age = age, eb_Bytes = bk_Size b,
        eb_ResolvedURI = (if bk_ResolvedURI b \<noteq> from_URI (drillFrom d) then bk_ResolvedURI b else []),
        eb_Encryption = bk_Encryption b, eb_Compression = bk_Compression b, eb_UncompressedBytes = bk_UncompressedBytes b\<rparr>\<rparr>"

definition drill_config :: "Drill \<Rightarrow> Driver \<Rightarrow> Config" where
  "drill_config d driver =
     \<lparr>cf_Image = sbx_Image (sp_Sandbox (dr_Spec d)), cf_TTL = sbx_TTL (sp_Sandbox (dr_Spec d)), cf_Name = drillName d, cf_Driver = driver,
      cf_Namespace = sbx_Namespace (sp_Sandbox (dr_Spec d)), cf_ColdStart = (src_Format (drillSource d) = ''basebackup'')\<rparr>"

text \<open>The query engine after a good restore, and whether a database handle has to be closed. The \<open>Verifier\<close> is mongodb.\<close>

definition drill_engine ::
  "'w Env \<Rightarrow> Driver \<Rightarrow> 'w Box \<Rightarrow> Source \<Rightarrow> restored \<Rightarrow> 'w \<Rightarrow> 'w Engine option res \<times> bool \<times> 'w" where
  "drill_engine env driver box src rr w =
     (case rr of (res, restoreErr) \<Rightarrow>
      if restoreErr \<noteq> None then (Inr None, False, w)
      else if driver = Mongodb then (Inr (Some (mongo_Engine box src)), False, w)
      else (case SQLDriver driver of
          None \<Rightarrow> (Inl (Msg ''driver %s supports no verification path'' [AStr (Name driver)]), False, w)
        | Some sqlDriver \<Rightarrow>
           (let dsn = (case res of None \<Rightarrow> DSN driver box | Some r \<Rightarrow> if rr_DSN r \<noteq> [] then rr_DSN r else DSN driver box)
            in case nv_sqlOpen env sqlDriver dsn w of
                 (Inl err, w1) \<Rightarrow> (Inl (Msg ''connecting to sandbox: %w'' [AErr err]), False, w1)
               | (Inr db, w1) \<Rightarrow> (Inr (NewSQL (Some db) (Some (ChecksumQuery driver))), True, w1))))"

definition check_lines :: "Options \<Rightarrow> Result list \<Rightarrow> line list" where
  "check_lines opts rs = say opts (map (\<lambda>r.
     LStep (Msg ''verify   %s  (%s)'' [AStr (vr_Name r), AErr (vr_Detail r)])
       (Msg (if vr_Skipped r then ''SKIP'' else if \<not> vr_Passed r then ''FAIL'' else ''PASS'') []) (vr_Passed r \<or> vr_Skipped r)) rs)"

definition restore_line :: "Options \<Rightarrow> Backup \<Rightarrow> restored \<Rightarrow> line list" where
  "restore_line opts b rr =
     (let label = bk_ResolvedURI b @ (if Layers b \<noteq> [] then '' ('' @ Layers b @ '')'' else []) in
      case rr of
        (_, Some _) \<Rightarrow> say opts [LStep (Msg ''restore  %s'' [AStr label]) (Msg ''FAIL'' []) False]
      | (Some r, None) \<Rightarrow> say opts [LStep (Msg ''restore  %s'' [AStr label]) (Msg ''ok   %s'' [ADur (dur_Round (rr_Duration r) Second)]) True]
      | (None, None) \<Rightarrow> [])"

text \<open>From the restore on, with the sandbox up: steps 3 and 4, the explicit teardown, \<open>finalize\<close>, then the deferred calls in reverse order: closing the
  database, and the teardown again, which sets the flag of the evidence once more.\<close>

definition drill_restored ::
  "'w Env \<Rightarrow> 'w Runtime \<Rightarrow> Drill \<Rightarrow> Options \<Rightarrow> Driver \<Rightarrow> Backup \<Rightarrow> duration \<Rightarrow> Evidence \<Rightarrow> AnySandbox \<Rightarrow> restored \<Rightarrow> OS \<Rightarrow> 'w \<Rightarrow> 'w ran" where
  "drill_restored env ctx d opts driver b age e0 sb rr s w =
     (let box = any_box (nv_docker env ctx) (nv_kube env ctx) sb;
          td = drill_teardown ''sandbox'' (sb_Destroy env) any_WasDestroyed opts;
          dur = (case fst rr of None \<Rightarrow> 0 | Some r \<Rightarrow> rr_Duration r);
          e1 = (case fst rr of None \<Rightarrow> e0 | Some r \<Rightarrow> set_Restore (rr_Duration r) e0);
          l0 = restore_line opts b rr
      in case drill_engine env driver box (drillSource d) rr w of
           (Inl err, _, w1) \<Rightarrow> (case td sb w1 of (_, l1, _, w2) \<Rightarrow> ((None, [], Some err), l0 @ l1, s, w2))
         | (Inr eng, opened, w1) \<Rightarrow>
        (case Run ctx eng (sp_Verify (dr_Spec d)) \<lparr>dc_RestoreErr = snd rr, dc_BackupAge = age, dc_RTO = obj_RTO (sp_Objectives (dr_Spec d)),
               dc_K8s = None, dc_Namespace = []\<rparr> w1 of (checks, w2) \<Rightarrow>
        (case watchdog env (sb_Destroy env) sb w2 of (sb1, w3) \<Rightarrow>
        (case td sb1 w3 of (destroyed, l1, sb2, w4) \<Rightarrow>
        (case finalize env ctx d opts (set_Destroyed destroyed (e1\<lparr>ev_Checks := checks\<rparr>)) (snd rr) dur age s w4 of
           ((e, path, err), l2, s1, w5) \<Rightarrow>
        (case td sb2 (if opened then nv_sqlClose env w5 else w5) of (destroyed', l3, _, w6) \<Rightarrow>
         ((Some (set_Destroyed destroyed' e), path, err), l0 @ check_lines opts checks @ l1 @ l2 @ l3, s1, w6)))))))"

definition drill_sandboxed ::
  "'w Env \<Rightarrow> 'w Runtime \<Rightarrow> Drill \<Rightarrow> Options \<Rightarrow> Driver \<Rightarrow> Backup \<Rightarrow> duration \<Rightarrow> Evidence \<Rightarrow> OS \<Rightarrow> 'w \<Rightarrow> 'w ran option" where
  "drill_sandboxed env ctx d opts driver b age e s w =
     (let provider = sbx_Provider (sp_Sandbox (dr_Spec d)) in
      case drill_Provision env ctx provider (drill_config d driver) w of
        (Inl err, w1) \<Rightarrow> Some ((None, [], Some (Msg ''provisioning sandbox: %w'' [AErr err])), [], s, w1)
      | (Inr sb, w1) \<Rightarrow>
        (let l0 = say opts [LStep (Msg ''provision sandbox  %s %s'' [AStr provider, AStr (sbx_Image (sp_Sandbox (dr_Spec d)))])
               (Msg ''ok   %.1fs'' [ADur (time_Sub (rt_Now ctx w1) (rt_Now ctx w))]) True];
             ctx2 = with_timeout ctx (sbx_TTL (sp_Sandbox (dr_Spec d))) w1
         in case watchdog env (sb_Destroy env) sb w1 of (sb1, w2) \<Rightarrow>
           (case Restore driver ctx2 (any_box (nv_docker env ctx2) (nv_kube env ctx2) sb1) (bk_Path b) (drillSource d) s w2 of
              None \<Rightarrow> None
            | Some (rr, s1, w3) \<Rightarrow>
                (case drill_restored env ctx2 d opts driver b age e sb1 rr s1 w3 of (r, ls, s2, w4) \<Rightarrow> Some (r, l0 @ ls, s2, w4)))))"

section \<open>Velero drills\<close>

definition velero_evidence :: "Drill \<Rightarrow> VeleroDrill \<Rightarrow> gotime \<Rightarrow> Evidence \<Rightarrow> Evidence" where
  "velero_evidence d vd now e =
     e\<lparr>ev_Backup := (ev_Backup e)\<lparr>
         eb_URI := ''velero://'' @ from_Backup (drillFrom d) @ '' (namespace '' @ from_Namespace (drillFrom d) @ '')'',
         eb_ModTime := now - ve_BackupAge vd, eb_Age := ve_BackupAge vd\<rparr>,
       ev_Sandbox := (ev_Sandbox e)\<lparr>es_Image := ''namespace:'' @ ve_TargetNS vd\<rparr>\<rparr>"

definition velero_restored ::
  "'w Env \<Rightarrow> 'w Runtime \<Rightarrow> Drill \<Rightarrow> Options \<Rightarrow> Evidence \<Rightarrow> VeleroDrill \<Rightarrow> duration option \<times> msg option \<Rightarrow> OS \<Rightarrow> 'w \<Rightarrow> 'w ran" where
  "velero_restored env ctx d opts e0 vd rr s w =
     (let td = drill_teardown ''namespace'' (velero_Destroy (nv_kube env (nv_rt env))) ve_destroyed opts;
          dur = (case fst rr of None \<Rightarrow> 0 | Some t \<Rightarrow> t);
          e1 = (case fst rr of None \<Rightarrow> e0 | Some t \<Rightarrow> set_Restore t e0);
          l0 = (case snd rr of
                  None \<Rightarrow> say opts [LStep (Msg ''restore  velero backup %s -> %s'' [AStr (from_Backup (drillFrom d)), AStr (ve_TargetNS vd)])
                    (Msg ''ok   %s'' [ADur (dur_Round dur Second)]) True]
                | Some _ \<Rightarrow> say opts [LStep (Msg ''restore  velero backup %s'' [AStr (from_Backup (drillFrom d))]) (Msg ''FAIL'' []) False])
      in case Run ctx None (sp_Verify (dr_Spec d)) \<lparr>dc_RestoreErr = snd rr, dc_BackupAge = ve_BackupAge vd,
               dc_RTO = obj_RTO (sp_Objectives (dr_Spec d)), dc_K8s = Some (nv_k8s env ctx), dc_Namespace = ve_TargetNS vd\<rparr> w of (checks, w2) \<Rightarrow>
        (case watchdog env (velero_Destroy (nv_kube env (nv_rt env))) vd w2 of (vd1, w3) \<Rightarrow>
        (case td vd1 w3 of (destroyed, l1, vd2, w4) \<Rightarrow>
        (case finalize env ctx d opts (set_Destroyed destroyed (e1\<lparr>ev_Checks := checks\<rparr>)) (snd rr) dur (ve_BackupAge vd) s w4 of
           ((e, path, err), l2, s1, w5) \<Rightarrow>
        (case td vd2 w5 of (destroyed', l3, _, w6) \<Rightarrow>
         ((Some (set_Destroyed destroyed' e), path, err), l0 @ check_lines opts checks @ l1 @ l2 @ l3, s1, w6))))))"

definition runVelero :: "'w Env \<Rightarrow> 'w Runtime \<Rightarrow> Drill \<Rightarrow> Options \<Rightarrow> Evidence \<Rightarrow> OS \<Rightarrow> 'w \<Rightarrow> 'w ran option" where
  "runVelero env ctx d opts e s w =
     (case Prepare ctx (nv_kube env ctx) (drillName d) (from_Backup (drillFrom d)) (from_Namespace (drillFrom d))
           (sbx_TTL (sp_Sandbox (dr_Spec d))) w of
        (Inl err, w1) \<Rightarrow> Some ((None, [], Some (Msg ''preparing velero drill: %w'' [AErr err])), [], s, w1)
      | (Inr vd, w1) \<Rightarrow>
        (let e1 = velero_evidence d vd (rt_Now ctx w1) e;
             l0 = say opts [LStep (Msg ''provision namespace  %s'' [AStr (ve_TargetNS vd)])
               (Msg ''ok   %.1fs'' [ADur (time_Sub (rt_Now ctx w1) (rt_Now ctx w))]) True];
             ctx2 = with_timeout ctx (sbx_TTL (sp_Sandbox (dr_Spec d))) w1
         in case watchdog env (velero_Destroy (nv_kube env (nv_rt env))) vd w1 of (vd1, w2) \<Rightarrow>
           (case velero_Restore ctx2 (nv_kube env ctx2) vd1 w2 of
              None \<Rightarrow> None
            | Some (rr, vd2, w3) \<Rightarrow>
                (case velero_restored env ctx2 d opts e1 vd2 rr s w3 of (r, ls, s1, w4) \<Rightarrow> Some (r, l0 @ ls, s1, w4)))))"

section \<open>Run and RunAll\<close>

definition drill_Run :: "'w Env \<Rightarrow> 'w Runtime \<Rightarrow> Drill \<Rightarrow> Options \<Rightarrow> OS \<Rightarrow> 'w \<Rightarrow> 'w ran option" where
  "drill_Run env ctx0 d opts s w =
     (let e = start_evidence opts d (rt_Now ctx0 w);
          ctx = with_timeout ctx0 (i64 (sbx_TTL (sp_Sandbox (dr_Spec d)) + 30 * Minute)) w
      in if src_Driver (drillSource d) = ''velero'' then runVelero env ctx d opts e s w
         else (case Get the_registry (src_Driver (drillSource d)) of
           Inl err \<Rightarrow> Some ((None, [], Some (Msg ''%w (available: %s)'' [AErr err, AStrs (Names the_registry)])), [], s, w)
         | Inr driver \<Rightarrow>
        (case Fetch (nv_cd env) (nv_s3 env ctx w) (drillFrom d) s of
           (Inl err, s1) \<Rightarrow> Some ((None, [], Some (Msg ''fetching backup: %w'' [AErr err])), [], s1, w)
         | (Inr b, s1) \<Rightarrow>
            (let age = time_Sub (rt_Now ctx w) (bk_ModTime b) in
             case drill_sandboxed env ctx d opts driver b age (backup_evidence d b age e) s1 w of
               None \<Rightarrow> None
             | Some (r, ls, s2, w2) \<Rightarrow> Some (r, ls, snd (Cleanup (Some b) s2), w2)))))"

fun run_all :: "'w Env \<Rightarrow> 'w Runtime \<Rightarrow> bool \<Rightarrow> Options \<Rightarrow> Drill list \<Rightarrow> OS \<Rightarrow> 'w \<Rightarrow> (Outcome list \<times> line list \<times> OS \<times> 'w) option" where
  "run_all env ctx many opts [] s w = Some ([], [], s, w)"
| "run_all env ctx many opts (d # ds) s w =
     (case drill_Run env ctx d opts s w of
        None \<Rightarrow> None
      | Some ((e, path, err), ls, s1, w1) \<Rightarrow>
         (case run_all env ctx many opts ds s1 w1 of
            None \<Rightarrow> None
          | Some (ocs, ls', s2, w2) \<Rightarrow>
              Some (\<lparr>oc_Drill = drillName d, oc_Evidence = e, oc_EvidencePath = path, oc_Err = err\<rparr> # ocs,
                (if many then say opts [LInfo (Msg ''-- drill %s --'' [AStr (drillName d)])] else []) @ ls @ ls', s2, w2)))"

definition RunAll :: "'w Env \<Rightarrow> 'w Runtime \<Rightarrow> Drill list \<Rightarrow> Options \<Rightarrow> OS \<Rightarrow> 'w \<Rightarrow> (Outcome list \<times> line list \<times> OS \<times> 'w) option" where
  "RunAll env ctx drills opts s w = run_all env ctx (length drills > 1) opts drills s w"

section \<open>Teardown in a drill\<close>

context teardown
begin

definition fate_known :: "'s \<Rightarrow> bool" where
  "fate_known sb \<longleftrightarrow> (once sb \<longrightarrow> (was sb \<longleftrightarrow> err sb = None))"

lemma fate_destroy: "fate_known sb \<Longrightarrow> destroy sb w = (e, sb1, w1) \<Longrightarrow> once sb1 \<and> (was sb1 \<longleftrightarrow> e = None) \<and> fate_known sb1"
  by (cases "once sb") (auto simp: fate_known_def again dest: first)

lemma fate_watchdog: "fate_known sb \<Longrightarrow> watchdog env destroy sb w = (sb1, w1) \<Longrightarrow> fate_known sb1"
  by (cases "destroy sb w") (auto simp: watchdog_def dest: fate_destroy split: if_splits)

lemma teardown_again:
  "drill_teardown what destroy was opts sb w = (b, l, sb1, w1) \<Longrightarrow> drill_teardown what destroy was opts sb1 w2 = (b, l, sb1, w2)"
  using destroy_again by (fastforce simp: drill_teardown_def split: prod.splits)

lemma teardown_fate:
  "fate_known sb \<Longrightarrow> drill_teardown what destroy was opts sb w = (b, l, sb1, w1) \<Longrightarrow> \<exists>e. destroy sb w = (e, sb1, w1) \<and> (b \<longleftrightarrow> e = None)"
  by (auto simp: drill_teardown_def dest: fate_destroy split: prod.splits)

end

interpretation any: teardown "any_Destroy dk ku" any_once any_destroyErr any_WasDestroyed for dk ku
proof
  show "any_once sb1 \<and> any_destroyErr sb1 = e \<and> (any_WasDestroyed sb1 \<longleftrightarrow> e = None)"
    if new: "\<not> any_once sb" and call: "any_Destroy dk ku sb w = (e, sb1, w1)" for dk :: "'a Docker" and ku sb w e sb1 w1
  proof (cases sb)
    case (SbDocker x)
    then obtain x1 where "docker_Destroy dk x w = (e, x1, w1)" "sb1 = SbDocker x1" using call by (auto split: prod.splits)
    then show ?thesis using docker.first[of x dk w e x1 w1] new SbDocker by simp
  next
    case (SbKube x)
    then obtain x1 where "kube_Destroy ku x w = (e, x1, w1)" "sb1 = SbKube x1" using call by (auto split: prod.splits)
    then show ?thesis using kube.first[of x ku w e x1 w1] new SbKube by simp
  qed
  show "any_Destroy dk ku sb w = (any_destroyErr sb, sb, w)" if "any_once sb" for dk :: "'a Docker" and ku sb w
    using that by (cases sb) (simp_all add: docker.again kube.again)
qed

interpretation sbx: teardown "sb_Destroy env" any_once any_destroyErr any_WasDestroyed for env
  unfolding sb_Destroy_def by (rule any.teardown_axioms)

section \<open>The verdict is justified\<close>

definition check_proven :: "Result \<Rightarrow> bool" where
  "check_proven r \<longleftrightarrow> vr_Passed r \<and> \<not> vr_Skipped r"

definition verdict_of :: "Evidence \<Rightarrow> bool" where
  "verdict_of e \<longleftrightarrow> ev_Error e = None \<and> em_Restore (ev_Measured e) \<le> ev_ObjectiveRTO e \<and> eb_Age (ev_Backup e) \<le> ev_ObjectiveRPO e \<and>
     list_all check_proven (ev_Checks e) \<and> list_ex (\<lambda>r. dataCheckNames (vr_Name r)) (ev_Checks e)"

lemma verdict_loop_spec:
  "verdict_loop rs v p = (v \<and> list_all check_proven rs, p \<or> list_ex (\<lambda>r. vr_Passed r \<and> dataCheckNames (vr_Name r)) rs)"
  by (induction rs arbitrary: v p) (auto simp: check_proven_def Let_def)

lemma list_all_ex: "list_all P xs \<Longrightarrow> (\<And>x. P x \<Longrightarrow> Q x) \<Longrightarrow> list_ex (\<lambda>x. Q x \<and> R x) xs = list_ex R xs"
  by (induction xs) auto

text \<open>What a drill has put into the evidence before \<open>finalize\<close>.\<close>

definition measured :: "Drill \<Rightarrow> duration \<Rightarrow> duration \<Rightarrow> Evidence \<Rightarrow> bool" where
  "measured d dur age e \<longleftrightarrow> ev_Drill e = drillName d \<and> ev_ObjectiveRTO e = obj_RTO (sp_Objectives (dr_Spec d)) \<and>
     ev_ObjectiveRPO e = obj_RPO (sp_Objectives (dr_Spec d)) \<and> em_Restore (ev_Measured e) = dur \<and> eb_Age (ev_Backup e) = age \<and> ev_Error e = None"

lemma judge_simps [simp]:
  "ev_Drill (judge d e r t a) = ev_Drill e" "ev_Sandbox (judge d e r t a) = ev_Sandbox e" "ev_Checks (judge d e r t a) = ev_Checks e"
  "ev_Backup (judge d e r t a) = ev_Backup e" "em_Restore (ev_Measured (judge d e r t a)) = em_Restore (ev_Measured e)"
  "ev_ObjectiveRTO (judge d e r t a) = ev_ObjectiveRTO e" "ev_ObjectiveRPO (judge d e r t a) = ev_ObjectiveRPO e"
  by (simp_all add: judge_def Let_def split: prod.splits option.splits)

lemma judge_verdict:
  assumes "measured d dur age e"
  shows "ev_Verified (judge d e r dur age) \<longleftrightarrow> verdict_of (judge d e r dur age)"
    and "ev_Error (judge d e r dur age) = r"
  using assms list_all_ex[of check_proven "ev_Checks e" vr_Passed "\<lambda>r. dataCheckNames (vr_Name r)"]
  by (auto simp: judge_def measured_def verdict_of_def verdict_loop_spec check_proven_def Let_def split: option.splits)

lemma finalize_evidence:
  "finalize env ctx d opts e0 r dur age s w = ((e, path, err), l, s1, w1) \<Longrightarrow> e = (judge d e0 r dur age)\<lparr>ev_FinishedAt := rt_Now ctx w\<rparr>"
  by (auto simp: finalize_def Let_def split: prod.splits sum.splits option.splits)

lemma verdict_of_finished [simp]: "verdict_of (e\<lparr>ev_FinishedAt := t\<rparr>) = verdict_of e"
  by (simp add: verdict_of_def)

lemma set_Destroyed_simps [simp]:
  "es_Destroyed (ev_Sandbox (set_Destroyed b e)) = b" "measured d t a (set_Destroyed b e) = measured d t a e"
  "ev_Checks (set_Destroyed b e) = ev_Checks e" "verdict_of (set_Destroyed b e) = verdict_of e" "ev_Verified (set_Destroyed b e) = ev_Verified e"
  by (simp_all add: set_Destroyed_def measured_def verdict_of_def)

lemma set_Destroyed_same: "es_Destroyed (ev_Sandbox e) = b \<Longrightarrow> set_Destroyed b e = e"
  by (cases e; cases "ev_Sandbox e") (auto simp: set_Destroyed_def)

lemma finalize_Destroyed:
  "finalize env ctx d opts (set_Destroyed b e0) r dur age s w = ((e, path, err), l, s1, w1) \<Longrightarrow> set_Destroyed b e = e"
  by (drule finalize_evidence) (simp add: set_Destroyed_same)

section \<open>The shape of a drill that has evidence\<close>

text \<open>\<open>torn_down env w e\<close>: a teardown call that reported \<open>e\<close> has just left the outside in state \<open>w\<close>. \<open>drill_final\<close>: the evidence, its path and the error
  of a drill are those of one call of \<open>finalize\<close>, made right after the teardown, on evidence that holds what was measured and whether that teardown
  succeeded; \<open>s1\<close> is the file system after it.\<close>

definition torn_down :: "'w Env \<Rightarrow> 'w \<Rightarrow> msg option \<Rightarrow> bool" where
  "torn_down env w e \<longleftrightarrow>
     (\<exists>sb sb1 w0. sb_Destroy env sb w0 = (e, sb1, w)) \<or> (\<exists>vd vd1 w0. velero_Destroy (nv_kube env (nv_rt env)) vd w0 = (e, vd1, w))"

definition drill_final ::
  "'w Env \<Rightarrow> Drill \<Rightarrow> Options \<Rightarrow> Evidence \<Rightarrow> string \<Rightarrow> msg option \<Rightarrow> OS \<Rightarrow> bool" where
  "drill_final env d opts e path err s1 \<longleftrightarrow> (\<exists>ctx e0 r dur age s w l w1 derr.
     finalize env ctx d opts e0 r dur age s w = ((e, path, err), l, s1, w1) \<and> measured d dur age e0 \<and>
     torn_down env w derr \<and> (es_Destroyed (ev_Sandbox e0) \<longleftrightarrow> derr = None))"

lemma measured_Restore: "measured d 0 a e \<Longrightarrow> measured d t a (set_Restore t e)"
  by (simp add: measured_def set_Restore_def)

lemma measured_Checks [simp]: "measured d t a (e\<lparr>ev_Checks := cs\<rparr>) = measured d t a e"
  by (simp add: measured_def)

lemma measured_option: "measured d 0 a e \<Longrightarrow> measured d (case x of None \<Rightarrow> 0 | Some r \<Rightarrow> f r) a (case x of None \<Rightarrow> e | Some r \<Rightarrow> set_Restore (f r) e)"
  by (auto simp: measured_Restore split: option.splits)


lemma docker_Provision_once: "docker_Provision ctx dk cfg w = (Inr sb, w1) \<Longrightarrow> \<not> db_once sb"
  by (auto simp: docker_Provision_def docker_create_def docker_boot_def Let_def split: prod.splits sum.splits option.splits list.splits if_splits)

lemma kube_Provision_once: "kube_Provision ctx ku cfg w = (Inr sb, w1) \<Longrightarrow> \<not> ks_once sb"
  by (auto simp: kube_Provision_def kube_boot_def kube_connect_def Let_def split: prod.splits sum.splits option.splits list.splits if_splits)

lemma Prepare_once: "Prepare ctx ku n b ns ttl w = (Inr vd, w1) \<Longrightarrow> \<not> ve_once vd"
  by (auto simp: Prepare_def Let_def split: prod.splits sum.splits option.splits if_splits)

lemma drill_Provision_once: "drill_Provision env ctx p cfg w = (Inr sb, w1) \<Longrightarrow> \<not> any_once sb"
  by (auto simp: drill_Provision_def map_prod_def dest: docker_Provision_once kube_Provision_once split: prod.splits if_splits)
    (metis docker_Provision_once kube_Provision_once sum.exhaust map_sum.simps sum.inject sum.distinct any_once.simps)+


lemma drill_restored_final:
  assumes "drill_restored env ctx d opts driver b age e0 sb rr s w = ((Some e, path, err), ls, s1, w1)"
    and "measured d 0 age e0" and "sbx.fate_known sb"
  shows "drill_final env d opts e path err s1"
proof -
  let ?td = "drill_teardown ''sandbox'' (sb_Destroy env) any_WasDestroyed opts"
  obtain eng opened wa where x1: "drill_engine env driver (any_box (nv_docker env ctx) (nv_kube env ctx) sb) (drillSource d) rr w = (eng, opened, wa)"
    by (metis prod.collapse)
  obtain en where en: "eng = Inr en" using assms(1) x1 by (cases eng) (auto simp: drill_restored_def Let_def split: prod.splits)
  define dc where "dc = \<lparr>dc_RestoreErr = snd rr, dc_BackupAge = age, dc_RTO = obj_RTO (sp_Objectives (dr_Spec d)),
      dc_K8s = None :: 'a K8s option, dc_Namespace = []\<rparr>"
  obtain checks wb where x2: "Run ctx en (sp_Verify (dr_Spec d)) dc wa = (checks, wb)" by fastforce
  obtain sb1 wc where x3: "watchdog env (sb_Destroy env) sb wb = (sb1, wc)" by fastforce
  obtain destroyed l1 sb2 wd where x4: "?td sb1 wc = (destroyed, l1, sb2, wd)" by (metis prod.collapse)
  define e1 where "e1 = set_Destroyed destroyed ((case fst rr of None \<Rightarrow> e0 | Some r \<Rightarrow> set_Restore (rr_Duration r) e0)\<lparr>ev_Checks := checks\<rparr>)"
  define dur where "dur = (case fst rr of None \<Rightarrow> 0 | Some r \<Rightarrow> rr_Duration r)"
  obtain e' path' err' l2 s1' we where x5: "finalize env ctx d opts e1 (snd rr) dur age s wd = ((e', path', err'), l2, s1', we)"
    by (metis prod.collapse)
  have "?td sb2 wx = (destroyed, l1, sb2, wx)" for wx by (rule sbx.teardown_again[OF x4])
  then have "set_Destroyed destroyed e' = e \<and> path' = path \<and> err' = err \<and> s1' = s1"
    using assms(1) unfolding drill_restored_def Let_def x1 prod.case en sum.case dc_def[symmetric] x2 x3 x4 e1_def[symmetric] dur_def[symmetric] x5
    by simp
  moreover have "set_Destroyed destroyed e' = e'" by (rule finalize_Destroyed[OF x5[unfolded e1_def]])
  ultimately have f: "finalize env ctx d opts e1 (snd rr) dur age s wd = ((e, path, err), l2, s1, we)" using x5 by simp
  have m: "measured d dur age e1" using measured_option[OF assms(2), where x = "fst rr" and f = rr_Duration] by (simp add: e1_def dur_def)
  obtain derr where "sb_Destroy env sb1 wc = (derr, sb2, wd)" "destroyed \<longleftrightarrow> derr = None"
    using sbx.teardown_fate[OF sbx.fate_watchdog[OF assms(3) x3] x4] by blast
  then have "torn_down env wd derr \<and> (es_Destroyed (ev_Sandbox e1) \<longleftrightarrow> derr = None)" by (auto simp: torn_down_def e1_def)
  then show ?thesis using f m unfolding drill_final_def by blast
qed


lemma velero_restored_final:
  assumes "velero_restored env ctx d opts e0 vd rr s w = ((Some e, path, err), ls, s1, w1)"
    and "measured d 0 (ve_BackupAge vd) e0" and "velero.fate_known vd"
  shows "drill_final env d opts e path err s1"
proof -
  let ?destroy = "velero_Destroy (nv_kube env (nv_rt env))"
  let ?td = "drill_teardown ''namespace'' ?destroy ve_destroyed opts"
  define dc where "dc = \<lparr>dc_RestoreErr = snd rr, dc_BackupAge = ve_BackupAge vd, dc_RTO = obj_RTO (sp_Objectives (dr_Spec d)),
      dc_K8s = Some (nv_k8s env ctx), dc_Namespace = ve_TargetNS vd\<rparr>"
  obtain checks wb where x2: "Run ctx None (sp_Verify (dr_Spec d)) dc w = (checks, wb)" by fastforce
  obtain vd1 wc where x3: "watchdog env ?destroy vd wb = (vd1, wc)" by fastforce
  obtain destroyed l1 vd2 wd where x4: "?td vd1 wc = (destroyed, l1, vd2, wd)" by (metis prod.collapse)
  define e1 where "e1 = set_Destroyed destroyed ((case fst rr of None \<Rightarrow> e0 | Some t \<Rightarrow> set_Restore t e0)\<lparr>ev_Checks := checks\<rparr>)"
  define dur where "dur = (case fst rr of None \<Rightarrow> 0 | Some t \<Rightarrow> t)"
  obtain e' path' err' l2 s1' we where x5: "finalize env ctx d opts e1 (snd rr) dur (ve_BackupAge vd) s wd = ((e', path', err'), l2, s1', we)"
    by (metis prod.collapse)
  have "?td vd2 wx = (destroyed, l1, vd2, wx)" for wx by (rule velero.teardown_again[OF x4])
  then have "set_Destroyed destroyed e' = e \<and> path' = path \<and> err' = err \<and> s1' = s1"
    using assms(1) unfolding velero_restored_def Let_def dc_def[symmetric] x2 prod.case x3 x4 e1_def[symmetric] dur_def[symmetric] x5 by simp
  moreover have "set_Destroyed destroyed e' = e'" by (rule finalize_Destroyed[OF x5[unfolded e1_def]])
  ultimately have f: "finalize env ctx d opts e1 (snd rr) dur (ve_BackupAge vd) s wd = ((e, path, err), l2, s1, we)" using x5 by simp
  have m: "measured d dur (ve_BackupAge vd) e1" using measured_option[OF assms(2), where x = "fst rr" and f = "\<lambda>t. t"] by (simp add: e1_def dur_def)
  obtain derr where "?destroy vd1 wc = (derr, vd2, wd)" "destroyed \<longleftrightarrow> derr = None"
    using velero.teardown_fate[OF velero.fate_watchdog[OF assms(3) x3] x4] by blast
  then have "torn_down env wd derr \<and> (es_Destroyed (ev_Sandbox e1) \<longleftrightarrow> derr = None)" by (auto simp: torn_down_def e1_def)
  then show ?thesis using f m unfolding drill_final_def by blast
qed

lemma velero_Restore_keeps:
  "velero_Restore ctx ku vd w = Some (rr, vd1, w1) \<Longrightarrow> ve_BackupAge vd1 = ve_BackupAge vd \<and> (velero.fate_known vd \<longrightarrow> velero.fate_known vd1)"
  by (auto simp: velero_Restore_def velero.fate_known_def Let_def split: prod.splits option.splits)

lemma velero_watchdog_age: "watchdog env (velero_Destroy ku) vd w = (vd1, w1) \<Longrightarrow> ve_BackupAge vd1 = ve_BackupAge vd"
  by (auto simp: watchdog_def velero_Destroy_def Let_def split: if_splits prod.splits)

lemma start_measured [simp]: "ev_Error (start_evidence opts d t) = None" "em_Restore (ev_Measured (start_evidence opts d t)) = 0"
  "ev_Drill (start_evidence opts d t) = drillName d" "ev_ObjectiveRTO (start_evidence opts d t) = obj_RTO (sp_Objectives (dr_Spec d))"
  "ev_ObjectiveRPO (start_evidence opts d t) = obj_RPO (sp_Objectives (dr_Spec d))"
  by (simp_all add: start_evidence_def)

lemma runVelero_final:
  assumes "runVelero env ctx d opts (start_evidence opts d t) s w = Some ((Some e, path, err), ls, s1, w1)"
  shows "drill_final env d opts e path err s1"
proof -
  obtain vd wa where x1: "Prepare ctx (nv_kube env ctx) (drillName d) (from_Backup (drillFrom d)) (from_Namespace (drillFrom d))
      (sbx_TTL (sp_Sandbox (dr_Spec d))) w = (Inr vd, wa)"
    using assms by (auto simp: runVelero_def split: prod.splits sum.splits)
  obtain vd1 wb where x2: "watchdog env (velero_Destroy (nv_kube env (nv_rt env))) vd wa = (vd1, wb)" by fastforce
  define ctx2 where "ctx2 = with_timeout ctx (sbx_TTL (sp_Sandbox (dr_Spec d))) wa"
  obtain rr vd2 wc where x3: "velero_Restore ctx2 (nv_kube env ctx2) vd1 wb = Some (rr, vd2, wc)"
    using assms unfolding runVelero_def Let_def x1 prod.case sum.case x2 ctx2_def[symmetric] by (auto split: option.splits)
  define e1 where "e1 = velero_evidence d vd (rt_Now ctx wa) (start_evidence opts d t)"
  have "velero.fate_known vd" using Prepare_once[OF x1] by (simp add: velero.fate_known_def)
  then have f: "velero.fate_known vd2" using velero.fate_watchdog[OF _ x2] velero_Restore_keeps[OF x3] by blast
  have m: "measured d 0 (ve_BackupAge vd2) e1"
    using velero_Restore_keeps[OF x3] velero_watchdog_age[OF x2] by (simp add: e1_def measured_def velero_evidence_def)
  obtain ls' w2 where r: "velero_restored env ctx2 d opts e1 vd2 rr s wc = ((Some e, path, err), ls', s1, w2)"
    using assms unfolding runVelero_def Let_def x1 prod.case sum.case x2 ctx2_def[symmetric] x3 option.case e1_def[symmetric] by (auto split: prod.splits)
  show ?thesis by (rule velero_restored_final[OF r m f])
qed

lemma drill_sandboxed_final:
  assumes "drill_sandboxed env ctx d opts driver b age (backup_evidence d b age (start_evidence opts d t)) s w =
      Some ((Some e, path, err), ls, s1, w1)"
  shows "drill_final env d opts e path err s1"
proof -
  obtain sb wa where x1: "drill_Provision env ctx (sbx_Provider (sp_Sandbox (dr_Spec d))) (drill_config d driver) w = (Inr sb, wa)"
    using assms by (auto simp: drill_sandboxed_def Let_def split: prod.splits sum.splits)
  obtain sb1 wb where x2: "watchdog env (sb_Destroy env) sb wa = (sb1, wb)" by fastforce
  define ctx2 where "ctx2 = with_timeout ctx (sbx_TTL (sp_Sandbox (dr_Spec d))) wa"
  obtain rr s' wc where x3:
    "Restore driver ctx2 (any_box (nv_docker env ctx2) (nv_kube env ctx2) sb1) (bk_Path b) (drillSource d) s wb = Some (rr, s', wc)"
    using assms unfolding drill_sandboxed_def Let_def x1 prod.case sum.case x2 ctx2_def[symmetric] by (auto split: option.splits)
  define e1 where "e1 = backup_evidence d b age (start_evidence opts d t)"
  have "sbx.fate_known sb" using drill_Provision_once[OF x1] by (simp add: sbx.fate_known_def)
  then have f: "sbx.fate_known sb1" using sbx.fate_watchdog[OF _ x2] by blast
  have m: "measured d 0 age e1" by (simp add: e1_def measured_def backup_evidence_def)
  obtain ls' w2 where r: "drill_restored env ctx2 d opts driver b age e1 sb1 rr s' wc = ((Some e, path, err), ls', s1, w2)"
    using assms unfolding drill_sandboxed_def Let_def x1 prod.case sum.case x2 ctx2_def[symmetric] x3 option.case e1_def[symmetric]
    by (auto split: prod.splits)
  show ?thesis by (rule drill_restored_final[OF r m f])
qed

text \<open>\<open>drill_cleaned\<close>: what remains to be done after \<open>finalize\<close> is at most removing the spooled copy of the backup.\<close>

definition drill_cleaned :: "'w Env \<Rightarrow> Drill \<Rightarrow> OS \<Rightarrow> OS \<Rightarrow> OS \<Rightarrow> bool" where
  "drill_cleaned env d s s1 t \<longleftrightarrow> t = s1 \<or> (\<exists>cli b s0. Fetch (nv_cd env) cli (drillFrom d) s = (Inr b, s0) \<and> t = snd (Cleanup (Some b) s1))"

lemma drill_Run_final:
  assumes "drill_Run env ctx d opts s w = Some ((Some e, path, err), ls, t, w1)"
  obtains s1 where "drill_final env d opts e path err s1" and "drill_cleaned env d s s1 t"
proof (cases "src_Driver (drillSource d) = ''velero''")
  case True
  then show ?thesis using assms runVelero_final that by (fastforce simp: drill_Run_def Let_def drill_cleaned_def)
next
  case False
  define ctx1 where "ctx1 = with_timeout ctx (i64 (sbx_TTL (sp_Sandbox (dr_Spec d)) + 30 * Minute)) w"
  obtain driver where g: "Get the_registry (src_Driver (drillSource d)) = Inr driver"
    using assms False by (auto simp: drill_Run_def Let_def split: sum.splits)
  obtain b s0 where f: "Fetch (nv_cd env) (nv_s3 env ctx1 w) (drillFrom d) s = (Inr b, s0)"
    using assms False unfolding drill_Run_def Let_def ctx1_def[symmetric] g sum.case
    by (cases "Fetch (nv_cd env) (nv_s3 env ctx1 w) (drillFrom d) s"; cases "fst (Fetch (nv_cd env) (nv_s3 env ctx1 w) (drillFrom d) s)") simp_all
  obtain s1 w2 where r: "drill_sandboxed env ctx1 d opts driver b (time_Sub (rt_Now ctx1 w) (bk_ModTime b))
      (backup_evidence d b (time_Sub (rt_Now ctx1 w) (bk_ModTime b)) (start_evidence opts d (rt_Now ctx w))) s0 w =
      Some ((Some e, path, err), ls, s1, w2)" and t: "t = snd (Cleanup (Some b) s1)"
    using assms False unfolding drill_Run_def Let_def ctx1_def[symmetric] g sum.case f prod.case by (auto split: option.splits)
  show ?thesis using that[OF drill_sandboxed_final[OF r]] f t unfolding drill_cleaned_def by blast
qed

text \<open>
  C1: the verdict is what the evidence says. Whatever drill ran and however it ended, evidence that comes back is marked verified exactly when it
  records no restore error, a restore within its RTO objective, a backup within its RPO objective, no failed and no skipped check, and at least one
  check that inspects restored data.
\<close>

theorem drill_verdict:
  assumes "drill_Run env ctx d opts s w = Some ((Some e, path, err), ls, t, w1)"
  shows "ev_Verified e \<longleftrightarrow> verdict_of e"
proof -
  obtain s1 where "drill_final env d opts e path err s1" by (rule drill_Run_final[OF assms])
  then obtain ctx' e0 r dur age s' w' l w'' where f: "finalize env ctx' d opts e0 r dur age s' w' = ((e, path, err), l, s1, w'')"
    and m: "measured d dur age e0" unfolding drill_final_def by blast
  show ?thesis using judge_verdict(1)[OF m, of r] unfolding finalize_evidence[OF f] by simp
qed

end
