(* ===== verification/FD_Lifetime.thy ===== *)
theory FD_Lifetime
  imports FD_Drill
begin

text \<open>
  What a drill leaves running: nothing. The documented behaviour of the Docker and Kubernetes APIs on what exists is a predicate on the records of
  their calls; the sandbox of either provider accounts for what exists beyond the state before the drill until its teardown has succeeded. The
  lemmas carry that account through provisioning, the restore, the checks, the watchdog, the teardown and the reports.
\<close>

section \<open>What exists in the cluster\<close>

text \<open>
  \<open>adds live r f\<close>: a create that succeeds made a new object; one that reports an error may still have reached the server.
  \<open>deletes live nf r f\<close>: a delete that succeeds, or says that there is no such object, leaves everything but the object.
\<close>

definition adds :: "('w \<Rightarrow> resource set) \<Rightarrow> resource \<Rightarrow> ('w \<Rightarrow> msg option \<times> 'w) \<Rightarrow> bool" where
  "adds live r f \<longleftrightarrow> (\<forall>w. case f w of
     (None, w1) \<Rightarrow> r \<notin> live w \<and> live w1 = insert r (live w)
   | (Some _, w1) \<Rightarrow> live w1 = live w \<or> live w1 = insert r (live w))"

definition deletes :: "('w \<Rightarrow> resource set) \<Rightarrow> (msg \<Rightarrow> bool) \<Rightarrow> resource \<Rightarrow> ('w \<Rightarrow> msg option \<times> 'w) \<Rightarrow> bool" where
  "deletes live nf r f \<longleftrightarrow> (\<forall>w. case f w of
     (None, w1) \<Rightarrow> live w1 = live w - {r}
   | (Some e, w1) \<Rightarrow> nf e \<longrightarrow> live w1 = live w - {r})"

lemma addsD:
  assumes "adds live r f" and "f w = (e, w1)"
  shows "live w1 = live w \<or> live w1 = insert r (live w)" "e = None \<Longrightarrow> r \<notin> live w \<and> live w1 = insert r (live w)"
  using assms(1)[unfolded adds_def, rule_format, of w] assms(2) by (auto split: option.splits)

lemma deletesD: "deletes live nf r f \<Longrightarrow> f w = (e, w1) \<Longrightarrow> (case e of None \<Rightarrow> True | Some x \<Rightarrow> nf x) \<Longrightarrow> live w1 = live w - {r}"
  unfolding deletes_def by (auto dest!: spec[of _ w] split: option.splits)

lemma keeps_mapD: "keeps live f \<Longrightarrow> map_prod g id (f w) = (x, w1) \<Longrightarrow> live w1 = live w"
  by (cases "f w") (auto dest: keepsD)

text \<open>\<open>pod_laws\<close>: \<open>live\<close> lists the pods, and only creating and deleting pods changes it.\<close>

definition pod_laws :: "('w \<Rightarrow> resource set) \<Rightarrow> 'w Runtime \<Rightarrow> 'w Kube \<Rightarrow> bool" where
  "pod_laws live rt api \<longleftrightarrow>
     keeps live (ku_InCluster api) \<and> keeps live (ku_Kubeconfig api) \<and> keeps live (ku_NewClient api) \<and> (\<forall>n. keeps live (ku_Rand api n)) \<and>
     (\<forall>n l a. keeps live (ku_CreateNamespace api n l a)) \<and> (\<forall>p. keeps live (ku_CreatePolicy api p)) \<and> (\<forall>n p. keeps live (ku_GetPod api n p)) \<and>
     (\<forall>n p c i. keeps live (ku_Executor api n p c i)) \<and> (\<forall>n p c i. keeps live (ku_Stream api n p c i)) \<and> keeps live (ku_RoundTripper api) \<and>
     (\<forall>n p q. keeps live (ku_NewForward api n p q)) \<and> (\<forall>n p q. keeps live (ku_Forward api n p q)) \<and> (\<forall>n p. keeps live (ku_GetPorts api n p)) \<and>
     (\<forall>d w. live (rt_Sleep rt d w) = live w) \<and>
     (\<forall>m. adds live (RPod (pm_Namespace m) (pm_Name m)) (ku_CreatePod api m)) \<and>
     (\<forall>n p. deletes live (ku_IsNotFound api) (RPod n p) (ku_DeletePod api n p))"

definition kube_removes :: "'w Kube \<Rightarrow> bool" where
  "kube_removes api \<longleftrightarrow> (\<forall>n p w. case fst (ku_DeletePod api n p w) of None \<Rightarrow> True | Some e \<Rightarrow> ku_IsNotFound api e)"

definition pod_of :: "KubeSandbox \<Rightarrow> resource" where
  "pod_of sb = RPod (ks_namespace sb) (ks_podName sb)"

lemma kube_Exec_keeps: "pod_laws live rt api \<Longrightarrow> keeps live (kube_Exec api sb cmd inp)"
  unfolding keeps_def[of live "kube_Exec api sb cmd inp"] pod_laws_def
  by (auto simp: kube_Exec_def Let_def split: prod.splits option.splits) (metis keepsD)+

lemma kube_wait_keeps:
  assumes "pod_laws live rt api"
  shows "kube_wait rt api sb cmds deadline n w = Some (r, w1) \<Longrightarrow> live w1 = live w"
proof (induction n arbitrary: w)
  case (Suc n)
  have sl: "live (rt_Sleep rt d v) = live v" for d v using assms by (simp add: pod_laws_def)
  obtain g wa where g: "ku_GetPod api (ks_namespace sb) (ks_podName sb) w = (g, wa)" by fastforce
  obtain ok wb where p: "ready_pass (\<lambda>cmd. kube_Exec api sb cmd None) cmds wa = (ok, wb)" by fastforce
  have "live wa = live w" using assms g keepsD unfolding pod_laws_def by metis
  moreover have "live wb = live wa"
    using ready_pass_keeps[of live "\<lambda>cmd. kube_Exec api sb cmd None", OF kube_Exec_keeps[OF assms], of cmds wa] p by simp
  ultimately show ?case using Suc g p sl by (auto split: if_splits option.splits sum.splits bool.splits prod.splits)
qed simp

lemma kube_waitReady_keeps: "pod_laws live rt api \<Longrightarrow> kube_waitReady rt api sb cmds w = (r, w1) \<Longrightarrow> live w1 = live w"
  unfolding kube_waitReady_def by (auto split: option.splits dest: kube_wait_keeps)

lemma kube_connect_keeps:
  assumes "pod_laws live rt api" and "kube_connect api cfg sb w = (r, sb1, w1)"
  shows "live w1 = live w"
proof -
  note laws = assms(1)[unfolded pod_laws_def]
  have pf: "live w2 = live w" if "portForward api sb q w = (x, w2)" for q x w2
  proof -
    obtain e1 wa where x1: "ku_RoundTripper api w = (e1, wa)" by fastforce
    obtain e2 wb where x2: "ku_NewForward api (ks_namespace sb) (ks_podName sb) q wa = (e2, wb)" by fastforce
    obtain e3 wc where x3: "ku_Forward api (ks_namespace sb) (ks_podName sb) q wb = (e3, wc)" by fastforce
    obtain e4 wd where x4: "ku_GetPorts api (ks_namespace sb) (ks_podName sb) wc = (e4, wd)" by fastforce
    have "live wa = live w" "live wb = live wa" "live wc = live wb" "live wd = live wc" using laws x1 x2 x3 x4 keepsD by metis+
    then show ?thesis using that x1 x2 x3 x4
      by (auto simp: portForward_def Let_def split: option.splits sum.splits list.splits Forwarding.splits)
  qed
  obtain g wa where g: "ku_GetPod api (ks_namespace sb) (ks_podName sb) w = (g, wa)" by fastforce
  then have "live wa = live w" using laws keepsD by metis
  then show ?thesis using assms(2) g pf by (auto simp: kube_connect_def split: if_splits sum.splits prod.splits)
qed

lemma kube_boot_live:
  assumes "pod_laws live rt api" and "kube_boot rt api cfg sb w = (r, sb1, w1)"
  shows "live w1 = live w \<or> live w1 = insert (pod_of sb) (live w)" "r = None \<Longrightarrow> pod_of sb \<notin> live w \<and> live w1 = insert (pod_of sb) (live w)"
proof -
  note laws = assms(1)[unfolded pod_laws_def]
  obtain e1 wa where x1: "ensureNamespace api (ks_namespace sb) w = (e1, wa)" by fastforce
  obtain e2 wb where x2: "EnsureDenyEgressPolicy api (ks_namespace sb) wa = (e2, wb)" by fastforce
  have kc: "keeps live (ku_CreateNamespace api n l a)" "keeps live (ku_CreatePolicy api p)" for n l a p using laws by simp_all
  have l: "live wa = live w" "live wb = live wa"
    using keeps_mapD[OF kc(1) x1[unfolded ensureNamespace_def]] keeps_mapD[OF kc(2) x2[unfolded EnsureDenyEgressPolicy_def]] by simp_all
  let ?pod = "pod_manifest rt cfg (ks_namespace sb) (ks_podName sb) (ks_password sb) wb"
  obtain e3 wc where x3: "ku_CreatePod api ?pod wb = (e3, wc)" by fastforce
  have "adds live (RPod (pm_Namespace ?pod) (pm_Name ?pod)) (ku_CreatePod api ?pod)" using laws by blast
  then have a: "adds live (pod_of sb) (ku_CreatePod api ?pod)" by (simp add: pod_of_def pod_manifest_def)
  define cmds where "cmds = (if cf_ColdStart cfg then [] else ReadyCmds (cf_Driver cfg) dbUser (ks_password sb) dbName)"
  obtain e4 wd where x4: "kube_waitReady rt api sb cmds wc = (e4, wd)" by fastforce
  obtain e5 sb5 we where x5: "kube_connect api cfg sb wd = (e5, sb5, we)" by (metis prod.collapse)
  have k: "live wd = live wc" "live we = live wd" using kube_waitReady_keeps[OF assms(1) x4] kube_connect_keeps[OF assms(1) x5] by simp_all
  note b = assms(2)[unfolded kube_boot_def Let_def x1 prod.case, folded cmds_def]
  show "live w1 = live w \<or> live w1 = insert (pod_of sb) (live w)"
    using b l k addsD(1)[OF a x3] x2 x3 x4 x5 by (auto split: option.splits)
  show "r = None \<Longrightarrow> pod_of sb \<notin> live w \<and> live w1 = insert (pod_of sb) (live w)"
    using b l k addsD(2)[OF a x3] x2 x3 x4 x5 by (auto split: option.splits)
qed

lemma kube_Destroy_live:
  assumes "pod_laws live rt api" and "\<not> ks_once sb" and "kube_Destroy api sb w = (None, sb1, w1)"
  shows "live w1 = live w - {pod_of sb}"
proof -
  obtain de wa where x: "ku_DeletePod api (ks_namespace sb) (ks_podName sb) w = (de, wa)" by fastforce
  have "deletes live (ku_IsNotFound api) (pod_of sb) (ku_DeletePod api (ks_namespace sb) (ks_podName sb))"
    using assms(1) by (simp add: pod_laws_def pod_of_def)
  from deletesD[OF this x] show ?thesis using assms(2,3) x by (auto simp: kube_Destroy_def Let_def split: option.splits if_splits)
qed

lemma kube_removes_Destroy: "kube_removes api \<Longrightarrow> \<not> ks_once sb \<Longrightarrow> \<exists>sb1 w1. kube_Destroy api sb w = (None, sb1, w1)"
proof -
  assume r: "kube_removes api" and o: "\<not> ks_once sb"
  obtain de wa where x: "ku_DeletePod api (ks_namespace sb) (ks_podName sb) w = (de, wa)" by fastforce
  have "case de of None \<Rightarrow> True | Some e \<Rightarrow> ku_IsNotFound api e" using r x unfolding kube_removes_def by (metis fst_conv)
  then show ?thesis using o x by (auto simp: kube_Destroy_def Let_def split: option.splits)
qed

text \<open>The stages of a provision. A pod name that is already taken makes the create fail, and the cleanup then deletes by that name.\<close>

lemma kube_Provision_live:
  assumes "pod_laws live rt api" and "kube_Provision rt api cfg w = (res, w1)"
  shows "(\<exists>e. res = Inl e \<and> live w1 = live w) \<or>
    (\<exists>e s w0. res = Inl e \<and> \<not> ks_once s \<and> live w0 \<subseteq> insert (pod_of s) (live w) \<and> w1 = snd (snd (kube_Destroy api s w0))) \<or>
    (\<exists>s. res = Inr s \<and> \<not> ks_once s \<and> pod_of s \<notin> live w \<and> live w1 = insert (pod_of s) (live w))"
proof -
  note laws = assms(1)[unfolded pod_laws_def]
  have lc: "live w' = live w" if "LoadConfig api w = (x, w')" for x w'
    using that laws by (auto simp: LoadConfig_def split: prod.splits bool.splits option.splits) (metis keepsD)+
  obtain ic wa where x1: "LoadConfig api w = (ic, wa)" by fastforce
  obtain e2 wb where x2: "ku_NewClient api wa = (e2, wb)" by fastforce
  obtain pw wc where x3: "kube_randomHex api 16 wb = (pw, wc)" by fastforce
  obtain sfx wd where x4: "kube_randomHex api 4 wc = (sfx, wd)" by fastforce
  have rnd: "keeps live (kube_randomHex api n)" for n using laws by (auto simp: kube_randomHex_def keeps_def)
  have l: "live wa = live w" "live wb = live w" "live wd = live w"
    using lc[OF x1] laws x2 keepsD[OF rnd x3] keepsD[OF rnd x4] keepsD[of live "ku_NewClient api" wa e2 wb] by auto
  note P = assms(2)[unfolded kube_Provision_def Let_def x1 prod.case]
  show ?thesis
  proof (cases ic)
    case (Inl e)
    then show ?thesis using P l by auto
  next
    case (Inr inC)
    show ?thesis
    proof (cases e2)
      case (Some e)
      then show ?thesis using P Inr x2 l by auto
    next
      case None
      define s0 where "s0 = \<lparr>ks_namespace = if cf_Namespace cfg = [] then ''firedrill'' else cf_Namespace cfg,
        ks_podName = ''firedrill-'' @ sanitize (cf_Name cfg) @ ''-'' @ sfx, ks_password = pw,
        ks_inCluster = inC, ks_host = [], ks_hostPort = [], ks_pfStop = False, ks_once = False, ks_destroyErr = None,
        ks_watchdog = False, ks_destroyed = False\<rparr>"
      obtain r s1 we where b: "kube_boot rt api cfg s0 wd = (r, s1, we)" by (metis prod.collapse)
      have Q: "(case r of Some e \<Rightarrow> (Inl e, snd (snd (kube_Destroy api s1 we))) | None \<Rightarrow> (Inr (s1\<lparr>ks_watchdog := True\<rparr>), we)) = (res, w1)"
        using P Inr None x2 x3 x4 b unfolding s0_def by (auto split: option.splits)
      have n: "pod_of s1 = pod_of s0" "\<not> ks_once s1" using kube_boot_names[OF b] by (simp_all add: pod_of_def s0_def)
      show ?thesis
      proof (cases r)
        case (Some e)
        have "live we \<subseteq> insert (pod_of s1) (live w)" using kube_boot_live(1)[OF assms(1) b] n(1) l(3) by auto
        then show ?thesis using Q Some n(2) by auto
      next
        case None
        then show ?thesis using Q n kube_boot_live(2)[OF assms(1) b] l(3) by (auto simp: pod_of_def)
      qed
    qed
  qed
qed

section \<open>What the other calls keep\<close>

text \<open>Commands run in a sandbox, queries, notifications and waiting create and remove nothing.\<close>

definition box_keeps :: "('w \<Rightarrow> resource set) \<Rightarrow> 'w Box \<Rightarrow> bool" where
  "box_keeps live sb \<longleftrightarrow> (\<forall>cmd inp. keeps live (bx_Exec sb cmd inp))"

definition db_keeps :: "('w \<Rightarrow> resource set) \<Rightarrow> 'w DB \<Rightarrow> bool" where
  "db_keeps live db \<longleftrightarrow> (\<forall>q. keeps live (db_ScanInt db q)) \<and> (\<forall>q. keeps live (db_ScanString db q)) \<and> (\<forall>q. keeps live (db_Query db q))"

definition eng_keeps :: "('w \<Rightarrow> resource set) \<Rightarrow> 'w Engine \<Rightarrow> bool" where
  "eng_keeps live e \<longleftrightarrow> (\<forall>q. keeps live (eng_Count e q)) \<and> (\<forall>q. keeps live (eng_Rows e q)) \<and> (\<forall>q. keeps live (eng_Scalar e q)) \<and>
     (\<forall>t c. keeps live (eng_Checksum e t c))"

definition outside_keeps :: "('w \<Rightarrow> resource set) \<Rightarrow> 'w Env \<Rightarrow> bool" where
  "outside_keeps live env \<longleftrightarrow>
     (\<forall>a b w. live (snd (nv_sqlOpen env a b w)) = live w \<and> (\<forall>db. fst (nv_sqlOpen env a b w) = Inr db \<longrightarrow> db_keeps live db)) \<and>
     (\<forall>w. live (nv_sqlClose env w) = live w) \<and> (\<forall>ctx r. keeps live (ht_Do (nv_http env ctx) r)) \<and>
     (\<forall>u j g. keeps live (pm_Push (nv_prom env) u j g))"

lemma wait_cluster_keeps:
  assumes "box_keeps live sb" and "\<And>d w. live (rt_Sleep rt d w) = live w"
  shows "wait_cluster rt sb db start deadline fuel w = Some (r, w1) \<Longrightarrow> live w1 = live w"
proof (induction fuel arbitrary: w)
  case (Suc n)
  note k = keepsD[OF assms(1)[unfolded box_keeps_def, rule_format]]
  obtain x1 wa where l: "bx_Exec sb log_cmd None w = (x1, wa)" by fastforce
  obtain c o' e wb where p: "bx_Exec sb (probe_cmd db) None w = ((c, o', e), wb)" by (metis prod.collapse)
  obtain c2 o2 e2 wc where g: "bx_Exec sb grep_cmd None wb = ((c2, o2, e2), wc)" by (metis prod.collapse)
  have "live wa = live w" "live wb = live w" "live wc = live w" using k[OF l] k[OF p] k[OF g] by simp_all
  then show ?case using Suc assms(2) l p g
    by (auto simp: basebackup_fail_def Let_def split: if_splits option.splits prod.splits)
qed simp

lemma run_restore_keeps: "box_keeps live sb \<Longrightarrow> run_restore rt sb cmd data fmt w = (r, w1) \<Longrightarrow> live w1 = live w"
  by (auto simp: run_restore_def box_keeps_def Let_def split: prod.splits option.splits if_splits dest!: keepsD)

lemma Restore_keeps:
  assumes "box_keeps live sb" and "\<And>d w. live (rt_Sleep rt d w) = live w" and "Restore driver rt sb path src s w = Some (r, s1, w1)"
  shows "live w1 = live w"
proof -
  note k = keepsD[OF assms(1)[unfolded box_keeps_def, rule_format]]
  have b: "live w1 = live w" if "restoreBasebackup rt sb path src s w = Some (r, s1, w1)"
    using that wait_cluster_keeps[of live, OF assms(1,2)]
    by (auto simp: restoreBasebackup_def basebackup_fail_def Let_def split: prod.splits sum.splits option.splits if_splits dest!: k)
  show ?thesis
    using assms(3) b by (cases driver)
      (auto simp: preflight_def split: prod.splits sum.splits option.splits if_splits dest!: k run_restore_keeps[OF assms(1)])
qed

lemma mongo_keeps:
  assumes "box_keeps live sb" shows "eng_keeps live (mongo_Engine sb src)"
proof -
  have x: "live (snd (bx_Exec sb cmd inp w)) = live w" for cmd inp w using assms by (simp add: box_keeps_def keeps_def)
  have e: "live (snd (mongo_eval sb db sc w)) = live w" for db sc w
    using x[of _ None w] by (simp add: mongo_eval_def Let_def split_beta)
  have "keeps live (mongo_Count sb db q)" "keeps live (mongo_Rows sb db q)" "keeps live (mongo_Scalar sb db q)" "keeps live (mongo_Checksum sb db t q)" for db q t
    using e x by (auto simp: keeps_def mongo_Count_def mongo_Rows_def mongo_Scalar_def mongo_Checksum_def split_beta split: sum.splits option.splits)
  then show ?thesis by (simp add: eng_keeps_def mongo_Engine_def Let_def)
qed

lemma sql_keeps: "db_keeps live db \<Longrightarrow> NewSQL (Some db) cq = Some e \<Longrightarrow> eng_keeps live e"
  unfolding eng_keeps_def db_keeps_def keeps_def NewSQL_def Let_def
  by (auto simp: sql_Count_def sql_Rows_def sql_Scalar_def sql_Checksum_def split: prod.splits sum.splits option.splits)
    (metis snd_conv)+

lemma eng_check_keeps:
  assumes "eng_keeps live e"
  shows "live (snd (rowCount e rc w)) = live w" "live (snd (checksum e cc w)) = live w" "live (snd (smoke e sc w)) = live w" "live (snd (canary e cn w)) = live w"
proof -
  have k: "keeps live (eng_Count e q)" "keeps live (eng_Rows e q)" "keeps live (eng_Scalar e q)" "keeps live (eng_Checksum e t c)" for q t c
    using assms by (simp_all add: eng_keeps_def)
  show "live (snd (rowCount e rc w)) = live w"
    by (auto simp: rowCount_def split: prod.splits sum.splits dest!: keepsD[OF k(1)])
  show "live (snd (checksum e cc w)) = live w"
    by (auto simp: checksum_def split: prod.splits sum.splits dest!: keepsD[OF k(4)])
  show "live (snd (smoke e sc w)) = live w"
    by (auto simp: smoke_def Let_def split: prod.splits sum.splits dest!: keepsD[OF k(2)])
  show "live (snd (canary e cn w)) = live w"
    by (auto simp: canary_def split: prod.splits sum.splits dest!: keepsD[OF k(3)])
qed

definition k8s_keeps :: "('w \<Rightarrow> resource set) \<Rightarrow> 'w K8s \<Rightarrow> bool" where
  "k8s_keeps live k \<longleftrightarrow> (\<forall>ns. keeps live (k8s_Pods k ns)) \<and> (\<forall>q ns. keeps live (k8s_Len k q ns))"

lemma podsReady_loop_keeps:
  assumes "k8s_keeps live k" and "\<And>d w. live (rt_Sleep rt d w) = live w"
  shows "podsReady_loop rt k ns c deadline fuel streak l w = Some (r, w1) \<Longrightarrow> live w1 = live w"
proof (induction fuel arbitrary: streak l w)
  case (Suc n)
  obtain ps wa where g: "k8s_Pods k ns w = (ps, wa)" by fastforce
  have "live wa = live w" using assms(1) g keepsD unfolding k8s_keeps_def by metis
  then show ?case using Suc g assms(2) by (auto simp: podsReady_loop.simps split: if_splits option.splits sum.splits)
qed (simp add: podsReady_loop.simps)

lemma k8s_check_keeps:
  assumes "\<And>k. cli = Some k \<Longrightarrow> k8s_keeps live k" and "\<And>d w. live (rt_Sleep rt d w) = live w"
  shows "live (snd (podsReady rt cli ns p w)) = live w" "live (snd (resourceCount cli ns q w)) = live w"
proof -
  show "live (snd (podsReady rt cli ns p w)) = live w"
    using podsReady_loop_keeps[of live _ rt, OF assms(1) assms(2)] by (auto simp: podsReady_def split: option.splits)
  have k: "live (snd (k8s_Len k x n w)) = live w" "live (snd (k8s_Pods k n w)) = live w" if "cli = Some k" for k x n
    using assms(1)[OF that] by (simp_all add: k8s_keeps_def keeps_def)
  have f: "snd (case r of (Inl e, v) \<Rightarrow> (a e, v) | (Inr m, v) \<Rightarrow> (b m, v)) = snd r" for r :: "'c res \<times> 'a" and a b
    by (auto split: prod.splits sum.splits)
  show "live (snd (resourceCount cli ns q w)) = live w"
    using k by (cases cli) (simp_all add: resourceCount_def Let_def f)
qed

lemma runOne_keeps:
  assumes "\<And>e. eng = Some e \<Longrightarrow> eng_keeps live e" and "\<And>k. dc_K8s dc = Some k \<Longrightarrow> k8s_keeps live k" and "\<And>d w. live (rt_Sleep rt d w) = live w"
  shows "live (snd (runOne rt eng c dc w)) = live w"
proof -
  have r: "live (snd (dataCheck dc n (requireEngine eng n run) w)) = live w"
    if "\<And>e w. eng = Some e \<Longrightarrow> live (snd (run e w)) = live w" for n run
    using that by (auto simp: dataCheck_def requireEngine_def split: option.splits)
  have k: "live (snd (dataCheck dc ''podsReady'' (podsReady rt (dc_K8s dc) ns p) w)) = live w"
    "live (snd (dataCheck dc ''resourceCount'' (resourceCount (dc_K8s dc) ns q) w)) = live w" for ns p q
    using k8s_check_keeps[of "dc_K8s dc" live rt, OF assms(2,3)] by (auto simp: dataCheck_def split: option.splits)
  note e = eng_check_keeps[OF assms(1)]
  have "live (snd (dataCheck dc ''rowCount'' (requireEngine eng ''rowCount'' (\<lambda>e. rowCount e a)) w)) = live w"
    "live (snd (dataCheck dc ''checksum'' (requireEngine eng ''checksum'' (\<lambda>e. checksum e b)) w)) = live w"
    "live (snd (dataCheck dc ''smoke'' (requireEngine eng ''smoke'' (\<lambda>e. smoke e x)) w)) = live w"
    "live (snd (dataCheck dc ''canary'' (requireEngine eng ''canary'' (\<lambda>e. canary e y)) w)) = live w" for a b x y
    by (rule r, rule e, assumption)+
  then show ?thesis using k unfolding runOne_def by (simp split: option.splits)
qed

lemma Run_keeps:
  assumes "\<And>e. eng = Some e \<Longrightarrow> eng_keeps live e" and "\<And>k. dc_K8s dc = Some k \<Longrightarrow> k8s_keeps live k" and "\<And>d w. live (rt_Sleep rt d w) = live w"
  shows "Run rt eng cs dc w = (rs, w1) \<Longrightarrow> live w1 = live w"
proof (induction cs arbitrary: w rs)
  case (Cons c cs)
  obtain r wa where x: "runOne rt eng c dc w = (r, wa)" by fastforce
  obtain rs' wb where y: "Run rt eng cs dc wa = (rs', wb)" by fastforce
  have "live wa = live w" using runOne_keeps[of eng live dc rt, OF assms, of c w] x by simp
  then show ?case using Cons x y by simp
qed simp

lemma drill_engine_keeps:
  assumes "outside_keeps live env" and "box_keeps live box" and "drill_engine env driver box src rr w = (x, op, w1)"
  shows "live w1 = live w \<and> (\<forall>e. x = Inr (Some e) \<longrightarrow> eng_keeps live e)"
proof -
  have k: "live w' = live w \<and> (\<forall>db. y = Inr db \<longrightarrow> db_keeps live db)" if "nv_sqlOpen env a b w = (y, w')" for a b y w'
    using assms(1) that unfolding outside_keeps_def by (metis fst_conv snd_conv)
  show ?thesis using assms(3) mongo_keeps[OF assms(2)]
    by (auto simp: drill_engine_def Let_def split: prod.splits if_splits option.splits sum.splits dest!: k intro: sql_keeps)
qed

lemma sink_keeps:
  assumes "outside_keeps live env"
  shows "live (snd (Slack (nv_http env ctx) e sink s w)) = live w" "live (snd (Webhook js (nv_http env ctx) e sink s w)) = live w"
    "live (snd (snd (export_one (nv_prom env) e sink s w))) = live w"
proof -
  have k: "keeps live (ht_Do (nv_http env ctx) r)" "keeps live (pm_Push (nv_prom env) u j g)" for ctx r u j g
    using assms by (auto simp: outside_keeps_def)
  show "live (snd (Slack (nv_http env ctx) e sink s w)) = live w" "live (snd (Webhook js (nv_http env ctx) e sink s w)) = live w"
    by (auto simp: Slack_def Webhook_def Let_def split: prod.splits sum.splits option.splits dest!: keepsD[OF k(1)])
  show "live (snd (snd (export_one (nv_prom env) e sink s w))) = live w"
    by (auto simp: export_one_def split: prod.splits dest!: keepsD[OF k(2)])
qed

lemma notify_loop_keeps:
  "outside_keeps live env \<Longrightarrow> notify_loop env ctx opts e s sinks w = (ls, ms, w1) \<Longrightarrow> live w1 = live w"
proof (induction sinks arbitrary: w ls ms)
  case (Cons sink sinks)
  obtain r wa where x: "Slack (nv_http env ctx) e sink s w = (r, wa)" by fastforce
  obtain r' wb where y: "Webhook (nv_js env) (nv_http env ctx) e sink s w = (r', wb)" by fastforce
  have "live wa = live w" "live wb = live w"
    using sink_keeps(1)[OF Cons.prems(1), of ctx e sink s w] sink_keeps(2)[OF Cons.prems(1), of "nv_js env" ctx e sink s w] x y by simp_all
  then show ?case using Cons x y by (auto split: prod.splits if_splits)
qed simp

lemma Export_keeps: "outside_keeps live env \<Longrightarrow> Export (nv_prom env) e sinks s w = (errs, s1, w1) \<Longrightarrow> live w1 = live w"
proof (induction sinks arbitrary: s w errs)
  case (Cons sink sinks)
  obtain r s2 w2 where x: "export_one (nv_prom env) e sink s w = (r, s2, w2)" by (metis prod.collapse)
  then have "live w2 = live w" using sink_keeps(3)[OF Cons.prems(1), of e sink s w] by simp
  then show ?case using x Cons by (auto split: prod.splits)
qed simp

lemma finalize_keeps:
  assumes "outside_keeps live env" and "finalize env ctx d opts e0 r dur age s w = (x, l, s1, w1)"
  shows "live w1 = live w"
proof -
  have "live w' = live w" if "drill_sinks env ctx opts e sinks s' w = (l', s'', w')" for e sinks s' l' s'' w'
    using that by (auto simp: drill_sinks_def split: prod.splits dest!: notify_loop_keeps[OF assms(1)] Export_keeps[OF assms(1)])
  then show ?thesis using assms(2) by (fastforce simp: finalize_def Let_def split: prod.splits sum.splits option.splits)
qed

section \<open>The account of a sandbox\<close>

fun any_kind :: "AnySandbox \<Rightarrow> string" where
  "any_kind (SbDocker sb) = ''docker''"
| "any_kind (SbKube sb) = ''kubernetes''"

fun any_resources :: "AnySandbox \<Rightarrow> resource set" where
  "any_resources (SbDocker sb) = sb_resources sb"
| "any_resources (SbKube sb) = {pod_of sb}"

text \<open>The API of the provider \<open>p\<close> behaves as documented (\<open>sandbox_laws\<close>) and its removals always work (\<open>sandbox_removes\<close>).\<close>

definition sandbox_laws :: "('w \<Rightarrow> resource set) \<Rightarrow> 'w Runtime \<Rightarrow> 'w Env \<Rightarrow> string \<Rightarrow> bool" where
  "sandbox_laws live rt env p \<longleftrightarrow> (\<forall>d w. live (rt_Sleep rt d w) = live w) \<and>
     (p = ''docker'' \<longrightarrow> (\<forall>c. docker_laws live rt (nv_docker env c))) \<and> (p = ''kubernetes'' \<longrightarrow> (\<forall>c. pod_laws live rt (nv_kube env c)))"

definition sandbox_removes :: "'w Env \<Rightarrow> string \<Rightarrow> bool" where
  "sandbox_removes env p \<longleftrightarrow>
     (p = ''docker'' \<longrightarrow> (\<forall>c. docker_removes (nv_docker env c))) \<and> (p = ''kubernetes'' \<longrightarrow> (\<forall>c. kube_removes (nv_kube env c)))"

lemma sb_Destroy_kind: "sb_Destroy env sb w = (e, sb1, w1) \<Longrightarrow> any_kind sb1 = any_kind sb"
  by (cases sb) (auto simp: sb_Destroy_def split: prod.splits)

lemma sb_Destroy_live:
  assumes "sandbox_laws live rt env (any_kind sb)" and "\<not> any_once sb" and "sb_Destroy env sb w = (None, sb1, w1)"
  shows "live w1 = live w - any_resources sb"
proof (cases sb)
  case (SbDocker x)
  then show ?thesis using assms docker_Destroy_live[of live rt "nv_docker env (nv_rt env)" x w]
    by (auto simp: sb_Destroy_def sandbox_laws_def split: prod.splits)
next
  case (SbKube x)
  then show ?thesis using assms kube_Destroy_live[of live rt "nv_kube env (nv_rt env)" x w]
    by (auto simp: sb_Destroy_def sandbox_laws_def split: prod.splits)
qed

lemma sb_Destroy_removes:
  assumes "sandbox_removes env (any_kind sb)" and "\<not> any_once sb" and "sb_Destroy env sb w = (e, sb1, w1)"
  shows "e = None"
proof (cases sb)
  case (SbDocker x)
  then show ?thesis using assms docker_removes_Destroy[of "nv_docker env (nv_rt env)" x w] by (auto simp: sb_Destroy_def sandbox_removes_def)
next
  case (SbKube x)
  then show ?thesis using assms kube_removes_Destroy[of "nv_kube env (nv_rt env)" x w] by (auto simp: sb_Destroy_def sandbox_removes_def)
qed

text \<open>The sandbox accounts for what exists beyond \<open>L\<close>: before its teardown its own resources, after a teardown without error nothing. With \<open>rm\<close>,
  removals always work and a teardown has no error.\<close>

definition any_live :: "('w \<Rightarrow> resource set) \<Rightarrow> resource set \<Rightarrow> bool \<Rightarrow> string \<Rightarrow> AnySandbox \<Rightarrow> 'w \<Rightarrow> bool" where
  "any_live live L rm p sb w \<longleftrightarrow> any_kind sb = p \<and>
     (\<not> any_once sb \<longrightarrow> live w = L \<union> any_resources sb \<and> any_resources sb \<inter> L = {}) \<and>
     (any_once sb \<and> any_destroyErr sb = None \<longrightarrow> live w = L) \<and> (rm \<and> any_once sb \<longrightarrow> any_destroyErr sb = None)"

lemma any_live_cong: "live w1 = live w \<Longrightarrow> any_live live L rm p sb w1 = any_live live L rm p sb w"
  by (simp add: any_live_def)

lemma any_live_Destroy:
  assumes "sandbox_laws live rt env p" and "rm \<longrightarrow> sandbox_removes env p" and "any_live live L rm p sb w" and "sb_Destroy env sb w = (e, sb1, w1)"
  shows "any_live live L rm p sb1 w1"
proof (cases "any_once sb")
  case True
  then show ?thesis using sbx.again[OF True, of env w] assms(3,4) by simp
next
  case False
  have k: "any_kind sb = p" "any_kind sb1 = p" using assms(3) sb_Destroy_kind[OF assms(4)] by (simp_all add: any_live_def)
  have "live w1 = L" if "e = None"
    using sb_Destroy_live[of live rt env sb w] assms(1,3,4) k False that by (auto simp: any_live_def)
  moreover have "e = None" if "rm" using sb_Destroy_removes[OF _ False assms(4)] assms(2) k that by simp
  ultimately show ?thesis using sbx.first[OF False assms(4)] k by (simp add: any_live_def)
qed

lemma any_live_watchdog:
  assumes "sandbox_laws live rt env p" and "rm \<longrightarrow> sandbox_removes env p"
    and "any_live live L rm p sb w" and "watchdog env (sb_Destroy env) sb w = (sb1, w1)"
  shows "any_live live L rm p sb1 w1"
  using assms(3,4) any_live_Destroy[OF assms(1,2,3)] by (cases "sb_Destroy env sb w") (auto simp: watchdog_def split: if_splits)

lemma any_live_end: "any_live live L rm p sb w \<Longrightarrow> any_once sb \<Longrightarrow> any_destroyErr sb = None \<or> rm \<Longrightarrow> live w = L"
  by (auto simp: any_live_def)

lemma any_live_box:
  assumes "sandbox_laws live rt env p" and "any_live live L rm p sb w"
  shows "box_keeps live (any_box (nv_docker env c) (nv_kube env c) sb)"
proof (cases sb)
  case (SbDocker x)
  then have "docker_laws live rt (nv_docker env c)" using assms by (auto simp: any_live_def sandbox_laws_def)
  then show ?thesis using SbDocker docker_Exec_keeps by (auto simp: box_keeps_def docker_box_def)
next
  case (SbKube x)
  then have "pod_laws live rt (nv_kube env c)" using assms by (auto simp: any_live_def sandbox_laws_def)
  then show ?thesis using SbKube kube_Exec_keeps by (auto simp: box_keeps_def kube_box_def)
qed

lemma drill_restored_live:
  assumes laws: "sandbox_laws live rt env p" and rm: "rm \<longrightarrow> sandbox_removes env p"
    and out: "outside_keeps live env" and sb: "any_live live L rm p sb w" "sbx.fate_known sb"
    and run: "drill_restored env ctx d opts driver b age e0 sb rr s w = ((r, path, err), ls, s1, w1)"
    and fate: "(\<exists>e. r = Some e \<and> es_Destroyed (ev_Sandbox e)) \<or> rm" and sl: "\<And>d w. live (rt_Sleep ctx d w) = live w"
  shows "live w1 = L"
proof -
  let ?td = "drill_teardown ''sandbox'' (sb_Destroy env) any_WasDestroyed opts"
  define box where "box = any_box (nv_docker env ctx) (nv_kube env ctx) sb"
  obtain eng opened wa where x1: "drill_engine env driver box (drillSource d) rr w = (eng, opened, wa)" by (metis prod.collapse)
  have k1: "live wa = live w" "\<And>e. eng = Inr (Some e) \<Longrightarrow> eng_keeps live e"
    using drill_engine_keeps[OF out _ x1] any_live_box[OF laws sb(1)] by (auto simp: box_def)
  have la: "any_live live L rm p sb wa" using sb(1) any_live_cong[of live wa w L rm p sb] k1(1) by simp
  show ?thesis
  proof (cases eng)
    case (Inl msg)
    obtain b' l1 sb1 wb where t: "?td sb wa = (b', l1, sb1, wb)" by (metis prod.collapse)
    have "r = None \<and> w1 = wb"
      using run unfolding drill_restored_def Let_def box_def[symmetric] x1 Inl prod.case sum.case t by simp
    moreover obtain derr where dt: "sb_Destroy env sb wa = (derr, sb1, wb)" using sbx.teardown_fate[OF sb(2) t] by blast
    ultimately show ?thesis
      using any_live_end[OF any_live_Destroy[OF laws rm la dt]] sbx.destroy_once[OF dt] fate by auto
  next
    case (Inr en)
    define dc where "dc = \<lparr>dc_RestoreErr = snd rr, dc_BackupAge = age, dc_RTO = obj_RTO (sp_Objectives (dr_Spec d)),
        dc_K8s = None :: 'a K8s option, dc_Namespace = []\<rparr>"
    obtain checks wb where x2: "Run ctx en (sp_Verify (dr_Spec d)) dc wa = (checks, wb)" by fastforce
    have "live wb = live wa" by (rule Run_keeps[OF _ _ _ x2]) (use k1 Inr sl in \<open>simp_all add: dc_def\<close>)
    then have lb: "any_live live L rm p sb wb" using la any_live_cong[of live wb wa L rm p sb] by simp
    obtain sb1 wc where x3: "watchdog env (sb_Destroy env) sb wb = (sb1, wc)" by fastforce
    have lc: "any_live live L rm p sb1 wc" by (rule any_live_watchdog[OF laws rm lb x3])
    obtain destroyed l1 sb2 wd where x4: "?td sb1 wc = (destroyed, l1, sb2, wd)" by (metis prod.collapse)
    obtain derr where dt: "sb_Destroy env sb1 wc = (derr, sb2, wd)" "destroyed \<longleftrightarrow> derr = None"
      using sbx.teardown_fate[OF sbx.fate_watchdog[OF sb(2) x3] x4] by blast
    define e1 where "e1 = set_Destroyed destroyed ((case fst rr of None \<Rightarrow> e0 | Some r \<Rightarrow> set_Restore (rr_Duration r) e0)\<lparr>ev_Checks := checks\<rparr>)"
    define dur where "dur = (case fst rr of None \<Rightarrow> 0 | Some r \<Rightarrow> rr_Duration r)"
    obtain y l2 s1' we where x5: "finalize env ctx d opts e1 (snd rr) dur age s wd = (y, l2, s1', we)" by (metis prod.collapse)
    have "?td sb2 wx = (destroyed, l1, sb2, wx)" for wx by (rule sbx.teardown_again[OF x4])
    then have R: "(\<exists>e. r = Some e \<and> es_Destroyed (ev_Sandbox e) = destroyed) \<and> w1 = (if opened then nv_sqlClose env we else we)"
      using run unfolding drill_restored_def Let_def box_def[symmetric] x1 Inr prod.case sum.case dc_def[symmetric] x2 x3 x4 e1_def[symmetric]
        dur_def[symmetric] x5 by (cases y) auto
    have "live w1 = live wd" using R finalize_keeps[OF out x5] out by (simp add: outside_keeps_def)
    moreover have "live wd = L"
      using any_live_end[OF any_live_Destroy[OF laws rm lc dt(1)]] sbx.destroy_once[OF dt(1)] dt(2) fate R by auto
    ultimately show ?thesis by simp
  qed
qed

lemma with_timeout_simps [simp]: "rt_Now (with_timeout ctx t w) = rt_Now ctx" "rt_Sleep (with_timeout ctx t w) = rt_Sleep ctx"
  by (simp_all add: with_timeout_def)

lemma sandbox_laws_timeout [simp]: "sandbox_laws live (with_timeout ctx t w) env p = sandbox_laws live ctx env p"
  by (simp add: sandbox_laws_def docker_laws_def pod_laws_def)

text \<open>Provisioning leaves a sandbox that accounts for what exists, or nothing new; with docker, not even less than before.\<close>

lemma docker_Provision_account:
  assumes "docker_laws live ctx api" and "rm \<longrightarrow> docker_removes api" and "docker_Provision ctx api cfg w = (res, w1)"
  shows "case res of Inl _ \<Rightarrow> rm \<longrightarrow> live w1 = live w | Inr sb \<Rightarrow> any_live live (live w) rm ''docker'' (SbDocker sb) w1"
  using docker_Provision_live[OF assms(1,3)]
proof (elim disjE exE conjE)
  fix e s w0
  assume c: "res = Inl e" "\<not> db_once s" "sb_resources s \<inter> live w = {}" "live w0 = live w \<union> sb_resources s" "w1 = snd (snd (docker_Destroy api s w0))"
  have "live w1 = live w" if r: "rm"
  proof -
    have dr: "docker_removes api" using assms(2) r by simp
    obtain s1 w2 where d: "docker_Destroy api s w0 = (None, s1, w2)" using docker_removes_Destroy[OF dr c(2)] by blast
    then show ?thesis using docker_Destroy_live[OF assms(1) c(2) d] c by auto
  qed
  then show ?thesis using c(1) by simp
qed (simp_all add: any_live_def)

lemma kube_Provision_account:
  assumes "pod_laws live ctx api" and "rm \<longrightarrow> kube_removes api" and "kube_Provision ctx api cfg w = (res, w1)"
  shows "case res of Inl _ \<Rightarrow> rm \<longrightarrow> live w1 \<subseteq> live w | Inr sb \<Rightarrow> any_live live (live w) rm ''kubernetes'' (SbKube sb) w1"
  using kube_Provision_live[OF assms(1,3)]
proof (elim disjE exE conjE)
  fix e s w0
  assume c: "res = Inl e" "\<not> ks_once s" "live w0 \<subseteq> insert (pod_of s) (live w)" "w1 = snd (snd (kube_Destroy api s w0))"
  have "live w1 \<subseteq> live w" if r: "rm"
  proof -
    have dr: "kube_removes api" using assms(2) r by simp
    obtain s1 w2 where d: "kube_Destroy api s w0 = (None, s1, w2)" using kube_removes_Destroy[OF dr c(2)] by blast
    then show ?thesis using kube_Destroy_live[OF assms(1) c(2) d] c by auto
  qed
  then show ?thesis using c(1) by simp
qed (simp_all add: any_live_def)

lemma drill_Provision_account:
  assumes "sandbox_laws live ctx env p" and "rm \<longrightarrow> sandbox_removes env p" and "drill_Provision env ctx p cfg w = (res, w1)"
  shows "case res of Inl _ \<Rightarrow> rm \<longrightarrow> live w1 \<subseteq> live w \<and> (p = ''docker'' \<longrightarrow> live w1 = live w) | Inr sb \<Rightarrow> any_live live (live w) rm p sb w1"
proof -
  obtain r2 w2 where x2: "docker_Provision ctx (nv_docker env ctx) cfg w = (r2, w2)" by fastforce
  obtain r3 w3 where x3: "kube_Provision ctx (nv_kube env ctx) cfg w = (r3, w3)" by fastforce
  consider "p = ''docker''" | "p = ''kubernetes''" | "p \<noteq> ''docker''" "p \<noteq> ''kubernetes''" by blast
  then show ?thesis
  proof cases
    case 1
    then have "docker_laws live ctx (nv_docker env ctx)" "rm \<longrightarrow> docker_removes (nv_docker env ctx)"
      using assms(1,2) by (simp_all add: sandbox_laws_def sandbox_removes_def)
    from docker_Provision_account[OF this x2] show ?thesis using assms(3) x2 1 by (auto simp: drill_Provision_def split: sum.splits)
  next
    case 2
    then have "pod_laws live ctx (nv_kube env ctx)" "rm \<longrightarrow> kube_removes (nv_kube env ctx)"
      using assms(1,2) by (simp_all add: sandbox_laws_def sandbox_removes_def)
    from kube_Provision_account[OF this x3] show ?thesis using assms(3) x3 2 by (auto simp: drill_Provision_def split: sum.splits)
  qed (use assms(3) in \<open>auto simp: drill_Provision_def\<close>)
qed

lemma drill_sandboxed_live:
  assumes laws: "sandbox_laws live ctx env p" and rm: "rm \<longrightarrow> sandbox_removes env p"
    and out: "outside_keeps live env" and p: "sbx_Provider (sp_Sandbox (dr_Spec d)) = p"
    and run: "drill_sandboxed env ctx d opts driver b age e s w = Some ((r, path, err), ls, s1, w1)"
    and fate: "(\<exists>e. r = Some e \<and> es_Destroyed (ev_Sandbox e)) \<or> rm"
  shows "live w1 \<subseteq> live w \<and> (r \<noteq> None \<or> p = ''docker'' \<longrightarrow> live w1 = live w)"
proof -
  obtain pr wa where x1: "drill_Provision env ctx p (drill_config d driver) w = (pr, wa)" by fastforce
  note acc = drill_Provision_account[OF laws rm x1]
  show ?thesis
  proof (cases pr)
    case (Inl msg)
    then show ?thesis using run x1 p acc fate by (auto simp: drill_sandboxed_def Let_def)
  next
    case (Inr x)
    have P: "drill_Provision env ctx p (drill_config d driver) w = (Inr x, wa)" using x1 Inr by simp
    obtain sb1 wb where x2: "watchdog env (sb_Destroy env) x wa = (sb1, wb)" by fastforce
    have l0: "any_live live (live w) rm p x wa" using acc Inr by simp
    have lb: "any_live live (live w) rm p sb1 wb" by (rule any_live_watchdog[OF laws rm l0 x2])
    have f0: "sbx.fate_known x" using drill_Provision_once[OF P] by (simp add: sbx.fate_known_def)
    have fk: "sbx.fate_known sb1" by (rule sbx.fate_watchdog[OF f0 x2])
    define ctx2 where "ctx2 = with_timeout ctx (sbx_TTL (sp_Sandbox (dr_Spec d))) wa"
    obtain rr s' wc where x3:
      "Restore driver ctx2 (any_box (nv_docker env ctx2) (nv_kube env ctx2) sb1) (bk_Path b) (drillSource d) s wb = Some (rr, s', wc)"
      using run unfolding drill_sandboxed_def Let_def p P prod.case sum.case x2 ctx2_def[symmetric] by (auto split: option.splits)
    have sl: "live (rt_Sleep ctx2 t v) = live v" for t v using laws by (simp add: ctx2_def sandbox_laws_def)
    have "live wc = live wb" by (rule Restore_keeps[OF any_live_box[OF laws lb] sl x3])
    then have lc: "any_live live (live w) rm p sb1 wc" using lb any_live_cong[of live wc wb "live w" rm p sb1] by simp
    obtain ls' where x4: "drill_restored env ctx2 d opts driver b age e sb1 rr s' wc = ((r, path, err), ls', s1, w1)"
      using run unfolding drill_sandboxed_def Let_def p P prod.case sum.case x2 ctx2_def[symmetric] x3 option.case by (auto split: prod.splits)
    have "live w1 = live w" by (rule drill_restored_live[OF laws rm out lc fk x4 fate sl])
    then show ?thesis by simp
  qed
qed

text \<open>
  C3: no sandbox outlives a drill. Let the API of the provider create and remove as documented and no other call touch what \<open>live\<close> lists: containers and
  networks, or pods. When a drill of an engine comes back, with whatever result, and either its evidence says that the sandbox was destroyed or
  removals always work, nothing exists that did not exist before it, whether or not the TTL watchdog fired on the way; and with evidence, or with docker
  in any case, nothing else is gone either. (A pod name that is already taken makes provisioning fail, and its cleanup deletes by that name.)
  Of Docker it is assumed that a create that reports an error has created nothing; a pod's create may reach the server all the same.
\<close>

theorem drill_leaves_nothing:
  assumes "src_Driver (drillSource d) \<noteq> ''velero''" and "sandbox_laws live ctx env (sbx_Provider (sp_Sandbox (dr_Spec d)))"
    and "outside_keeps live env" and "drill_Run env ctx d opts s w = Some ((r, path, err), ls, t, w1)"
    and "(\<exists>e. r = Some e \<and> es_Destroyed (ev_Sandbox e)) \<or> sandbox_removes env (sbx_Provider (sp_Sandbox (dr_Spec d)))"
  shows "live w1 \<subseteq> live w \<and> (r \<noteq> None \<or> sbx_Provider (sp_Sandbox (dr_Spec d)) = ''docker'' \<longrightarrow> live w1 = live w)"
proof -
  define p where "p = sbx_Provider (sp_Sandbox (dr_Spec d))"
  define rm where "rm \<longleftrightarrow> sandbox_removes env p"
  have rm: "rm \<longrightarrow> sandbox_removes env p" by (simp add: rm_def)
  define ctx1 where "ctx1 = with_timeout ctx (i64 (sbx_TTL (sp_Sandbox (dr_Spec d)) + 30 * Minute)) w"
  have laws: "sandbox_laws live ctx1 env p" using assms(2) by (simp add: ctx1_def p_def)
  show ?thesis
  proof (cases "Get the_registry (src_Driver (drillSource d))")
    case (Inl e)
    then show ?thesis using assms(1,4) by (simp add: drill_Run_def Let_def)
  next
    case (Inr driver)
    obtain fr s0 where f: "Fetch (nv_cd env) (nv_s3 env ctx1 w) (drillFrom d) s = (fr, s0)" by fastforce
    show ?thesis
    proof (cases fr)
      case (Inl e)
      then show ?thesis using assms(1,4) Inr f by (simp add: drill_Run_def Let_def ctx1_def)
    next
      case fr: (Inr b)
      define age where "age = time_Sub (rt_Now ctx1 w) (bk_ModTime b)"
      define e where "e = backup_evidence d b age (start_evidence opts d (rt_Now ctx w))"
      obtain s2 where run: "drill_sandboxed env ctx1 d opts driver b age e s0 w = Some ((r, path, err), ls, s2, w1)"
        using assms(1,4) unfolding drill_Run_def Let_def ctx1_def[symmetric] Inr sum.case f fr prod.case age_def[symmetric] e_def[symmetric]
        by (auto split: option.splits)
      show ?thesis using drill_sandboxed_live[OF laws rm assms(3) p_def[symmetric] run] assms(5) unfolding rm_def p_def by blast
    qed
  qed
qed

end
