(* ===== verification/FD_Guarantees.thy ===== *)
theory FD_Guarantees
  imports FD_Lifetime
begin

text \<open>
  What a drill guarantees to its operator, over the definitions of \<open>FD_Drill\<close>: the evidence on disk is the evidence returned, a signed drill verifies,
  every drill ends, and a fleet run has one outcome per drill. The theory
  \<open>FD_Demo\<close> evaluates a drill and shows that the assumptions hold together.
\<close>

section \<open>What a drill leaves on disk\<close>

text \<open>\<open>os_kept P s t\<close>: every file outside \<open>P\<close> that exists in \<open>s\<close> is the same in \<open>t\<close>, and the system is as healthy.\<close>

definition os_kept :: "string set \<Rightarrow> OS \<Rightarrow> OS \<Rightarrow> bool" where
  "os_kept P s t \<longleftrightarrow> (\<forall>p x m. p \<notin> P \<longrightarrow> os_fs s p = Some (File x m) \<longrightarrow> os_fs t p = Some (File x m)) \<and> (os_healthy s \<longrightarrow> os_healthy t)"

lemma os_keptD: "os_kept P s t \<Longrightarrow> os_fs s p = Some (File x m) \<Longrightarrow> p \<notin> P \<Longrightarrow> os_fs t p = Some (File x m)"
  by (simp add: os_kept_def)

lemma os_kept_frame: "os_frame P s t \<Longrightarrow> os_kept P s t"
  using os_frame_healthy by (auto simp: os_kept_def os_frame_fs)

lemma os_kept_refl [simp]: "os_kept P s s"
  by (simp add: os_kept_def)

lemma os_kept_trans: "os_kept P s t \<Longrightarrow> os_kept P t u \<Longrightarrow> os_kept P s u"
  by (simp add: os_kept_def)

lemma os_kept_mono: "os_kept P s t \<Longrightarrow> P \<subseteq> Q \<Longrightarrow> os_kept Q s t"
  by (auto simp: os_kept_def)

lemma os_kept_MkdirAll: "os_MkdirAll d s = (r, t) \<Longrightarrow> os_kept P s t"
  using os_MkdirAll_File[of d s r t] os_frame_healthy[OF os_MkdirAll_frame[of d s]] by (auto simp: os_kept_def)

lemma os_kept_bundle:
  "bundle_files js cr path priv data s \<Longrightarrow> os_kept P s t \<Longrightarrow> P \<inter> {path, path @ ''.sig'', path @ ''.intoto.jsonl''} = {} \<Longrightarrow>
   bundle_files js cr path priv data t"
  unfolding bundle_files_def os_kept_def by (elim exE) (intro exI conjI; blast)

definition prom_paths :: "string set" where
  "prom_paths = {p. suffix ''.prom'' p \<or> suffix ''.prom.tmp'' p}"

lemma prom_file_suffix: "CHR ''/'' \<notin> set drill \<Longrightarrow> suffix ''.prom'' (prom_file dir drill)"
proof -
  assume "CHR ''/'' \<notin> set drill"
  then have "plain_name (''firedrill-'' @ drill @ ''.prom'')" by (auto simp: plain_name_def)
  from path_Join_plain[OF this, of dir] show ?thesis by (auto simp: prom_file_def suffix_def)
qed

lemma writeTextfile_kept:
  assumes "writeTextfile pm reg dir drill s = (r, t)" and "CHR ''/'' \<notin> set drill"
  shows "os_kept prom_paths s t"
proof -
  let ?p = "prom_file dir drill"
  have P: "?p \<in> prom_paths" "?p @ ''.tmp'' \<in> prom_paths"
    using prom_file_suffix[OF assms(2), of dir] by (auto simp: prom_paths_def suffix_def)
  obtain e1 s1 where x1: "os_MkdirAll dir s = (e1, s1)" by fastforce
  have k1: "os_kept prom_paths s s1" by (rule os_kept_MkdirAll[OF x1])
  have k2: "os_kept prom_paths s (snd (os_WriteFile (?p @ ''.tmp'') d s1))" for d
    using os_kept_trans[OF k1 os_kept_mono[OF os_kept_frame[OF os_WriteFile_frame]]] P by simp
  have k3: "os_kept prom_paths s (snd (os_Rename (?p @ ''.tmp'') ?p (snd (os_WriteFile (?p @ ''.tmp'') d s1))))" for d
    using os_kept_trans[OF k2 os_kept_mono[OF os_kept_frame[OF os_Rename_frame]]] P by simp
  show ?thesis using assms(1) x1 k1 k2 k3
    by (auto simp: writeTextfile_def Let_def split: sum.splits option.splits prod.splits) (metis snd_conv)+
qed

lemma Export_kept:
  assumes "CHR ''/'' \<notin> set (ev_Drill e)"
  shows "Export pm e sinks s w = (errs, t, w1) \<Longrightarrow> os_kept prom_paths s t"
proof (induction sinks arbitrary: s w errs)
  case (Cons sink sinks)
  obtain r s1 w2 where x: "export_one pm e sink s w = (r, s1, w2)" by (metis prod.collapse)
  obtain errs' t' w' where y: "Export pm e sinks s1 w2 = (errs', t', w')" by (metis prod.collapse)
  have "os_kept prom_paths s s1"
    using x writeTextfile_kept[OF _ assms] by (auto simp: export_one_def split: if_splits prod.splits)
  then show ?case using os_kept_trans Cons.IH[of s1 w2 errs'] Cons.prems x y by auto
qed simp

lemma drill_sinks_kept:
  "CHR ''/'' \<notin> set (ev_Drill e) \<Longrightarrow> drill_sinks env ctx opts e sinks s w = (l, t, w1) \<Longrightarrow> os_kept prom_paths s t"
  using Export_kept by (fastforce simp: drill_sinks_def split: prod.splits)

lemma drill_html_kept: "drill_html env opts d e path s = (r, l, t) \<Longrightarrow> os_kept {trimSuffix path ''.json'' @ ''.html''} s t"
  using WriteHTML_frame os_kept_frame by (fastforce simp: drill_html_def split: if_splits prod.splits sum.splits)

lemma drill_sign_ok:
  assumes "drill_sign env opts path s = (None, t)"
  obtains priv data m where "os_fs s path = Some (File data m)" "bundle_files (nv_js env) (nv_cr env) path priv data t"
    "os_kept {path @ ''.sig'', path @ ''.intoto.jsonl''} s t"
proof -
  obtain priv s1 s2 p q where l: "os_frame {} s s1" and sg: "Sign (nv_js env) (nv_cr env) path priv s1 = (Inr p, s2)"
    and at: "Attest (nv_js env) (nv_cr env) path priv s2 = (Inr q, t)"
    using assms by (auto simp: drill_sign_def LoadPrivateKey_def split: sum.splits prod.splits option.splits if_splits dest!: os_ReadFile_frame)
  obtain data m where d: "os_fs s1 path = Some (File data m)" "bundle_files (nv_js env) (nv_cr env) path priv data t"
    and f: "os_frame {path @ ''.sig'', path @ ''.intoto.jsonl''} s1 t"
    using signed_bundle_files[OF sg at] by blast
  have "os_kept {path @ ''.sig'', path @ ''.intoto.jsonl''} s t"
    using os_kept_trans[OF os_kept_mono[OF os_kept_frame[OF l] empty_subsetI] os_kept_frame[OF f]] .
  then show thesis using that d os_frame_fs[OF l, of path] by simp
qed

lemma format_no_slash: "CHR ''/'' \<notin> set (format_stamp t)"
proof -
  have "CHR ''/'' \<notin> set (pad k n)" for k n using pad_digits[of k n] by (auto simp: list_all_iff is_digit_def)
  then show ?thesis by (simp add: format_stamp_def format_utc_def split: prod.splits)
qed

lemma evidence_name_plain:
  assumes "CHR ''/'' \<notin> set (ev_Drill e)" shows "plain_name (evidence_name e)"
proof -
  have "CHR ''/'' \<notin> set (pad k n)" for k n using pad_digits[of k n] by (auto simp: list_all_iff is_digit_def)
  then show ?thesis using assms format_no_slash by (auto simp: evidence_name_def plain_name_def)
qed

lemma evidence_path_json: "CHR ''/'' \<notin> set (ev_Drill e) \<Longrightarrow> \<exists>q. evidence_path e dir = q @ ''.json''"
  using path_Join_plain[OF evidence_name_plain[of e]] by (auto simp: evidence_name_def)

lemma bundle_paths_free:
  "({q @ ''.html''} \<union> prom_paths) \<inter> {q @ ''.json'', (q @ ''.json'') @ ''.sig'', (q @ ''.json'') @ ''.intoto.jsonl''} = {}"
  by (auto simp: prom_paths_def suffix_def dest: arg_cong[where f = rev])

lemma trim_json [simp]: "trimSuffix (q @ ''.json'') ''.json'' = q"
  by (simp add: trimSuffix_def hasSuffix_def suffix_def)

lemma evidence_Write_ok:
  assumes "evidence_Write js e dir s = (Inr path, t)"
  shows "path = evidence_path e dir \<and> (\<exists>data m. js_Evidence js e = Inr data \<and> os_fs t path = Some (File data m))"
  using assms
proof (cases rule: evidence_Write_cases)
  case (ok data s1 s2)
  then show ?thesis using os_Rename_ok[OF ok(4)] os_WriteFile_ok[OF ok(3)] by auto
qed simp_all

lemma finalize_disk:
  assumes "finalize env ctx d opts e0 r dur age s w = ((e, path, None), l, s1, w1)" and "CHR ''/'' \<notin> set (ev_Drill e0)"
  shows "\<exists>data m. js_Evidence (nv_js env) e = Inr data \<and> os_fs s1 path = Some (File data m) \<and>
    (rep_Sign (sp_Report (dr_Spec d)) \<longrightarrow> (\<exists>priv. bundle_files (nv_js env) (nv_cr env) path priv data s1))"
proof -
  have e: "e = (judge d e0 r dur age)\<lparr>ev_FinishedAt := rt_Now ctx w\<rparr>" by (rule finalize_evidence[OF assms(1)])
  then have n: "CHR ''/'' \<notin> set (ev_Drill e)" using assms(2) by simp
  define dir where "dir = (if op_EvidenceDir opts \<noteq> [] then op_EvidenceDir opts else rep_Dir (sp_Report (dr_Spec d)))"
  obtain sa where x1: "evidence_Write (nv_js env) e dir s = (Inr path, sa)"
    using assms(1) unfolding finalize_def Let_def e[symmetric] dir_def[symmetric] by (auto split: prod.splits sum.splits option.splits)
  define sg where "sg = (if rep_Sign (sp_Report (dr_Spec d)) then drill_sign env opts path sa else (None, sa))"
  obtain sb where x2: "sg = (None, sb)"
    using assms(1) unfolding finalize_def Let_def e[symmetric] dir_def[symmetric] x1 prod.case sum.case sg_def[symmetric]
    by (auto split: prod.splits option.splits)
  obtain l3 sc where x3: "drill_html env opts d e path sb = (None, l3, sc)"
    using assms(1) unfolding finalize_def Let_def e[symmetric] dir_def[symmetric] x1 prod.case sum.case sg_def[symmetric] x2 option.case
    by (auto split: prod.splits option.splits)
  obtain l4 where x4: "drill_sinks env ctx opts e (rep_Sinks (sp_Report (dr_Spec d))) sc w = (l4, s1, w1)"
    using assms(1) unfolding finalize_def Let_def e[symmetric] dir_def[symmetric] x1 prod.case sum.case sg_def[symmetric] x2 option.case x3
    by (auto split: prod.splits)
  obtain data m where d: "path = evidence_path e dir" "js_Evidence (nv_js env) e = Inr data" "os_fs sa path = Some (File data m)"
    using evidence_Write_ok[OF x1] by blast
  obtain q where q: "path = q @ ''.json''" using evidence_path_json[OF n] d(1) by blast
  have k: "os_kept ({q @ ''.html''} \<union> prom_paths) sb s1"
    using drill_html_kept[OF x3] drill_sinks_kept[OF n x4] unfolding q trim_json by (meson os_kept_mono os_kept_trans Un_upper1 Un_upper2)
  have b: "(\<exists>m. os_fs sb path = Some (File data m)) \<and>
      (rep_Sign (sp_Report (dr_Spec d)) \<longrightarrow> (\<exists>priv. bundle_files (nv_js env) (nv_cr env) path priv data sb))"
  proof (cases "rep_Sign (sp_Report (dr_Spec d))")
    case False
    then show ?thesis using d x2 by (simp add: sg_def)
  next
    case True
    then have "drill_sign env opts path sa = (None, sb)" using x2 by (simp add: sg_def)
    then obtain priv data' m' where "os_fs sa path = Some (File data' m')" "bundle_files (nv_js env) (nv_cr env) path priv data' sb"
      by (rule drill_sign_ok)
    then show ?thesis using d(3) by (auto simp: bundle_files_def)
  qed
  have "path \<notin> {q @ ''.html''} \<union> prom_paths" using bundle_paths_free[of q] q by blast
  then show ?thesis using d(2) b k os_kept_bundle[OF _ k, of "nv_js env" "nv_cr env" path _ data] bundle_paths_free[of q] q
    unfolding os_kept_def by metis
qed

lemma Fetch_cleanup_temp:
  assumes "Fetch cd cli from s = (Inr b, t)" and "bk_cleanup b = Some tmp"
  shows "\<exists>n pat. tmp = os_temp s n pat"
proof -
  obtain s1 r pat n where f: "os_frame {} s s1" and sp: "spool r pat (fetch_limit from) s1 = (Inr (tmp, n), t)"
    using Fetch_shape[OF assms(1)] assms(2) unfolding fetch_shape_def by fastforce
  have "tmp = os_temp s1 (os_tick s1) pat"
    using sp by (auto simp: spool_def os_CreateTemp_def Let_def split: prod.splits sum.splits option.splits if_splits)
  then show ?thesis using f by (metis os_frame_def)
qed

lemma drill_cleaned_kept:
  assumes "drill_cleaned env d s s1 t"
  shows "os_kept {p. \<exists>n pat. p = os_temp s n pat} s1 t"
proof -
  have "os_kept {p. \<exists>n pat. p = os_temp s n pat} s1 (snd (Cleanup (Some b) s1))" if "Fetch (nv_cd env) cli (drillFrom d) s = (Inr b, s0)" for cli b s0
  proof (cases "bk_cleanup b")
    case (Some tmp)
    then show ?thesis using Fetch_cleanup_temp[OF that Some] os_kept_mono[OF os_kept_frame[OF os_Remove_frame[of tmp s1]]] by (auto simp: Cleanup_def)
  qed (simp add: Cleanup_def)
  then show ?thesis using assms unfolding drill_cleaned_def by auto
qed

lemma drill_Run_disk:
  assumes "Validate d = None" and "drill_Run env ctx d opts s w = Some ((Some e, path, None), ls, t, w1)"
    and "\<forall>n pat. \<not> prefix path (os_temp s n pat)"
  shows "\<exists>data m. js_Evidence (nv_js env) e = Inr data \<and> os_fs t path = Some (File data m) \<and>
    (rep_Sign (sp_Report (dr_Spec d)) \<longrightarrow> (\<exists>priv. bundle_files (nv_js env) (nv_cr env) path priv data t))"
proof -
  obtain s1 where f: "drill_final env d opts e path None s1" and c: "drill_cleaned env d s s1 t" by (rule drill_Run_final[OF assms(2)])
  obtain ctx' e0 r dur age s' w' l w'' where fin: "finalize env ctx' d opts e0 r dur age s' w' = ((e, path, None), l, s1, w'')"
    and m: "measured d dur age e0" using f unfolding drill_final_def by blast
  have "CHR ''/'' \<notin> set (drillName d)"
    using assms(1) by (auto simp: Validate_None wf_drill_def dns_label_def list_all_iff is_label_char_def is_lower_alnum_def is_digit_def)
  then obtain data mt where d: "js_Evidence (nv_js env) e = Inr data" "os_fs s1 path = Some (File data mt)"
    "rep_Sign (sp_Report (dr_Spec d)) \<Longrightarrow> \<exists>priv. bundle_files (nv_js env) (nv_cr env) path priv data s1"
    using finalize_disk[OF fin] m by (auto simp: measured_def)
  let ?T = "{p. \<exists>n pat. p = os_temp s n pat}"
  have k: "os_kept ?T s1 t" by (rule drill_cleaned_kept[OF c])
  have free: "?T \<inter> {path, path @ ''.sig'', path @ ''.intoto.jsonl''} = {}" 
  proof -
    have "os_temp s n pat \<noteq> path @ x" for n pat x using assms(3) prefixI[of "os_temp s n pat" path x] by blast
    from this[where x = "[]"] this[where x = "''.sig''"] this[where x = "''.intoto.jsonl''"] show ?thesis by (auto dest: sym)
  qed
  have b: "\<exists>priv. bundle_files (nv_js env) (nv_cr env) path priv data t" if sign: "rep_Sign (sp_Report (dr_Spec d))"
  proof -
    obtain priv where "bundle_files (nv_js env) (nv_cr env) path priv data s1" using d(3)[OF sign] by blast
    from os_kept_bundle[OF this k free] show ?thesis ..
  qed
  have "path \<notin> ?T" using free by simp
  then have "os_fs t path = Some (File data mt)" by (rule os_keptD[OF k d(2)])
  then show ?thesis using d(1) b by simp
qed

text \<open>
  C6: the evidence a drill returns is the evidence on disk. When a validated drill ends without an error, the file it names holds exactly the rendering
  of the evidence it returns, verdict and fate of the sandbox included: neither signing, the HTML report, the metrics file, the second teardown nor
  removing the spooled backup changes it. The temporary files of the system are assumed not to lie under the evidence path.
\<close>

theorem drill_evidence_on_disk:
  assumes "Validate d = None" and "drill_Run env ctx d opts s w = Some ((Some e, path, None), ls, t, w1)"
    and "\<forall>n pat. \<not> prefix path (os_temp s n pat)"
  shows "\<exists>data m. js_Evidence (nv_js env) e = Inr data \<and> os_fs t path = Some (File data m)"
  using drill_Run_disk[OF assms] by blast

text \<open>
  C5: a signed drill verifies. When a validated drill that asks for a signature ends without an error, \<open>firedrill verify\<close> accepts what it left: the bundle
  at its path carries the signature and the attestation of one key over the rendering of the returned evidence, whether or not that key is pinned.
\<close>

theorem signed_drill_verifies:
  assumes "Validate d = None" and "drill_Run env ctx d opts s w = Some ((Some e, path, None), ls, t, w1)"
    and "\<forall>n pat. \<not> prefix path (os_temp s n pat)" and "rep_Sign (sp_Report (dr_Spec d))"
    and "json_roundtrip (nv_js env)" and "ed25519_correct (nv_cr env)" and "os_healthy t"
  shows "\<exists>priv. \<forall>trusted \<in> {None, Some (cr_Public (nv_cr env) priv)}. \<exists>res.
    fst (VerifyBundle (nv_js env) (nv_cr env) path trusted keyDir t) = Inr res \<and>
    br_SignerFingerprint res = Fingerprint (nv_cr env) (cr_Public (nv_cr env) priv) \<and> br_AttestationChecked res"
proof -
  obtain priv data where b: "bundle_files (nv_js env) (nv_cr env) path priv data t" using drill_Run_disk[OF assms(1-3)] assms(4) by blast
  have "\<exists>res. fst (VerifyBundle (nv_js env) (nv_cr env) path trusted keyDir t) = Inr res \<and>
      br_SignerFingerprint res = Fingerprint (nv_cr env) (cr_Public (nv_cr env) priv) \<and> br_AttestationChecked res"
    if "trusted \<in> {None, Some (cr_Public (nv_cr env) priv)}" for trusted
    using bundle_files_verify[OF assms(5-7) b, of trusted keyDir] that by fastforce
  then show ?thesis by blast
qed

section \<open>Every drill ends\<close>

text \<open>Nothing the sandboxes or the cluster do turns the clock back.\<close>

definition outside_forward :: "'w Runtime \<Rightarrow> 'w Env \<Rightarrow> bool" where
  "outside_forward ctx env \<longleftrightarrow>
     (\<forall>c sb cmd inp. rt_forward ctx (bx_Exec (any_box (nv_docker env c) (nv_kube env c) sb) cmd inp)) \<and>
     (\<forall>c n. rt_forward ctx (ku_GetRestore (nv_kube env c) n))"

lemma timeout_clock [simp]: "rt_clock (with_timeout ctx t w) = rt_clock ctx" "rt_forward (with_timeout ctx t w) f = rt_forward ctx f"
  by (simp_all add: rt_clock_def rt_forward_def)

lemma timeout_forward [simp]: "outside_forward (with_timeout ctx t w) env = outside_forward ctx env"
  by (simp add: outside_forward_def)

lemma timeout_deadline: "rt_Now ctx w + t \<le> rt_Now ctx w1 \<Longrightarrow> rt_CtxErr (with_timeout ctx t w) w1 \<noteq> None"
  by (auto simp: with_timeout_def split: option.splits)

lemma velero_Restore_some:
  assumes "rt_clock rt" and "\<And>n. rt_forward rt (ku_GetRestore api n)" and "\<And>w. deadline \<le> rt_Now rt w \<Longrightarrow> rt_CtxErr rt w \<noteq> None"
  shows "velero_Restore rt api d w \<noteq> None"
proof -
  have n: "velero_poll rt api name start w \<noteq> None" for name start w
  proof (rule velero_poll_returns[OF assms])
    show "deadline \<le> rt_Now rt w + int (nat (deadline - rt_Now rt w)) * (2 * Second)" by simp
  qed
  show ?thesis by (auto simp: velero_Restore_def Let_def split: prod.splits option.splits elim!: n[THEN notE])
qed

lemma drill_sandboxed_ends:
  assumes "rt_clock ctx" and "outside_forward ctx env"
  shows "drill_sandboxed env ctx d opts driver b age e s w \<noteq> None"
proof -
  have n: "Restore driver (with_timeout ctx t w0) (any_box (nv_docker env c) (nv_kube env c) sb) path src s' w' \<noteq> None" for t w0 c sb path src s' w'
    using Restore_returns[of "with_timeout ctx t w0" "any_box (nv_docker env c) (nv_kube env c) sb" driver path src s' w'] assms
    by (auto simp: outside_forward_def)
  show ?thesis by (auto simp: drill_sandboxed_def Let_def split: prod.splits sum.splits option.splits elim!: n[THEN notE])
qed

lemma runVelero_ends:
  assumes "rt_clock ctx" and "outside_forward ctx env"
  shows "runVelero env ctx d opts e s w \<noteq> None"
proof -
  have n: "velero_Restore (with_timeout ctx t w0) (nv_kube env c) vd w' \<noteq> None" for t w0 c vd w'
    by (rule velero_Restore_some[where deadline = "rt_Now ctx w0 + t"]) (use assms in \<open>auto simp: outside_forward_def timeout_deadline\<close>)
  show ?thesis by (auto simp: runVelero_def Let_def split: prod.splits sum.splits option.splits elim!: n[THEN notE])
qed

lemma drill_Run_ends:
  assumes "rt_clock ctx" and "outside_forward ctx env"
  shows "\<exists>e path err ls t w1. drill_Run env ctx d opts s w = Some ((e, path, err), ls, t, w1)"
proof -
  have c: "rt_clock (with_timeout ctx tm w)" "outside_forward (with_timeout ctx tm w) env" for tm using assms by simp_all
  have "drill_Run env ctx d opts s w \<noteq> None"
    using runVelero_ends[OF c] unfolding drill_Run_def Let_def
    by (auto simp del: not_None_eq split: prod.splits sum.splits option.splits elim!: drill_sandboxed_ends[OF c, THEN notE])
  then show ?thesis by auto
qed

lemma drill_Run_outcome: "drill_Run env ctx d opts s w = Some ((e, path, err), ls, t, w1) \<Longrightarrow> err \<noteq> None \<or> e \<noteq> None"
  by (auto simp: drill_Run_def runVelero_def velero_restored_def drill_sandboxed_def drill_restored_def Let_def
      split: if_splits prod.splits sum.splits option.splits)

lemma RunAll_outcomes:
  assumes "rt_clock ctx" and "outside_forward ctx env"
  obtains ocs ls t w1 where "RunAll env ctx drills opts s w = Some (ocs, ls, t, w1)" "map oc_Drill ocs = map drillName drills" "list_all oc_wf ocs"
proof -
  have "\<exists>ocs ls t w1. run_all env ctx many opts drills s w = Some (ocs, ls, t, w1) \<and> map oc_Drill ocs = map drillName drills \<and> list_all oc_wf ocs"
    for many
  proof (induction drills arbitrary: s w)
    case (Cons d ds)
    obtain e path err ls t w1 where r: "drill_Run env ctx d opts s w = Some ((e, path, err), ls, t, w1)" using drill_Run_ends[OF assms] by blast
    obtain ocs ls' t' w' where "run_all env ctx many opts ds t w1 = Some (ocs, ls', t', w')" "map oc_Drill ocs = map drillName ds" "list_all oc_wf ocs"
      using Cons.IH by blast
    moreover have "oc_wf \<lparr>oc_Drill = drillName d, oc_Evidence = e, oc_EvidencePath = path, oc_Err = err\<rparr>"
      using drill_Run_outcome[OF r] by (simp add: oc_wf_def)
    ultimately show ?case using r by simp
  qed simp
  then show thesis using that unfolding RunAll_def by blast
qed

text \<open>
  C8: a fleet run always completes, and completely. With a clock that waiting advances and nothing turning it back, \<open>RunAll\<close> returns, whatever fails in
  whichever drill: one outcome per drill, in the order of the drills and under their names, each with evidence or an error, so that the scorecard
  can be written and counts every drill once.
\<close>

theorem RunAll_complete:
  assumes "rt_clock ctx" and "outside_forward ctx env"
  shows "\<exists>ocs ls t w1. RunAll env ctx drills opts s w = Some (ocs, ls, t, w1) \<and> map oc_Drill ocs = map drillName drills \<and>
    (\<exists>lines v f x. WriteScorecard ocs = Some (lines, v, f, x) \<and> v = length (filter oc_verified ocs) \<and> v + f + x = length drills)"
proof -
  obtain ocs ls t w1 where r: "RunAll env ctx drills opts s w = Some (ocs, ls, t, w1)" and n: "map oc_Drill ocs = map drillName drills"
    and wf: "list_all oc_wf ocs" by (rule RunAll_outcomes[OF assms])
  obtain lines v f x where "WriteScorecard ocs = Some (lines, v, f, x)" "v = length (filter oc_verified ocs)" "v + f + x = length ocs"
    by (rule WriteScorecard_counts[OF wf])
  moreover have "length ocs = length drills" using n by (metis length_map)
  ultimately show ?thesis using r n by auto
qed

end
