(* ===== verification/FD_Ephemeral.thy ===== *)
theory FD_Ephemeral
  imports FD_Lifetime
begin

text \<open>
  What a Velero drill leaves in the cluster: the ephemeral namespace is gone with it, and so is its restore object unless the TTL watchdog tore the
  drill down before the restore was created.
\<close>

section \<open>Namespaces and restore objects\<close>

text \<open>
  \<open>velero_laws\<close>: \<open>live\<close> lists namespaces and restore objects. A namespace is created or it is not; a create of a restore object that reports an error may
  still have reached the server.
\<close>

definition velero_laws :: "('w \<Rightarrow> resource set) \<Rightarrow> 'w Runtime \<Rightarrow> 'w Kube \<Rightarrow> bool" where
  "velero_laws live rt api \<longleftrightarrow>
     keeps live (ku_InCluster api) \<and> keeps live (ku_Kubeconfig api) \<and> keeps live (ku_NewClient api) \<and> keeps live (ku_NewDynamic api) \<and>
     (\<forall>n. keeps live (ku_Rand api n)) \<and> (\<forall>b. keeps live (ku_GetBackup api b)) \<and> (\<forall>p. keeps live (ku_CreatePolicy api p)) \<and>
     (\<forall>n. keeps live (ku_GetRestore api n)) \<and> (\<forall>d w. live (rt_Sleep rt d w) = live w) \<and>
     (\<forall>n l a. adds live (RNamespace n) (ku_CreateNamespace api n l a)) \<and>
     (\<forall>n l a w e w1. ku_CreateNamespace api n l a w = (Some e, w1) \<longrightarrow> live w1 = live w) \<and>
     (\<forall>c. adds live (RRestore (cr_Name c)) (ku_CreateRestore api c)) \<and>
     (\<forall>n. deletes live (ku_IsNotFound api) (RNamespace n) (ku_DeleteNamespace api n)) \<and>
     (\<forall>n. deletes live (ku_IsNotFound api) (RRestore n) (ku_DeleteRestore api n)) \<and>
     (\<forall>n w m. RNamespace m \<in> live (snd (ku_DeleteRestore api n w)) \<longleftrightarrow> RNamespace m \<in> live w)"

definition velero_removes :: "'w Kube \<Rightarrow> bool" where
  "velero_removes api \<longleftrightarrow>
     (\<forall>n w. case fst (ku_DeleteNamespace api n w) of None \<Rightarrow> True | Some e \<Rightarrow> ku_IsNotFound api e) \<and>
     (\<forall>n w. case fst (ku_DeleteRestore api n w) of None \<Rightarrow> True | Some e \<Rightarrow> ku_IsNotFound api e)"

definition namespaces :: "resource set \<Rightarrow> string set" where
  "namespaces X = {n. RNamespace n \<in> X}"

definition restores :: "resource set \<Rightarrow> string set" where
  "restores X = {n. RRestore n \<in> X}"

lemma views [simp]:
  "namespaces (insert (RNamespace n) X) = insert n (namespaces X)" "namespaces (insert (RRestore n) X) = namespaces X"
  "restores (insert (RNamespace n) X) = restores X" "restores (insert (RRestore n) X) = insert n (restores X)"
  "namespaces (X - {RNamespace n}) = namespaces X - {n}" "namespaces (X - {RRestore n}) = namespaces X"
  "restores (X - {RNamespace n}) = restores X" "restores (X - {RRestore n}) = restores X - {n}"
  "n \<in> namespaces X \<longleftrightarrow> RNamespace n \<in> X" "n \<in> restores X \<longleftrightarrow> RRestore n \<in> X"
  by (auto simp: namespaces_def restores_def)

lemma velero_Destroy_live:
  assumes "velero_laws live rt api" and "\<not> ve_once d" and "velero_Destroy api d w = (None, d1, w1)"
  shows "live w1 = live w - {RNamespace (ve_TargetNS d)} - (if ve_restoreName d = [] then {} else {RRestore (ve_restoreName d)})"
proof -
  have dl: "deletes live (ku_IsNotFound api) (RNamespace n) (ku_DeleteNamespace api n)"
    "deletes live (ku_IsNotFound api) (RRestore n) (ku_DeleteRestore api n)" for n
    using assms(1) by (simp_all add: velero_laws_def)
  obtain ne wa where x1: "ku_DeleteNamespace api (ve_TargetNS d) w = (ne, wa)" by fastforce
  obtain re wb where x2: "ku_DeleteRestore api (ve_restoreName d) wa = (re, wb)" by fastforce
  show ?thesis using assms(2,3) deletesD[OF dl(1) x1] deletesD[OF dl(2) x2]
    by (auto simp: velero_Destroy_def Let_def x1 x2 split: option.splits if_splits)
qed

lemma velero_removes_Destroy:
  assumes "velero_removes api" and "\<not> ve_once d" and "velero_Destroy api d w = (e, d1, w1)"
  shows "e = None"
proof -
  obtain ne wa where x1: "ku_DeleteNamespace api (ve_TargetNS d) w = (ne, wa)" by fastforce
  obtain re wb where x2: "ku_DeleteRestore api (ve_restoreName d) wa = (re, wb)" by fastforce
  have "case ne of None \<Rightarrow> True | Some e \<Rightarrow> ku_IsNotFound api e" "case re of None \<Rightarrow> True | Some e \<Rightarrow> ku_IsNotFound api e"
    using assms(1) x1 x2 unfolding velero_removes_def by (metis fst_conv)+
  then show ?thesis using assms(2,3) by (auto simp: velero_Destroy_def Let_def x1 x2 split: option.splits if_splits)
qed

lemma velero_Destroy_names: "velero_Destroy api d w = (e, d1, w1) \<Longrightarrow> ve_TargetNS d1 = ve_TargetNS d \<and> ve_restoreName d1 = ve_restoreName d"
  by (auto simp: velero_Destroy_def Let_def split: if_splits prod.splits)

text \<open>The account of a Velero drill. With \<open>calm\<close>, the watchdog has not fired before the restore.\<close>

definition velero_live :: "('w \<Rightarrow> resource set) \<Rightarrow> resource set \<Rightarrow> bool \<Rightarrow> bool \<Rightarrow> VeleroDrill \<Rightarrow> 'w \<Rightarrow> bool" where
  "velero_live live L rm calm d w \<longleftrightarrow>
     (\<not> ve_once d \<longrightarrow> ve_TargetNS d \<notin> namespaces L \<and> namespaces (live w) = insert (ve_TargetNS d) (namespaces L) \<and>
        restores (live w) \<subseteq> (if ve_restoreName d = [] then restores L else insert (ve_restoreName d) (restores L))) \<and>
     (ve_once d \<and> ve_destroyErr d = None \<longrightarrow> namespaces (live w) = namespaces L \<and> (calm \<longrightarrow> restores (live w) \<subseteq> restores L)) \<and>
     (rm \<and> ve_once d \<longrightarrow> ve_destroyErr d = None)"

lemma velero_live_cong: "live w1 = live w \<Longrightarrow> velero_live live L rm calm d w1 = velero_live live L rm calm d w"
  by (simp add: velero_live_def)

lemma velero_live_Destroy:
  assumes "velero_laws live rt api" and "rm \<longrightarrow> velero_removes api" and "velero_live live L rm calm d w" and "velero_Destroy api d w = (e, d1, w1)"
  shows "velero_live live L rm calm d1 w1"
proof (cases "ve_once d")
  case True
  then show ?thesis using velero.again[OF True, of api w] assms(3,4) by simp
next
  case False
  have "namespaces (live w1) = namespaces L \<and> restores (live w1) \<subseteq> restores L" if "e = None"
    using velero_Destroy_live[of live rt api d w d1 w1] assms(1,3,4) False that by (auto simp: velero_live_def split: if_splits)
  moreover have "e = None" if "rm" using velero_removes_Destroy[OF _ False assms(4)] assms(2) that by simp
  ultimately show ?thesis using velero.first[OF False assms(4)] by (simp add: velero_live_def)
qed

lemma velero_live_watchdog:
  assumes "velero_laws live rt (nv_kube env (nv_rt env))" and "rm \<longrightarrow> velero_removes (nv_kube env (nv_rt env))"
    and "velero_live live L rm calm d w" and "watchdog env (velero_Destroy (nv_kube env (nv_rt env))) d w = (d1, w1)"
  shows "velero_live live L rm calm d1 w1"
  using assms(3,4) velero_live_Destroy[OF assms(1,2,3)]
  by (cases "velero_Destroy (nv_kube env (nv_rt env)) d w") (auto simp: watchdog_def split: if_splits)

section \<open>Through the drill\<close>

lemma Prepare_live:
  assumes "velero_laws live rt api" and "rm \<longrightarrow> velero_removes api" and "Prepare rt api n b ns ttl w = (res, w1)"
  shows "case res of
      Inl _ \<Rightarrow> rm \<longrightarrow> namespaces (live w1) = namespaces (live w) \<and> restores (live w1) \<subseteq> restores (live w)
    | Inr d \<Rightarrow> ve_restoreName d = [] \<and> \<not> ve_once d \<and> velero_live live (live w) rm calm d w1"
proof -
  note laws = assms(1)[unfolded velero_laws_def]
  have lc: "live w' = live w" if "LoadConfig api w = (x, w')" for x w'
    using that laws by (auto simp: LoadConfig_def split: prod.splits bool.splits option.splits) (metis keepsD)+
  obtain ic wa where x1: "LoadConfig api w = (ic, wa)" by fastforce
  obtain e2 wb where x2: "ku_NewDynamic api wa = (e2, wb)" by fastforce
  obtain e3 wc where x3: "ku_NewClient api wb = (e3, wc)" by fastforce
  obtain gb wd where x4: "ku_GetBackup api b wc = (gb, wd)" by fastforce
  obtain sfx we where x5: "kube_randomHex api 4 wd = (sfx, we)" by fastforce
  have k: "keeps live (ku_NewDynamic api)" "keeps live (ku_NewClient api)" "keeps live (ku_GetBackup api b)" "keeps live (kube_randomHex api 4)"
    "\<And>p. keeps live (ku_CreatePolicy api p)"
    using laws by (auto simp: kube_randomHex_def keeps_def)
  have l: "live wa = live w" "live wb = live w" "live wc = live w" "live wd = live w" "live we = live w"
    using lc[OF x1] keepsD[OF k(1) x2] keepsD[OF k(2) x3] keepsD[OF k(3) x4] keepsD[OF k(4) x5] by simp_all
  note P = assms(3)[unfolded Prepare_def Let_def x1 prod.case]
  define d where "d = (case gb of Inl _ \<Rightarrow> undefined | Inr bk \<Rightarrow> \<lparr>ve_SourceNS = ns, ve_TargetNS = ''firedrill-'' @ sanitize n @ ''-'' @ sfx,
      ve_Backup = b, ve_BackupAge = backup_age rt api bk wd, ve_restoreName = [], ve_once = False, ve_destroyErr = None, ve_watchdog = False,
      ve_destroyed = False\<rparr>)"
  obtain e6 wf where x6: "ku_CreateNamespace api (ve_TargetNS d)
      [(''app.kubernetes.io/managed-by'', ''firedrill''), (''firedrill/sandbox'', ''true'')]
      [(''firedrill.expires-at'', format_RFC3339 (rt_Now rt we + ttl))] we = (e6, wf)" by fastforce
  obtain e7 wg where x7: "EnsureDenyEgressPolicy api (ve_TargetNS d) wf = (e7, wg)" by fastforce
  have lg: "live wg = live wf" using keeps_mapD[OF k(5) x7[unfolded EnsureDenyEgressPolicy_def]] .
  have ad: "adds live (RNamespace m) (ku_CreateNamespace api m ls as)" for m ls as using laws by blast
  have created: "ve_TargetNS d \<notin> namespaces (live w)" "live wg = insert (RNamespace (ve_TargetNS d)) (live w)" if "e6 = None"
    using addsD(2)[OF ad x6 that] l(5) lg by simp_all
  consider (early) e where "res = Inl e" "live w1 = live w"
    | (undone) e bk where "gb = Inr bk" "e6 = None" "res = Inl e" "w1 = snd (snd (velero_Destroy api d wg))"
    | (ok) bk where "gb = Inr bk" "e6 = None" "res = Inr (d\<lparr>ve_watchdog := True\<rparr>)" "w1 = wg"
  proof -
    have "live wf = live we" if "e6 = Some e" for e using laws x6 that by blast
    note failed = this
    show thesis
    proof (cases "\<exists>c bk. ic = Inr c \<and> e2 = None \<and> e3 = None \<and> gb = Inr bk \<and> vb_Phase bk = ''Completed''")
      case False
      then show thesis using P x2 x3 x4 l early by (auto split: sum.splits option.splits if_splits)
    next
      case True
      then obtain c bk where g: "ic = Inr c" "e2 = None" "e3 = None" "gb = Inr bk" "vb_Phase bk = ''Completed''" by blast
      have d: "d = \<lparr>ve_SourceNS = ns, ve_TargetNS = ''firedrill-'' @ sanitize n @ ''-'' @ sfx, ve_Backup = b, ve_BackupAge = backup_age rt api bk wd,
          ve_restoreName = [], ve_once = False, ve_destroyErr = None, ve_watchdog = False, ve_destroyed = False\<rparr>" using g(4) by (simp add: d_def)
      have ph: "(vb_Phase bk \<noteq> ''Completed'') = False" using g(5) by simp
      have "(case e6 of Some e \<Rightarrow> (Inl (Msg ''creating ephemeral namespace: %w'' [AErr e]), wf)
        | None \<Rightarrow> (case e7 of Some e \<Rightarrow> (Inl e, snd (snd (velero_Destroy api d wg))) | None \<Rightarrow> (Inr (d\<lparr>ve_watchdog := True\<rparr>), wg))) = (res, w1)"
        using P unfolding g(1-3) sum.case x2[unfolded g(2)] prod.case option.case x3[unfolded g(3)] x4[unfolded g(4)] ph if_False x5 d[symmetric] x6
        by (auto simp: x7 split: option.splits)
      then show thesis using early undone[OF g(4)] ok[OF g(4)] failed l(5) by (auto split: option.splits)
    qed
  qed
  then show ?thesis
  proof cases
    case early
    then show ?thesis by simp
  next
    case undone
    have n: "\<not> ve_once d" "ve_restoreName d = []" using undone(1) by (simp_all add: d_def)
    have v: "velero_live live (live w) rm calm d wg" using created[OF undone(2)] n by (simp add: velero_live_def)
    obtain de d1 w2 where de: "velero_Destroy api d wg = (de, d1, w2)" by (metis prod.collapse)
    have "velero_live live (live w) rm True d1 w2"
      by (rule velero_live_Destroy[OF assms(1,2) _ de]) (use v n in \<open>simp add: velero_live_def\<close>)
    then show ?thesis using undone(3,4) de velero.destroy_once[OF de] by (auto simp: velero_live_def)
  next
    case ok
    have n: "\<not> ve_once d" "ve_restoreName d = []" using ok(1) by (simp_all add: d_def)
    show ?thesis using ok(3,4) n created[OF ok(2)] by (simp add: velero_live_def)
  qed
qed

lemma velero_poll_keeps:
  assumes "velero_poll rt api name start w = Some y" and "keeps live (ku_GetRestore api name)" and "\<And>d w. live (rt_Sleep rt d w) = live w"
  shows "live (snd y) = live w"
proof -
  have "keeps live (ku_GetRestore api name) \<longrightarrow> (\<forall>d w. live (rt_Sleep rt d w) = live w) \<longrightarrow> live (snd y) = live w"
  proof (rule velero_poll.raw_induct[where
        P = "\<lambda>rt api name start w y. keeps live (ku_GetRestore api name) \<longrightarrow> (\<forall>d w. live (rt_Sleep rt d w) = live w) \<longrightarrow> live (snd y) = live w",
        OF _ assms(1)], intro impI)
    fix poll and rt :: "'a Runtime" and api :: "'a Kube" and name start w y
    assume IH: "\<And>rt api name start w y. poll rt api name start w = Some y \<Longrightarrow>
        keeps live (ku_GetRestore api name) \<longrightarrow> (\<forall>d w. live (rt_Sleep rt d w) = live w) \<longrightarrow> live (snd y) = live w"
      and body: "(case rt_CtxErr rt w of
          Some e \<Rightarrow> Some ((None, Some e), w)
        | None \<Rightarrow>
           (let w1 = rt_Sleep rt (2 * Second) w in
            case rt_CtxErr rt w1 of
              Some e \<Rightarrow> Some ((None, Some e), w1)
            | None \<Rightarrow>
               (case ku_GetRestore api name w1 of
                  (Inl _, w2) \<Rightarrow> poll rt api name start w2
                | (Inr r, w2) \<Rightarrow>
                    if terminal (vs_Phase r) then Some (velero_outcome rt start r w2) else poll rt api name start w2))) = Some y"
      and k: "keeps live (ku_GetRestore api name)" and sl: "\<forall>d w. live (rt_Sleep rt d w) = live w"
    have n: "live w2 = live w" if "poll rt api name start w1 = Some y" "live w1 = live w" "w2 = snd y" for w1 w2
      using IH[OF that(1)] k sl that(2,3) by simp
    obtain g w2 where g: "ku_GetRestore api name (rt_Sleep rt (2 * Second) w) = (g, w2)" by fastforce
    have "live w2 = live w" using keepsD[OF k g] sl by simp
    then show "live (snd y) = live w"
      using body n[of w2] sl unfolding Let_def g by (auto simp: velero_outcome_def split: option.splits sum.splits if_splits)
  qed
  then show ?thesis using assms(2,3) by blast
qed

lemma velero_laws_timeout [simp]: "velero_laws live (with_timeout ctx t w) api = velero_laws live ctx api"
  by (simp add: velero_laws_def)

lemma velero_Restore_steps:
  assumes "velero_laws live rt api" and "velero_Restore rt api d w = Some ((res, err), d1, w1)"
  obtains n where "d1 = d\<lparr>ve_restoreName := n\<rparr>" "n \<noteq> []" "live w1 = live w \<or> live w1 = insert (RRestore n) (live w)"
    "res \<noteq> None \<Longrightarrow> RRestore n \<in> live w1"
proof -
  have laws: "\<And>k. keeps live (ku_Rand api k)" "\<And>n. keeps live (ku_GetRestore api n)" "\<And>d w. live (rt_Sleep rt d w) = live w"
    "\<And>c. adds live (RRestore (cr_Name c)) (ku_CreateRestore api c)"
    using assms(1) by (simp_all add: velero_laws_def)
  obtain sfx wa where x1: "kube_randomHex api 3 w = (sfx, wa)" by fastforce
  define n where "n = ve_TargetNS d @ ''-'' @ sfx"
  define d2 where "d2 = d\<lparr>ve_restoreName := n\<rparr>"
  have rn: "ve_restoreName d2 = n" by (simp add: d2_def)
  obtain ce wb where x2: "ku_CreateRestore api (velero_CR d2 n) wa = (ce, wb)" by fastforce
  have la: "live wa = live w" by (rule keeps_mapD[OF laws(1) x1[unfolded kube_randomHex_def]])
  have c: "cr_Name (velero_CR d2 n) = n" by (simp add: velero_CR_def)
  note lb = addsD[OF laws(4) x2, unfolded c la]
  have R: "(case ce of Some e \<Rightarrow> Some ((None, Some (Msg ''creating Velero restore: %w'' [AErr e])), d2, wb)
      | None \<Rightarrow> (case velero_poll rt api n (rt_Now rt wa) wb of None \<Rightarrow> None | Some (r, w3) \<Rightarrow> Some (r, d2, w3))) = Some ((res, err), d1, w1)"
    using assms(2) unfolding velero_Restore_def x1 prod.case Let_def n_def[symmetric] d2_def[symmetric] rn x2 .
  have "d1 = d2 \<and> live w1 = live wb \<and> (res \<noteq> None \<longrightarrow> ce = None)"
  proof (cases ce)
    case None
    then obtain r w3 where p: "velero_poll rt api n (rt_Now rt wa) wb = Some (r, w3)" and "d1 = d2" "w1 = w3" using R by (auto split: option.splits)
    then show ?thesis using velero_poll_keeps[OF p laws(2,3)] None by simp
  qed (use R in simp)
  then show thesis using that[of n] lb by (auto simp: d2_def n_def)
qed

lemma velero_Restore_live:
  assumes "velero_laws live rt api" and "velero_Restore rt api d w = Some (rr, d1, w1)" and "velero_live live L rm calm d w"
    and "ve_restoreName d = []" and "calm \<longrightarrow> \<not> ve_once d"
  shows "velero_live live L rm calm d1 w1"
proof -
  have r: "velero_Restore rt api d w = Some ((fst rr, snd rr), d1, w1)" using assms(2) by simp
  show ?thesis
  proof (rule velero_Restore_steps[OF assms(1) r])
    fix n assume n: "d1 = d\<lparr>ve_restoreName := n\<rparr>" "n \<noteq> []" "live w1 = live w \<or> live w1 = insert (RRestore n) (live w)"
    then have v: "namespaces (live w1) = namespaces (live w)" "restores (live w1) \<subseteq> insert n (restores (live w))" by auto
    show ?thesis
    proof (cases "ve_once d")
      case True
      then show ?thesis using assms(3,5) n(1) v(1) by (simp add: velero_live_def)
    next
      case False
      then have "restores (live w1) \<subseteq> insert n (restores L)" using assms(3,4) v(2) by (auto simp: velero_live_def)
      then show ?thesis using assms(3) n(1,2) v(1) False by (simp add: velero_live_def)
    qed
  qed
qed

lemma velero_restored_live:
  assumes laws: "velero_laws live rt (nv_kube env (nv_rt env))" and rm: "rm \<longrightarrow> velero_removes (nv_kube env (nv_rt env))"
    and out: "outside_keeps live env" "k8s_keeps live (nv_k8s env ctx)" "\<And>d w. live (rt_Sleep ctx d w) = live w"
    and vd: "velero_live live L rm calm vd w" "velero.fate_known vd"
    and run: "velero_restored env ctx d opts e0 vd rr s w = ((r, path, err), ls, s1, w1)"
    and fate: "(\<exists>e. r = Some e \<and> es_Destroyed (ev_Sandbox e)) \<or> rm"
  shows "namespaces (live w1) = namespaces L \<and> (calm \<longrightarrow> restores (live w1) \<subseteq> restores L)"
proof -
  let ?destroy = "velero_Destroy (nv_kube env (nv_rt env))"
  let ?td = "drill_teardown ''namespace'' ?destroy ve_destroyed opts"
  define dc where "dc = \<lparr>dc_RestoreErr = snd rr, dc_BackupAge = ve_BackupAge vd, dc_RTO = obj_RTO (sp_Objectives (dr_Spec d)),
      dc_K8s = Some (nv_k8s env ctx), dc_Namespace = ve_TargetNS vd\<rparr>"
  obtain checks wb where x2: "Run ctx None (sp_Verify (dr_Spec d)) dc w = (checks, wb)" by fastforce
  have "live wb = live w" by (rule Run_keeps[OF _ _ _ x2]) (use out in \<open>simp_all add: dc_def\<close>)
  then have lb: "velero_live live L rm calm vd wb" using vd(1) velero_live_cong[of live wb w L rm calm vd] by simp
  obtain vd1 wc where x3: "watchdog env ?destroy vd wb = (vd1, wc)" by fastforce
  have lc: "velero_live live L rm calm vd1 wc" by (rule velero_live_watchdog[OF laws rm lb x3])
  obtain destroyed l1 vd2 wd where x4: "?td vd1 wc = (destroyed, l1, vd2, wd)" by (metis prod.collapse)
  define e1 where "e1 = set_Destroyed destroyed ((case fst rr of None \<Rightarrow> e0 | Some t \<Rightarrow> set_Restore t e0)\<lparr>ev_Checks := checks\<rparr>)"
  define dur where "dur = (case fst rr of None \<Rightarrow> 0 | Some t \<Rightarrow> t)"
  obtain y l2 s1' we where x5: "finalize env ctx d opts e1 (snd rr) dur (ve_BackupAge vd) s wd = (y, l2, s1', we)" by (metis prod.collapse)
  obtain derr where dt: "?destroy vd1 wc = (derr, vd2, wd)" "destroyed \<longleftrightarrow> derr = None"
    using velero.teardown_fate[OF velero.fate_watchdog[OF vd(2) x3] x4] by blast
  have "?td vd2 wx = (destroyed, l1, vd2, wx)" for wx by (rule velero.teardown_again[OF x4])
  then have R: "(\<exists>e. r = Some e \<and> es_Destroyed (ev_Sandbox e) = destroyed) \<and> w1 = we"
    using run unfolding velero_restored_def Let_def dc_def[symmetric] x2 prod.case x3 x4 e1_def[symmetric] dur_def[symmetric] x5 by (cases y) auto
  have "live w1 = live wd" using R finalize_keeps[OF out(1) x5] by simp
  moreover have "velero_live live L rm calm vd2 wd" by (rule velero_live_Destroy[OF laws rm lc dt(1)])
  ultimately show ?thesis using velero.destroy_once[OF dt(1)] dt(2) fate R by (auto simp: velero_live_def)
qed

lemma runVelero_live:
  assumes laws: "\<And>c. velero_laws live ctx (nv_kube env c)" and rm: "rm \<longrightarrow> (\<forall>c. velero_removes (nv_kube env c))"
    and out: "outside_keeps live env" "\<And>c. k8s_keeps live (nv_k8s env c)" and calm: "calm \<longrightarrow> (\<forall>w. \<not> nv_fires env w)"
    and run: "runVelero env ctx d opts e s w = Some ((r, path, err), ls, s1, w1)"
    and fate: "(\<exists>e. r = Some e \<and> es_Destroyed (ev_Sandbox e)) \<or> rm"
  shows "namespaces (live w1) = namespaces (live w) \<and> (calm \<longrightarrow> restores (live w1) \<subseteq> restores (live w))"
proof -
  have rm': "rm \<longrightarrow> velero_removes (nv_kube env c)" for c using rm by blast
  obtain pr wa where x1: "Prepare ctx (nv_kube env ctx) (drillName d) (from_Backup (drillFrom d)) (from_Namespace (drillFrom d))
      (sbx_TTL (sp_Sandbox (dr_Spec d))) w = (pr, wa)" by fastforce
  note prep = Prepare_live[OF laws rm' x1, of calm]
  show ?thesis
  proof (cases pr)
    case (Inl msg)
    then show ?thesis using run x1 prep fate by (auto simp: runVelero_def)
  next
    case (Inr vd)
    have p: "ve_restoreName vd = []" "\<not> ve_once vd" "velero_live live (live w) rm calm vd wa" using prep Inr by simp_all
    obtain vd1 wb where x2: "watchdog env (velero_Destroy (nv_kube env (nv_rt env))) vd wa = (vd1, wb)" by fastforce
    define ctx2 where "ctx2 = with_timeout ctx (sbx_TTL (sp_Sandbox (dr_Spec d))) wa"
    define e1 where "e1 = velero_evidence d vd (rt_Now ctx wa) e"
    obtain rr vd2 wc where x3: "velero_Restore ctx2 (nv_kube env ctx2) vd1 wb = Some (rr, vd2, wc)"
      using run unfolding runVelero_def Let_def x1 Inr prod.case sum.case x2 ctx2_def[symmetric] by (auto split: option.splits)
    obtain ls' where x4: "velero_restored env ctx2 d opts e1 vd2 rr s wc = ((r, path, err), ls', s1, w1)"
      using run unfolding runVelero_def Let_def x1 Inr prod.case sum.case x2 ctx2_def[symmetric] x3 option.case e1_def[symmetric] by (auto split: prod.splits)
    have lb: "velero_live live (live w) rm calm vd1 wb" by (rule velero_live_watchdog[OF laws rm' p(3) x2])
    have n1: "ve_restoreName vd1 = []" "calm \<longrightarrow> \<not> ve_once vd1"
    proof -
      obtain de vd' w' where "velero_Destroy (nv_kube env (nv_rt env)) vd wa = (de, vd', w')" by (metis prod.collapse)
      then show "ve_restoreName vd1 = []" using x2 p(1) velero_Destroy_names by (fastforce simp: watchdog_def split: if_splits)
      show "calm \<longrightarrow> \<not> ve_once vd1" using calm x2 p(2) by (auto simp: watchdog_def split: if_splits)
    qed
    have laws2: "velero_laws live ctx2 (nv_kube env c)" for c using laws by (simp add: ctx2_def)
    have lc: "velero_live live (live w) rm calm vd2 wc" by (rule velero_Restore_live[OF laws2 x3 lb n1])
    have "velero.fate_known vd" using p(2) by (simp add: velero.fate_known_def)
    then have fk: "velero.fate_known vd2" using velero.fate_watchdog[OF _ x2] velero_Restore_keeps[OF x3] by blast
    have sl: "live (rt_Sleep ctx2 t v) = live v" for t v using laws2 by (simp add: velero_laws_def)
    show ?thesis by (rule velero_restored_live[OF laws rm' out sl lc fk x4 fate])
  qed
qed

text \<open>
  C4: no ephemeral namespace outlives a Velero drill. Let the cluster create and delete namespaces and restore objects as documented and no other call
  touch them. When a Velero drill comes back, with whatever result, and either its evidence says that the namespace was destroyed or deletions always
  work, exactly the namespaces exist that existed before it, whether or not the TTL watchdog fired on the way. If the watchdog did not fire, no new
  restore object is left either. A create of a namespace that reports an error is assumed to have created nothing.
\<close>

theorem velero_drill_leaves_nothing:
  assumes "src_Driver (drillSource d) = ''velero''" and "\<forall>c. velero_laws live ctx (nv_kube env c)"
    and "outside_keeps live env" and "\<forall>c. k8s_keeps live (nv_k8s env c)"
    and "drill_Run env ctx d opts s w = Some ((r, path, err), ls, t, w1)"
    and "(\<exists>e. r = Some e \<and> es_Destroyed (ev_Sandbox e)) \<or> (\<forall>c. velero_removes (nv_kube env c))"
  shows "namespaces (live w1) = namespaces (live w) \<and> ((\<forall>w. \<not> nv_fires env w) \<longrightarrow> restores (live w1) \<subseteq> restores (live w))"
proof -
  define ctx1 where "ctx1 = with_timeout ctx (i64 (sbx_TTL (sp_Sandbox (dr_Spec d)) + 30 * Minute)) w"
  have laws: "velero_laws live ctx1 (nv_kube env c)" for c using assms(2) by (simp add: ctx1_def)
  have run: "runVelero env ctx1 d opts (start_evidence opts d (rt_Now ctx w)) s w = Some ((r, path, err), ls, t, w1)"
    using assms(1,5) unfolding drill_Run_def Let_def ctx1_def[symmetric] by simp
  show ?thesis
    by (rule runVelero_live[OF laws _ assms(3) _ _ run, where rm = "\<forall>c. velero_removes (nv_kube env c)"]) (use assms(4,6) in auto)
qed

text \<open>
  The exception is a race of the code: \<open>Restore\<close> does not look whether the watchdog has torn the drill down. A restore object created after the teardown is
  kept by every later call of \<open>Destroy\<close>, which returns what the first one returned.
\<close>

lemma restore_after_teardown_stays:
  assumes "velero_laws live rt api" and "velero_Restore rt api d w = Some ((Some t, err), d1, w1)" and "ve_once d"
  shows "RRestore (ve_restoreName d1) \<in> live w1 \<and> velero_Destroy api d1 v = (ve_destroyErr d, d1, v)"
proof (rule velero_Restore_steps[OF assms(1,2)])
  fix n assume "d1 = d\<lparr>ve_restoreName := n\<rparr>" "Some t \<noteq> None \<Longrightarrow> RRestore n \<in> live w1"
  then show ?thesis using velero.again[of d1 api v] assms(3) by simp
qed

end
