(* ===== verification/FD_Demo.thy ===== *)
theory FD_Demo
  imports FD_Guarantees FD_Ephemeral
begin

text \<open>A complete drill, evaluated: the witnesses of the properties of \<open>FD_Drill\<close>, \<open>FD_Lifetime\<close>, \<open>FD_Ephemeral\<close> and \<open>FD_Guarantees\<close>.\<close>

section \<open>A drill evaluated\<close>

text \<open>An outside that keeps the time and the list of what exists; the calls are those of \<open>demo_docker\<close> and \<open>demo_kube\<close>.\<close>

type_synonym world = "gotime \<times> resource list"

definition demo_wrt :: "world Runtime" where
  "demo_wrt = \<lparr>rt_Now = fst, rt_Sleep = \<lambda>d w. (fst w + d, snd w), rt_CtxErr = \<lambda>w. None\<rparr>"

definition demo_wdocker :: "world Docker" where
  "demo_wdocker = \<lparr>dk_New = Pair None, dk_Ping = Pair None,
     dk_NetworkCreate = \<lambda>n w. (Inr (fresh_id (snd w)), fst w, RNetwork (fresh_id (snd w)) # snd w),
     dk_ImagePull = \<lambda>i. Pair None, dk_PullWait = \<lambda>i. Pair None, dk_ParsePort = Inr,
     dk_ContainerCreate = \<lambda>c w. (Inr (fresh_id (snd w)), fst w, RContainer (fresh_id (snd w)) # snd w), dk_ContainerStart = \<lambda>c. Pair None,
     dk_Inspect = \<lambda>c p. Pair (Inr (Some [''49153''])), dk_ContainerRemove = \<lambda>i w. (None, fst w, removeAll (RContainer i) (snd w)),
     dk_NetworkRemove = \<lambda>i w. (None, fst w, removeAll (RNetwork i) (snd w)), dk_ExecCreate = \<lambda>c cmd i. Pair (Inr ''e''), dk_ExecAttach = \<lambda>x. Pair None,
     dk_ExecStream = \<lambda>x i. Pair ([''ok''], None), dk_ExecInspect = \<lambda>x. Pair (Inr 0), dk_Rand = \<lambda>n. Pair (replicate n CHR ''r'')\<rparr>"

definition demo_put :: "resource \<Rightarrow> world \<Rightarrow> msg option \<times> world" where
  "demo_put r w = (if r \<in> set (snd w) then (Some (Msg ''already exists'' []), w) else (None, fst w, r # snd w))"

definition demo_drop :: "resource \<Rightarrow> world \<Rightarrow> msg option \<times> world" where
  "demo_drop r w = (if r \<in> set (snd w) then (None, fst w, removeAll r (snd w)) else (Some (Msg ''not found'' []), w))"

definition demo_wkube :: "world Kube" where
  "demo_wkube = \<lparr>ku_InCluster = Pair True, ku_Kubeconfig = Pair None, ku_NewClient = Pair None, ku_NewDynamic = Pair None,
     ku_IsAlreadyExists = \<lambda>e. e = Msg ''already exists'' [], ku_IsNotFound = \<lambda>e. e = Msg ''not found'' [],
     ku_CreateNamespace = \<lambda>n l a. demo_put (RNamespace n), ku_CreatePolicy = \<lambda>p. Pair None,
     ku_CreatePod = \<lambda>m. demo_put (RPod (pm_Namespace m) (pm_Name m)), ku_GetPod = \<lambda>n p. Pair (Inr (''Running'', ''10.0.0.7'')),
     ku_DeletePod = \<lambda>n p. demo_drop (RPod n p), ku_DeleteNamespace = \<lambda>n. demo_drop (RNamespace n),
     ku_Executor = \<lambda>n p c i. Pair None, ku_Stream = \<lambda>n p c i. Pair ([''ok''], None),
     ku_RoundTripper = Pair None, ku_NewForward = \<lambda>n p q. Pair None, ku_Forward = \<lambda>n p q. Pair PfReady, ku_GetPorts = \<lambda>n p. Pair (Inr [49153]),
     ku_Rand = \<lambda>n. Pair (replicate n CHR ''r''), ku_GetBackup = \<lambda>b. Pair (Inr \<lparr>vb_Phase = ''Completed'', vb_Created = 0, vb_Completion = None\<rparr>),
     ku_ParseRFC3339 = \<lambda>s. None, ku_CreateRestore = \<lambda>c. demo_put (RRestore (cr_Name c)),
     ku_GetRestore = \<lambda>n. Pair (Inr \<lparr>vs_Phase = ''Completed'', vs_Warnings = 0, vs_Errors = 0, vs_ValidationErrors = []\<rparr>),
     ku_DeleteRestore = \<lambda>n. demo_drop (RRestore n)\<rparr>"

definition demo_db :: "world DB" where
  "demo_db = \<lparr>db_ScanInt = \<lambda>q. Pair (Inr 5), db_ScanString = \<lambda>q. Pair (Inr ''s''), db_Query = \<lambda>q. Pair (Inr (1, None))\<rparr>"

definition demo_env :: "world Env" where
  "demo_env = \<lparr>nv_rt = demo_wrt, nv_docker = \<lambda>c. demo_wdocker, nv_kube = \<lambda>c. demo_wkube,
     nv_k8s = \<lambda>c. \<lparr>k8s_Pods = \<lambda>n. Pair (Inr []), k8s_Len = \<lambda>k n. Pair (Inr 1)\<rparr>,
     nv_http = \<lambda>c. \<lparr>ht_NewRequest = \<lambda>u. None, ht_Do = \<lambda>r. Pair (Inr \<lparr>rsp_Code = 200, rsp_Status = ''200 OK''\<rparr>), ht_Text = \<lambda>m. Inr []\<rparr>,
     nv_s3 = \<lambda>c w. demo_s3, nv_cd = demo_codecs, nv_js = demo_json, nv_cr = demo_crypto,
     nv_prom = \<lparr>pm_Encode = \<lambda>g. Inr [], pm_Push = \<lambda>u j g. Pair None\<rparr>, nv_tmpl = \<lambda>e. ([], None), nv_home = Inr ''/root'',
     nv_sqlOpen = \<lambda>d n. Pair (Inr demo_db), nv_sqlClose = \<lambda>w. w, nv_fires = \<lambda>w. False\<rparr>"

definition demo_opts :: Options where
  "demo_opts = \<lparr>op_Printer = None, op_EvidenceDir = ''/e'', op_KeyDir = ''/k'', op_Version = ''1''\<rparr>"

definition demo_run_drill :: Drill where
  "demo_run_drill = demo_drill\<lparr>dr_Spec := (dr_Spec demo_drill)\<lparr>sp_Source := (sp_Source (dr_Spec demo_drill))\<lparr>
     src_From := (drillFrom demo_drill)\<lparr>from_Select := [], from_Match := []\<rparr>\<rparr>\<rparr>\<rparr>"

definition demo_key :: string where "demo_key = replicate 64 CHR ''k''"

definition demo_run_os :: OS where
  "demo_run_os = demo_os\<lparr>os_fs := [''/b'' \<mapsto> File ''PGDMP...'' 0, ''/k/firedrill.key'' \<mapsto> File (cr_pemEncode demo_crypto privPEMType demo_key) 0]\<rparr>"

lemma demo_env_sel [simp]:
  "nv_rt demo_env = demo_wrt" "nv_docker demo_env c = demo_wdocker" "nv_kube demo_env c = demo_wkube" "nv_s3 demo_env c w = demo_s3"
  "nv_cd demo_env = demo_codecs" "nv_js demo_env = demo_json" "nv_cr demo_env = demo_crypto" "nv_sqlOpen demo_env x y = Pair (Inr demo_db)"
  "nv_sqlClose demo_env w = w" "nv_fires demo_env w = False"
  by (simp_all add: demo_env_def)

lemma demo_run_drill_sel [simp]:
  "drillName demo_run_drill = ''pay-1''" "src_Driver (drillSource demo_run_drill) = ''postgres''" "src_Format (drillSource demo_run_drill) = []"
  "sbx_Provider (sp_Sandbox (dr_Spec demo_run_drill)) = ''docker''" "rep_Sign (sp_Report (dr_Spec demo_run_drill))"
  "\<not> rep_HTML (sp_Report (dr_Spec demo_run_drill))" "rep_Sinks (sp_Report (dr_Spec demo_run_drill)) = []"
  "sp_Verify (dr_Spec demo_run_drill) = [demo_check\<lparr>RestoreSucceeded := Some ()\<rparr>, demo_check\<lparr>RowCount := Some \<lparr>rc_Query = ''q'', rc_Min = 1\<rparr>\<rparr>]"
  by (simp_all add: demo_run_drill_def demo_drill_def)

lemma demo_opts_sel [simp]: "op_EvidenceDir demo_opts = ''/e''" "op_KeyDir demo_opts = ''/k''" "say demo_opts ls = []"
  by (simp_all add: demo_opts_def say_def)

lemma demo_run_drill_wf: "Validate demo_run_drill = None"
proof -
  have "glob_ok []" by code_simp
  then show ?thesis unfolding Validate_None
  by (simp add: demo_run_drill_def wf_drill_def wf_engine_drill_def wf_artifact_def dns_label_def demo_drill_def
    demo_check_def wf_check_def set_fields_def provesData_def isSQL_def isK8s_def allowed_formats_def
    is_lower_alnum_def is_label_char_def is_digit_def)
qed

lemma demo_plain:
  "decompress demo_codecs (bytes_reader ''PGDMP...'') = Inr (bytes_reader ''PGDMP...'', [])"
  "decrypt demo_codecs (bytes_reader ''PGDMP...'') None s = (Inr (bytes_reader ''PGDMP...'', []), s)"
proof -
  show "decompress demo_codecs (bytes_reader ''PGDMP...'') = Inr (bytes_reader ''PGDMP...'', [])" by code_simp
  have "peek (maxEncryptionMagic demo_codecs) (bytes_reader ''PGDMP...'') = (''PGDMP...'', Some None)" by code_simp
  moreover have "detectEncryption demo_codecs ''PGDMP...'' = []" by code_simp
  ultimately show "decrypt demo_codecs (bytes_reader ''PGDMP...'') None s = (Inr (bytes_reader ''PGDMP...'', []), s)"
    by (simp add: decrypt_def)
qed

lemma demo_from_sel:
  "from_Type (drillFrom demo_run_drill) = ''file''" "from_URI (drillFrom demo_run_drill) = ''/b''" "from_Select (drillFrom demo_run_drill) = []"
  "from_Decrypt (drillFrom demo_run_drill) = None" "from_MaxBytes (drillFrom demo_run_drill) = 0"
  by (simp_all add: demo_run_drill_def demo_drill_def)

lemma demo_run_os_healthy: "os_healthy demo_run_os" "os_fs demo_run_os ''/b'' = Some (File ''PGDMP...'' 0)"
  by (simp_all add: demo_run_os_def os_healthy_def demo_os_def)

lemma demo_fetch:
  "\<exists>b s1. Fetch demo_codecs demo_s3 (drillFrom demo_run_drill) demo_run_os = (Inr b, s1) \<and> bk_cleanup b = None \<and> bk_Path b = ''/b'' \<and>
     bk_ModTime b = 0 \<and> os_frame {} demo_run_os s1"
  using os_Stat_healthy[OF demo_run_os_healthy] os_ReadFile_healthy[of "os_step demo_run_os" "''/b''" "''PGDMP...''" 0] demo_run_os_healthy
  by (simp add: Fetch_def fetchFile_def demo_from_sel demo_plain Let_def) (simp add: os_frame_def)

lemma demo_exec: "docker_Exec demo_wdocker cid cmd inp w = ((0, ''ok'', None), w)"
proof -
  have "nat MaxExecOutput \<ge> 2" by (simp add: MaxExecOutput_def)
  then have "lb_collect MaxExecOutput [''ok''] = ''ok''" by (simp add: lb_collect_take)
  then show ?thesis by (simp add: docker_Exec_def demo_wdocker_def Let_def)
qed

lemma demo_wdocker_calls:
  "dk_New demo_wdocker = Pair None" "dk_Ping demo_wdocker = Pair None" "dk_ImagePull demo_wdocker i = Pair None"
  "dk_PullWait demo_wdocker i = Pair None" "dk_ParsePort demo_wdocker = Inr" "dk_ContainerStart demo_wdocker i = Pair None"
  "dk_Inspect demo_wdocker i p = Pair (Inr (Some [''49153'']))" "dk_Rand demo_wdocker n = Pair (replicate n CHR ''r'')"
  "dk_NetworkCreate demo_wdocker i w = (Inr (fresh_id (snd w)), fst w, RNetwork (fresh_id (snd w)) # snd w)"
  "dk_ContainerCreate demo_wdocker c w = (Inr (fresh_id (snd w)), fst w, RContainer (fresh_id (snd w)) # snd w)"
  by (simp_all add: demo_wdocker_def)

lemma demo_provision:
  assumes "\<And>v. fst v = fst w \<Longrightarrow> rt_CtxErr ctx v = None" and "\<not> cf_ColdStart cfg"
  shows "\<exists>x w1. drill_Provision demo_env ctx ''docker'' cfg w = (Inr (SbDocker x), w1) \<and> fst w1 = fst w"
proof -
  have "ready_pass (\<lambda>cmd. docker_Exec demo_wdocker cid cmd None) cmds v = (True, v)" for cid cmds v
    by (induction cmds) (simp_all add: demo_exec)
  then have ready: "docker_waitReady ctx (\<lambda>cmd. docker_Exec demo_wdocker cid cmd None) cmds v = (None, v)" if "fst v = fst w" for cid cmds v
    by (rule docker_waitReady_at_once) (use assms(1) that in simp)
  show ?thesis using assms(2)
    by (simp add: drill_Provision_def docker_Provision_def docker_create_def docker_boot_def randomHex_def Let_def demo_wdocker_calls ready)
qed

lemma demo_restore:
  assumes "os_healthy s" and "os_fs s ''/b'' = Some (File ''PGDMP...'' 0)"
  shows "\<exists>res s1. Restore Postgres ctx (docker_box demo_wdocker x) ''/b'' (drillSource demo_run_drill) s w = Some ((Some res, None), s1, w) \<and>
     rr_Duration res = time_Sub (rt_Now ctx w) (rt_Now ctx w) \<and> os_frame {} s s1"
  using assms
  by (simp add: os_Open_def os_Stream_def detectFormat_def run_restore_def docker_box_def demo_exec Let_def) (simp add: os_frame_def)

lemma demo_finalize:
  assumes "os_healthy s" and "os_fs s = os_fs demo_run_os" and "ev_Drill e0 = ''pay-1''"
  shows "\<exists>e path s1. finalize demo_env ctx demo_run_drill demo_opts e0 r dur age s w = ((e, path, None), [], s1, w) \<and> os_healthy s1 \<and>
     path = evidence_path e ''/e''"
proof -
  define e where "e = (judge demo_run_drill e0 r dur age)\<lparr>ev_FinishedAt := rt_Now ctx w\<rparr>"
  have pl: "plain_name (evidence_name e)" by (rule evidence_name_plain) (simp add: e_def assms(3))
  have "dir_prefix ''/e'' = ''/e/''" "dir_prefix ''/k'' = ''/k/''" by code_simp+
  moreover have "plain_name ''firedrill.key''" by code_simp
  ultimately have p: "path_Join [''/e'', evidence_name e] = ''/e/'' @ evidence_name e" "path_Join [''/k'', ''firedrill.key''] = ''/k/firedrill.key''"
    using path_Join_plain[OF pl, of "''/e''"] path_Join_plain[of "''firedrill.key''" "''/k''"] by simp_all
  let ?p = "''/e/'' @ evidence_name e"
  obtain res s1 where x1: "evidence_Write demo_json e ''/e'' s = (res, s1)" by fastforce
  have w: "res = Inr ?p" "os_healthy s1" "os_fs s1 ''/k/firedrill.key'' = os_fs demo_run_os ''/k/firedrill.key''" "\<exists>d m. os_fs s1 ?p = Some (File d m)"
    "os_fs s1 (?p @ ''.sig'') = None" "os_fs s1 (?p @ ''.intoto.jsonl'') = None"
    using x1 assms(1,2) by (auto simp: evidence_Write_def Canonical_def os_MkdirAll_def os_WriteFile_def os_Rename_def p Let_def demo_run_os_def
        demo_json_def os_healthy_def)
  have k: "cr_pemDecode demo_crypto (cr_pemEncode demo_crypto privPEMType demo_key) = Some (privPEMType, demo_key)" "length demo_key = 64"
    using demo_laws(3) by (simp_all add: pem_roundtrip_def demo_key_def)
  have l: "LoadPrivateKey demo_crypto ''/k'' s1 = (Inr demo_key, os_step s1)"
    using w(2,3) k by (simp add: LoadPrivateKey_def p os_ReadFile_def demo_run_os_def)
  obtain rs s2 where x2: "Sign demo_json demo_crypto ?p demo_key (os_step s1) = (rs, s2)" by fastforce
  have g: "\<exists>q. rs = Inr q" "os_healthy s2" "\<exists>d m. os_fs s2 ?p = Some (File d m)" "os_fs s2 (?p @ ''.intoto.jsonl'') = None"
    using x2 w by (auto simp: Sign_def os_ReadFile_def os_WriteFile_def Let_def demo_json_def os_healthy_def)
  obtain ra s3 where x3: "Attest demo_json demo_crypto ?p demo_key s2 = (ra, s3)" by fastforce
  have a: "\<exists>q. ra = Inr q" "os_healthy s3"
    using x3 g by (auto simp: Attest_def os_ReadFile_def os_WriteFile_def Let_def demo_json_def os_healthy_def)
  show ?thesis
    using x1 w(1) l x2 g(1) x3 a p(1)
    by (auto simp: finalize_def Let_def e_def[symmetric] drill_sign_def drill_html_def drill_sinks_def)
qed

lemma demo_checks:
  assumes "dc_RestoreErr dc = None"
  shows "\<exists>rs. Run ctx (NewSQL (Some demo_db) cq) (sp_Verify (dr_Spec demo_run_drill)) dc w = (rs, w) \<and> list_all check_proven rs \<and>
     list_ex (\<lambda>r. vr_Passed r \<and> dataCheckNames (vr_Name r)) rs"
  using assms by (simp add: runOne_def demo_check_def NewSQL_def dataCheck_def requireEngine_def rowCount_def sql_Count_def demo_db_def Let_def
      check_proven_def dataCheckNames_def)

lemma demo_judged:
  "list_all check_proven (ev_Checks e) \<Longrightarrow> list_ex (\<lambda>r. vr_Passed r \<and> dataCheckNames (vr_Name r)) (ev_Checks e) \<Longrightarrow>
   ev_Verified (judge demo_run_drill e None 0 0)"
  by (simp add: judge_def verdict_loop_spec Let_def demo_run_drill_def demo_drill_def)

lemma demo_watchdog: "watchdog demo_env f y v = (y, v)"
  by (simp add: watchdog_def)

lemma demo_drill_Run:
  "\<exists>e t w1. drill_Run demo_env demo_wrt demo_run_drill demo_opts demo_run_os (0, []) = Some ((Some e, evidence_path e ''/e'', None), [], t, w1) \<and>
     ev_Verified e \<and> os_healthy t"
proof -
  define ctx where "ctx = with_timeout demo_wrt (i64 (sbx_TTL (sp_Sandbox (dr_Spec demo_run_drill)) + 30 * Minute)) (0, [])"
  have now: "rt_Now ctx = fst" by (simp add: ctx_def demo_wrt_def)
  have ttl: "sbx_TTL (sp_Sandbox (dr_Spec demo_run_drill)) = Hour" by (simp add: demo_run_drill_def demo_drill_def)
  have c1: "rt_CtxErr ctx v = None" if "fst v = 0" for v
    using that by (simp add: ctx_def with_timeout_def demo_wrt_def ttl i64_def)
  obtain b s1 where f: "Fetch demo_codecs demo_s3 (drillFrom demo_run_drill) demo_run_os = (Inr b, s1)" "bk_cleanup b = None" "bk_Path b = ''/b''"
    "bk_ModTime b = 0" "os_frame {} demo_run_os s1" using demo_fetch by blast
  have s1: "os_healthy s1" "os_fs s1 = os_fs demo_run_os"
    using f(5) demo_run_os_healthy os_frame_healthy by (auto simp: os_frame_def)
  obtain x w1 where p: "drill_Provision demo_env ctx ''docker'' (drill_config demo_run_drill Postgres) (0, []) = (Inr (SbDocker x), w1)" "fst w1 = 0"
    using demo_provision[of "(0, [])" ctx "drill_config demo_run_drill Postgres"] c1 by (auto simp: drill_config_def)
  define ctx2 where "ctx2 = with_timeout ctx (sbx_TTL (sp_Sandbox (dr_Spec demo_run_drill))) w1"
  obtain res s2 where r: "Restore Postgres ctx2 (docker_box demo_wdocker x) ''/b'' (drillSource demo_run_drill) s1 w1 = Some ((Some res, None), s2, w1)"
    "rr_Duration res = time_Sub (rt_Now ctx2 w1) (rt_Now ctx2 w1)" "os_frame {} s1 s2"
    using demo_restore[OF s1(1), of ctx2 x w1] s1(2) demo_run_os_healthy(2) by auto
  have s2: "os_healthy s2" "os_fs s2 = os_fs demo_run_os" using r(3) s1 os_frame_healthy by (auto simp: os_frame_def)
  have d0: "rr_Duration res = 0" using r(2) by (simp add: time_Sub_def)
  have g: "Get the_registry ''postgres'' = Inr Postgres" by code_simp
  have R: "drill_Run demo_env demo_wrt demo_run_drill demo_opts demo_run_os (0, []) =
      (case drill_restored demo_env ctx2 demo_run_drill demo_opts Postgres b 0
          (backup_evidence demo_run_drill b 0 (start_evidence demo_opts demo_run_drill 0)) (SbDocker x) (Some res, None) s2 w1 of
        (q, ls, s3, w2) \<Rightarrow> Some (q, ls, s3, w2))"
  proof -
    have n: "rt_Now ctx (0, []) = 0" "rt_Now demo_wrt (0, []) = 0" "bk_ModTime b = 0" using now f(4) by (simp_all add: demo_wrt_def)
    have S: "drill_sandboxed demo_env ctx demo_run_drill demo_opts Postgres b 0 e s1 (0, []) =
        (case drill_restored demo_env ctx2 demo_run_drill demo_opts Postgres b 0 e (SbDocker x) (Some res, None) s2 w1 of
          (q, ls, s3, w2) \<Rightarrow> Some (q, ls, s3, w2))" for e
      unfolding drill_sandboxed_def Let_def demo_run_drill_sel p(1) prod.case sum.case ctx2_def[symmetric] demo_watchdog demo_env_sel any_box.simps
        f(3) r(1) option.case
      by (simp split: prod.splits)
    show ?thesis unfolding drill_Run_def Let_def ctx_def[symmetric] demo_env_sel demo_run_drill_sel g sum.case f(1) prod.case n
      by (simp add: S Cleanup_def f(2) time_Sub_def split: prod.splits)
  qed
  define e0 where "e0 = backup_evidence demo_run_drill b 0 (start_evidence demo_opts demo_run_drill 0)"
  define dc where "dc = \<lparr>dc_RestoreErr = None, dc_BackupAge = 0, dc_RTO = obj_RTO (sp_Objectives (dr_Spec demo_run_drill)),
      dc_K8s = None :: world K8s option, dc_Namespace = []\<rparr>"
  obtain rs where rs: "Run ctx2 (NewSQL (Some demo_db) (Some (ChecksumQuery Postgres))) (sp_Verify (dr_Spec demo_run_drill)) dc w1 = (rs, w1)"
    "list_all check_proven rs" "list_ex (\<lambda>r. vr_Passed r \<and> dataCheckNames (vr_Name r)) rs"
    using demo_checks[of dc ctx2 "Some (ChecksumQuery Postgres)" w1] by (auto simp: dc_def)
  let ?td = "drill_teardown ''sandbox'' (sb_Destroy demo_env) any_WasDestroyed demo_opts"
  obtain de l1 sb2 w2 where td: "?td (SbDocker x) w1 = (de, l1, sb2, w2)" by (metis prod.collapse)
  have l1: "l1 = []" using td by (auto simp: drill_teardown_def split: prod.splits option.splits)
  define e1 where "e1 = set_Destroyed de ((set_Restore 0 e0)\<lparr>ev_Checks := rs\<rparr>)"
  have d1: "ev_Drill e1 = ''pay-1''" by (simp add: e1_def e0_def set_Destroyed_def set_Restore_def backup_evidence_def)
  obtain e path s3 where fin: "finalize demo_env ctx2 demo_run_drill demo_opts e1 None 0 0 s2 w2 = ((e, path, None), [], s3, w2)"
    "os_healthy s3" "path = evidence_path e ''/e''" using demo_finalize[OF s2 d1] by blast
  have e: "e = (judge demo_run_drill e1 None 0 0)\<lparr>ev_FinishedAt := rt_Now ctx2 w2\<rparr>" by (rule finalize_evidence[OF fin(1)])
  have v: "ev_Verified e" unfolding e using demo_judged[of e1] rs by (simp add: e1_def)
  have again: "?td sb2 v = (de, l1, sb2, v)" for v by (rule sbx.teardown_again[OF td])
  have fd: "set_Destroyed de e = e" by (rule finalize_Destroyed[OF fin(1)[unfolded e1_def]])
  have eng: "drill_engine demo_env Postgres box src (Some res, None) w1 = (Inr (NewSQL (Some demo_db) (Some (ChecksumQuery Postgres))), True, w1)" for box src
    by (simp add: drill_engine_def Let_def)
  have D: "drill_restored demo_env ctx2 demo_run_drill demo_opts Postgres b 0 e0 (SbDocker x) (Some res, None) s2 w1 =
      ((Some e, path, None), [], s3, w2)"
    unfolding drill_restored_def Let_def fst_conv snd_conv option.case d0 eng prod.case sum.case dc_def[symmetric] rs(1) e1_def[symmetric]
    by (simp add: demo_watchdog td e1_def[symmetric] fin(1) again fd l1 check_lines_def restore_line_def Let_def)
  show ?thesis using R D v fin(2,3) unfolding e0_def by auto
qed


section \<open>Witnesses\<close>

theorem drill_verdict_witness:
  "\<exists>e path ls t w1. drill_Run demo_env demo_wrt demo_run_drill demo_opts demo_run_os (0, []) = Some ((Some e, path, None), ls, t, w1) \<and>
     verdict_of e"
proof -
  obtain e t w1 where r: "drill_Run demo_env demo_wrt demo_run_drill demo_opts demo_run_os (0, []) = Some ((Some e, evidence_path e ''/e'', None), [], t, w1)"
    and v: "ev_Verified e" using demo_drill_Run by blast
  show ?thesis using r v drill_verdict[OF r] by blast
qed

lemma demo_temp: "\<not> prefix (evidence_path e ''/e'') (os_temp demo_run_os n pat)" if "ev_Drill e = ''pay-1''"
proof -
  have "plain_name (evidence_name e)" by (rule evidence_name_plain) (simp add: that)
  moreover have "dir_prefix ''/e'' = ''/e/''" by code_simp
  ultimately have "evidence_path e ''/e'' = ''/e/'' @ evidence_name e" by (simp add: path_Join_plain)
  then show ?thesis by (simp add: demo_run_os_def demo_os_def prefix_def)
qed

lemma demo_drill_name: "drill_Run env ctx d opts s w = Some ((Some e, path, err), ls, t, w1) \<Longrightarrow> ev_Drill e = drillName d"
proof (erule drill_Run_final)
  fix s1 assume "drill_final env d opts e path err s1"
  then show ?thesis unfolding drill_final_def by (elim exE conjE) (auto dest!: finalize_evidence simp: measured_def)
qed

theorem drill_evidence_on_disk_witness:
  "\<exists>e path ls t w1 m. drill_Run demo_env demo_wrt demo_run_drill demo_opts demo_run_os (0, []) = Some ((Some e, path, None), ls, t, w1) \<and>
     os_fs t path = Some (File ''{pay-1}'' m)"
proof -
  obtain e t w1 where r: "drill_Run demo_env demo_wrt demo_run_drill demo_opts demo_run_os (0, []) = Some ((Some e, evidence_path e ''/e'', None), [], t, w1)"
    using demo_drill_Run by blast
  have n: "ev_Drill e = ''pay-1''" using demo_drill_name[OF r] by simp
  have "\<forall>n pat. \<not> prefix (evidence_path e ''/e'') (os_temp demo_run_os n pat)" using demo_temp[OF n] by blast
  from drill_evidence_on_disk[OF demo_run_drill_wf r this] show ?thesis using r n by (auto simp: demo_json_def)
qed

theorem signed_drill_verifies_witness:
  "\<exists>e path ls t w1 res. drill_Run demo_env demo_wrt demo_run_drill demo_opts demo_run_os (0, []) = Some ((Some e, path, None), ls, t, w1) \<and>
     fst (VerifyBundle demo_json demo_crypto path None [] t) = Inr res \<and> br_AttestationChecked res"
proof -
  obtain e t w1 where r: "drill_Run demo_env demo_wrt demo_run_drill demo_opts demo_run_os (0, []) = Some ((Some e, evidence_path e ''/e'', None), [], t, w1)"
    and h: "os_healthy t" using demo_drill_Run by blast
  have n: "ev_Drill e = ''pay-1''" using demo_drill_name[OF r] by simp
  have t: "\<forall>n pat. \<not> prefix (evidence_path e ''/e'') (os_temp demo_run_os n pat)" using demo_temp[OF n] by blast
  from signed_drill_verifies[OF demo_run_drill_wf r t, of "[]"] demo_laws h show ?thesis using r by fastforce
qed

lemma demo_wdocker_laws: "docker_laws (set \<circ> snd) demo_wrt demo_wdocker"
proof -
  have "R (fresh_id w) \<notin> set w" if "\<And>i. res_len (R i) = length i" for R w
    using fresh_id_fresh[of "R (fresh_id w)" w] that by auto
  from this[of RNetwork] this[of RContainer] show ?thesis
    by (auto simp: docker_laws_def keeps_def creates_def removes_def demo_wdocker_def demo_wrt_def fresh_id_def)
qed

lemma demo_forward: "rt_clock demo_wrt" "outside_forward demo_wrt demo_env"
proof -
  show "rt_clock demo_wrt" by (simp add: rt_clock_def demo_wrt_def)
  have "bx_Exec (any_box demo_wdocker demo_wkube sb) cmd inp w = (fst (bx_Exec (any_box demo_wdocker demo_wkube sb) cmd inp w), w)" for sb cmd inp w
    by (cases sb) (simp_all add: docker_box_def demo_exec kube_box_def kube_Exec_def demo_wkube_def Let_def)
  then have "rt_forward demo_wrt (bx_Exec (any_box demo_wdocker demo_wkube sb) cmd inp)" for sb cmd inp
    unfolding rt_forward_def by (metis order_refl snd_conv)
  then show "outside_forward demo_wrt demo_env" by (simp add: outside_forward_def) (simp add: rt_forward_def demo_wkube_def)
qed

lemma demo_outside: "outside_keeps live demo_env"
  by (simp add: outside_keeps_def keeps_def db_keeps_def demo_env_def demo_db_def)

text \<open>The pods of the example cluster, and a drill for each of the three kinds of sandbox.\<close>

definition demo_pods :: "world \<Rightarrow> resource set" where
  "demo_pods w = {r \<in> set (snd w). \<exists>n p. r = RPod n p}"

definition demo_pod_drill :: Drill where
  "demo_pod_drill = demo_run_drill\<lparr>dr_Spec := (dr_Spec demo_run_drill)\<lparr>sp_Sandbox := (sp_Sandbox (dr_Spec demo_run_drill))\<lparr>sbx_Provider := ''kubernetes''\<rparr>\<rparr>\<rparr>"

definition demo_velero_drill :: Drill where
  "demo_velero_drill = demo_run_drill\<lparr>dr_Spec := (dr_Spec demo_run_drill)\<lparr>sp_Source := (drillSource demo_run_drill)\<lparr>src_Driver := ''velero''\<rparr>\<rparr>\<rparr>"

lemma demo_wkube_laws: "pod_laws demo_pods demo_wrt demo_wkube" "kube_removes demo_wkube"
  "velero_laws (set \<circ> snd) demo_wrt demo_wkube" "velero_removes demo_wkube"
proof -
  show "pod_laws demo_pods demo_wrt demo_wkube" unfolding pod_laws_def
    by (auto simp: keeps_def adds_def deletes_def demo_wkube_def demo_put_def demo_drop_def demo_pods_def demo_wrt_def)
  show "velero_laws (set \<circ> snd) demo_wrt demo_wkube" unfolding velero_laws_def
    by (auto simp: keeps_def adds_def deletes_def demo_wkube_def demo_put_def demo_drop_def demo_wrt_def)
  show "kube_removes demo_wkube" "velero_removes demo_wkube"
    by (simp_all add: kube_removes_def velero_removes_def demo_wkube_def demo_drop_def)
qed

theorem drill_leaves_nothing_witness:
  "(\<exists>r path err ls t w1. drill_Run demo_env demo_wrt demo_run_drill demo_opts demo_run_os (0, [RNetwork ''bridge'']) = Some ((r, path, err), ls, t, w1) \<and>
      set (snd w1) = {RNetwork ''bridge''}) \<and>
   (\<exists>r path err ls t w1. drill_Run demo_env demo_wrt demo_pod_drill demo_opts demo_run_os (0, [RPod ''shop'' ''web'']) = Some ((r, path, err), ls, t, w1) \<and>
      demo_pods w1 \<subseteq> {RPod ''shop'' ''web''})"
proof
  obtain e path err ls t w1 where r: "drill_Run demo_env demo_wrt demo_run_drill demo_opts demo_run_os (0, [RNetwork ''bridge'']) = Some ((e, path, err), ls, t, w1)"
    using drill_Run_ends[OF demo_forward] by blast
  have "docker_removes demo_wdocker" by (simp add: docker_removes_def demo_wdocker_def)
  with drill_leaves_nothing[OF _ _ demo_outside r, of "set \<circ> snd"] demo_wdocker_laws
  have "set (snd w1) = {RNetwork ''bridge''}" by (simp add: sandbox_laws_def sandbox_removes_def demo_wrt_def)
  then show "\<exists>r path err ls t w1. drill_Run demo_env demo_wrt demo_run_drill demo_opts demo_run_os (0, [RNetwork ''bridge'']) = Some ((r, path, err), ls, t, w1) \<and>
      set (snd w1) = {RNetwork ''bridge''}" using r by blast
next
  obtain e path err ls t w1 where r: "drill_Run demo_env demo_wrt demo_pod_drill demo_opts demo_run_os (0, [RPod ''shop'' ''web'']) = Some ((e, path, err), ls, t, w1)"
    using drill_Run_ends[OF demo_forward] by blast
  have "src_Driver (drillSource demo_pod_drill) = ''postgres''" "sbx_Provider (sp_Sandbox (dr_Spec demo_pod_drill)) = ''kubernetes''"
    by (simp_all add: demo_pod_drill_def)
  with drill_leaves_nothing[OF _ _ demo_outside r, of demo_pods] demo_wkube_laws
  have "demo_pods w1 \<subseteq> demo_pods (0, [RPod ''shop'' ''web''])" by (simp add: sandbox_laws_def sandbox_removes_def demo_pods_def demo_wrt_def)
  then show "\<exists>r path err ls t w1. drill_Run demo_env demo_wrt demo_pod_drill demo_opts demo_run_os (0, [RPod ''shop'' ''web'']) = Some ((r, path, err), ls, t, w1) \<and>
      demo_pods w1 \<subseteq> {RPod ''shop'' ''web''}" using r by (auto simp: demo_pods_def)
qed

theorem velero_drill_leaves_nothing_witness:
  "\<exists>r path err ls t w1. drill_Run demo_env demo_wrt demo_velero_drill demo_opts demo_run_os (0, [RNamespace ''shop'']) = Some ((r, path, err), ls, t, w1) \<and>
     namespaces (set (snd w1)) = {''shop''} \<and> restores (set (snd w1)) = {}"
proof -
  obtain e path err ls t w1 where r: "drill_Run demo_env demo_wrt demo_velero_drill demo_opts demo_run_os (0, [RNamespace ''shop'']) = Some ((e, path, err), ls, t, w1)"
    using drill_Run_ends[OF demo_forward] by blast
  have "src_Driver (drillSource demo_velero_drill) = ''velero''" by (simp add: demo_velero_drill_def)
  moreover have "k8s_keeps (set \<circ> snd) (nv_k8s demo_env c)" for c by (simp add: k8s_keeps_def keeps_def demo_env_def)
  ultimately have "namespaces (set (snd w1)) = namespaces (set [RNamespace ''shop''])" "restores (set (snd w1)) \<subseteq> restores (set [RNamespace ''shop''])"
    using velero_drill_leaves_nothing[OF _ _ demo_outside _ r, of "set \<circ> snd"] demo_wkube_laws by simp_all
  then show ?thesis using r by (simp add: namespaces_def restores_def)
qed

theorem RunAll_complete_witness:
  "\<exists>ocs ls t w1. RunAll demo_env demo_wrt [demo_run_drill, demo_run_drill] demo_opts demo_run_os (0, []) = Some (ocs, ls, t, w1) \<and>
     map oc_Drill ocs = [''pay-1'', ''pay-1'']"
  using RunAll_complete[OF demo_forward, of "[demo_run_drill, demo_run_drill]" demo_opts demo_run_os "(0, [])"] by auto

end
