(* ===== verification/FD_GC.thy ===== *)
theory FD_GC
  imports FD_Kube
begin

text \<open>
  \<open>pkg/gc\<close>: reaping the sandboxes of drills that died.

  The four loops of the two sweeps have one shape: an item is passed over, kept, or due; a due item is only reported in a dry run, and otherwise removed,
  with a failed removal recorded. \<open>reap_loop\<close> is that shape, and each loop gives its own classification, removal and treatment of failures. The listings are
  calls of the records \<open>GcDocker\<close> and \<open>GcKube\<close>; \<open>time.Parse\<close> of RFC 3339 is a parameter.

  The lemmas: a dry run removes nothing; a sweep removes exactly the due items; an item whose lease runs is not due, so a sweep without
  \<open>Force\<close> spares every container and every ephemeral namespace of a running drill (but not the restore object, which has no lease).
\<close>

section \<open>Results and leases\<close>

record GcResult =
  gr_Reaped :: "string list"
  gr_Skipped :: "string list"
  gr_Errors :: "msg list"

record GcOptions =
  go_OlderThan :: duration
  go_DryRun :: bool
  go_Force :: bool

definition gc_empty :: GcResult where
  "gc_empty = \<lparr>gr_Reaped = [], gr_Skipped = [], gr_Errors = []\<rparr>"

definition add_reaped :: "string \<Rightarrow> GcResult \<Rightarrow> GcResult" where
  "add_reaped s r = r\<lparr>gr_Reaped := gr_Reaped r @ [s]\<rparr>"

definition add_skipped :: "string \<Rightarrow> GcResult \<Rightarrow> GcResult" where
  "add_skipped s r = r\<lparr>gr_Skipped := gr_Skipped r @ [s]\<rparr>"

definition add_error :: "msg \<Rightarrow> GcResult \<Rightarrow> GcResult" where
  "add_error e r = r\<lparr>gr_Errors := gr_Errors r @ [e]\<rparr>"

definition ExpiresAtLabel :: string where "ExpiresAtLabel = ''firedrill.expires-at''"

definition expired :: "(string \<Rightarrow> gotime option) \<Rightarrow> GcOptions \<Rightarrow> string \<Rightarrow> gotime \<Rightarrow> gotime \<Rightarrow> bool" where
  "expired parse o' expiresAt created now =
     (case (if expiresAt \<noteq> [] \<and> \<not> go_Force o' then parse expiresAt else None) of
        Some t \<Rightarrow> now > t
      | None \<Rightarrow> time_Sub now created > go_OlderThan o')"

text \<open>A Go map read: the empty string for a missing key.\<close>

definition label :: "(string \<times> string) list \<Rightarrow> string \<Rightarrow> string" where
  "label ls k = (case map_of ls k of None \<Rightarrow> [] | Some v \<Rightarrow> v)"

section \<open>The loop\<close>

datatype gc_class = Pass | Keep string | Due string

fun reap_loop ::
  "bool \<Rightarrow> ('i \<Rightarrow> gc_class) \<Rightarrow> ('i \<Rightarrow> 'w \<Rightarrow> msg option \<times> 'w) \<Rightarrow> (string \<Rightarrow> msg \<Rightarrow> GcResult \<Rightarrow> GcResult) \<Rightarrow> 'i list \<Rightarrow> GcResult \<Rightarrow> 'w \<Rightarrow> GcResult \<times> 'w"
where
  "reap_loop dry cls rm failed [] res w = (res, w)"
| "reap_loop dry cls rm failed (i # is) res w =
     (case cls i of
        Pass \<Rightarrow> reap_loop dry cls rm failed is res w
      | Keep s \<Rightarrow> reap_loop dry cls rm failed is (add_skipped s res) w
      | Due s \<Rightarrow>
          if dry then reap_loop dry cls rm failed is (add_reaped (s @ '' (dry-run)'') res) w
          else (case rm i w of
            (Some e, w1) \<Rightarrow> reap_loop dry cls rm failed is (failed s e res) w1
          | (None, w1) \<Rightarrow> reap_loop dry cls rm failed is (add_reaped s res) w1))"

section \<open>Docker\<close>

record ContainerItem =
  ci_ID :: string
  ci_Names :: "string list"
  ci_Labels :: "(string \<times> string) list"
  ci_Created :: gotime

record NetworkItem =
  ni_ID :: string
  ni_Name :: string
  ni_Created :: gotime

record 'w GcDocker =
  gd_ContainerList :: "'w \<Rightarrow> ContainerItem list res \<times> 'w"
  gd_NetworkList :: "'w \<Rightarrow> NetworkItem list res \<times> 'w"

definition firstName :: "string list \<Rightarrow> string" where
  "firstName names = (case names of [] \<Rightarrow> ''?'' | n # _ \<Rightarrow> n)"

definition container_name :: "ContainerItem \<Rightarrow> string" where
  "container_name c = (let n = firstName (ci_Names c) in if hasPrefix n ''/'' then tl n else n)"

definition container_class :: "(string \<Rightarrow> gotime option) \<Rightarrow> GcOptions \<Rightarrow> gotime \<Rightarrow> ContainerItem \<Rightarrow> gc_class" where
  "container_class parse o' now c =
     (if label (ci_Labels c) ''firedrill'' \<noteq> ''sandbox'' then Pass
      else if \<not> expired parse o' (label (ci_Labels c) ExpiresAtLabel) (ci_Created c) now then Keep (''container '' @ container_name c)
      else Due (''container '' @ container_name c))"

definition network_class :: "GcOptions \<Rightarrow> gotime \<Rightarrow> NetworkItem \<Rightarrow> gc_class" where
  "network_class o' now nw =
     (if \<not> hasPrefix (ni_Name nw) ''firedrill-'' then Pass
      else if time_Sub now (ni_Created nw) \<le> go_OlderThan o' \<and> \<not> go_Force o' then Keep (''network '' @ ni_Name nw)
      else Due (''network '' @ ni_Name nw))"

definition gc_error :: "string \<Rightarrow> msg \<Rightarrow> GcResult \<Rightarrow> GcResult" where
  "gc_error s e = add_error (Msg ''%s: %v'' [AStr s, AErr e])"

definition gc_in_use :: "string \<Rightarrow> msg \<Rightarrow> GcResult \<Rightarrow> GcResult" where
  "gc_in_use s e = add_skipped (s @ '' (in use)'')"

definition SweepDocker ::
  "'w Runtime \<Rightarrow> (string \<Rightarrow> gotime option) \<Rightarrow> 'w Docker \<Rightarrow> 'w GcDocker \<Rightarrow> GcOptions \<Rightarrow> 'w \<Rightarrow> (GcResult option \<times> msg option) \<times> 'w" where
  "SweepDocker rt parse api gd o' w =
     (case dk_New api w of
        (Some e, w1) \<Rightarrow> ((None, Some (Msg ''connecting to docker: %w'' [AErr e])), w1)
      | (None, w1) \<Rightarrow>
     (case dk_Ping api w1 of
        (Some e, w2) \<Rightarrow> ((None, Some (Msg ''cannot reach the Docker daemon - is Docker running? (%w)'' [AErr e])), w2)
      | (None, w2) \<Rightarrow>
     (let now = rt_Now rt w2 in
      case gd_ContainerList gd w2 of
        (Inl e, w3) \<Rightarrow> ((None, Some (Msg ''listing containers: %w'' [AErr e])), w3)
      | (Inr cs, w3) \<Rightarrow>
     (case reap_loop (go_DryRun o') (container_class parse o' now) (\<lambda>c. dk_ContainerRemove api (ci_ID c)) gc_error cs gc_empty w3 of (res, w4) \<Rightarrow>
     (case gd_NetworkList gd w4 of
        (Inl e, w5) \<Rightarrow> ((Some res, Some (Msg ''listing networks: %w'' [AErr e])), w5)
      | (Inr nws, w5) \<Rightarrow>
     (case reap_loop (go_DryRun o') (network_class o' now) (\<lambda>n. dk_NetworkRemove api (ni_ID n)) gc_in_use nws res w5 of (res2, w6) \<Rightarrow>
      ((Some res2, None), w6)))))))"

section \<open>Kubernetes\<close>

record PodItem =
  pi_Namespace :: string
  pi_Name :: string
  pi_Annotations :: "(string \<times> string) list"
  pi_Created :: gotime

record NamespaceItem =
  nsi_Name :: string
  nsi_Phase :: string
  nsi_Annotations :: "(string \<times> string) list"
  nsi_Created :: gotime

record RestoreItem =
  ri_Name :: string
  ri_Created :: gotime

text \<open>The listings are by the labels of the source.\<close>

record 'w GcKube =
  gk_Pods :: "'w \<Rightarrow> PodItem list res \<times> 'w"
  gk_Namespaces :: "'w \<Rightarrow> NamespaceItem list res \<times> 'w"
  gk_Restores :: "'w \<Rightarrow> RestoreItem list res \<times> 'w"

definition pod_class :: "(string \<Rightarrow> gotime option) \<Rightarrow> GcOptions \<Rightarrow> gotime \<Rightarrow> PodItem \<Rightarrow> gc_class" where
  "pod_class parse o' now p =
     (let i = ''pod '' @ pi_Namespace p @ ''/'' @ pi_Name p in
      if \<not> expired parse o' (label (pi_Annotations p) ExpiresAtLabel) (pi_Created p) now then Keep i else Due i)"

definition namespace_class :: "(string \<Rightarrow> gotime option) \<Rightarrow> GcOptions \<Rightarrow> gotime \<Rightarrow> NamespaceItem \<Rightarrow> gc_class" where
  "namespace_class parse o' now ns =
     (let i = ''namespace '' @ nsi_Name ns in
      if nsi_Phase ns = ''Terminating'' then Keep (i @ '' (terminating)'')
      else if \<not> expired parse o' (label (nsi_Annotations ns) ExpiresAtLabel) (nsi_Created ns) now then Keep i else Due i)"

definition restore_class :: "GcOptions \<Rightarrow> gotime \<Rightarrow> RestoreItem \<Rightarrow> gc_class" where
  "restore_class o' now r =
     (let i = ''restore '' @ ri_Name r in
      if time_Sub now (ri_Created r) \<le> go_OlderThan o' \<and> \<not> go_Force o' then Keep i else Due i)"

definition unless_gone :: "'w Kube \<Rightarrow> ('i \<Rightarrow> 'w \<Rightarrow> msg option \<times> 'w) \<Rightarrow> 'i \<Rightarrow> 'w \<Rightarrow> msg option \<times> 'w" where
  "unless_gone api rm i w =
     (case rm i w of (err, w1) \<Rightarrow> ((case err of None \<Rightarrow> None | Some e \<Rightarrow> if ku_IsNotFound api e then None else Some e), w1))"

definition sweep_restores ::
  "'w Kube \<Rightarrow> 'w GcKube \<Rightarrow> GcOptions \<Rightarrow> gotime \<Rightarrow> GcResult \<Rightarrow> 'w \<Rightarrow> GcResult \<times> 'w" where
  "sweep_restores api gk o' now res w =
     (case ku_NewDynamic api w of
        (Some _, w1) \<Rightarrow> (res, w1)
      | (None, w1) \<Rightarrow>
         (case gk_Restores gk w1 of
            (Inl _, w2) \<Rightarrow> (res, w2)
          | (Inr rs, w2) \<Rightarrow> reap_loop (go_DryRun o') (restore_class o' now) (unless_gone api (\<lambda>r. ku_DeleteRestore api (ri_Name r))) gc_error rs res w2))"

definition SweepKubernetes ::
  "'w Runtime \<Rightarrow> (string \<Rightarrow> gotime option) \<Rightarrow> 'w Kube \<Rightarrow> 'w GcKube \<Rightarrow> GcOptions \<Rightarrow> 'w \<Rightarrow> (GcResult option \<times> msg option) \<times> 'w" where
  "SweepKubernetes rt parse api gk o' w =
     (case LoadConfig api w of (Inl e, w1) \<Rightarrow> ((None, Some e), w1) | (Inr _, w1) \<Rightarrow>
     (case ku_NewClient api w1 of (Some e, w2) \<Rightarrow> ((None, Some e), w2) | (None, w2) \<Rightarrow>
     (let now = rt_Now rt w2 in
      case gk_Pods gk w2 of
        (Inl e, w3) \<Rightarrow> ((None, Some (Msg ''listing sandbox pods: %w'' [AErr e])), w3)
      | (Inr ps, w3) \<Rightarrow>
     (case reap_loop (go_DryRun o') (pod_class parse o' now) (unless_gone api (\<lambda>p. ku_DeletePod api (pi_Namespace p) (pi_Name p))) gc_error ps
         gc_empty w3 of (res, w4) \<Rightarrow>
     (case gk_Namespaces gk w4 of
        (Inl e, w5) \<Rightarrow> ((Some res, Some (Msg ''listing namespaces: %w'' [AErr e])), w5)
      | (Inr nss, w5) \<Rightarrow>
     (case reap_loop (go_DryRun o') (namespace_class parse o' now) (unless_gone api (\<lambda>n. ku_DeleteNamespace api (nsi_Name n))) gc_error nss
         res w5 of (res2, w6) \<Rightarrow>
     (case sweep_restores api gk o' now res2 w6 of (res3, w7) \<Rightarrow> ((Some res3, None), w7))))))))"

section \<open>What a sweep removes\<close>

definition is_due :: "gc_class \<Rightarrow> bool" where
  "is_due c \<longleftrightarrow> (\<exists>s. c = Due s)"

text \<open>A removal concerns its own object only, whether or not it succeeds.\<close>

definition removes_only :: "('w \<Rightarrow> resource set) \<Rightarrow> resource \<Rightarrow> ('w \<Rightarrow> msg option \<times> 'w) \<Rightarrow> bool" where
  "removes_only live r f \<longleftrightarrow> (\<forall>w. live w - {r} \<subseteq> live (snd (f w)))"

lemma reap_loop_dry: "reap_loop True cls rm failed is res w = (r, w1) \<Longrightarrow> w1 = w"
  by (induction "is" arbitrary: res) (auto split: gc_class.splits)

lemma reap_loop_exact:
  assumes "\<And>i. removes live (R i) (rm i)" and "\<And>i w. fst (rm i w) = None"
  shows "reap_loop False cls rm failed is res w = (r, w1) \<Longrightarrow> live w1 = live w - R ` {i \<in> set is. is_due (cls i)}"
proof (induction "is" arbitrary: res w)
  case (Cons i "is")
  obtain w2 where x: "rm i w = (None, w2)" using assms(2)[of i w] by (metis prod.collapse)
  have "live w2 = live w - {R i}" by (rule removesD[OF assms(1) x])
  then show ?case using Cons.IH Cons.prems x by (cases "cls i") (force simp: is_due_def)+
qed simp

lemma reap_loop_spares:
  assumes "\<And>i. removes_only live (R i) (rm i)"
  shows "reap_loop dry cls rm failed is res w = (r, w1) \<Longrightarrow> \<forall>i \<in> set is. is_due (cls i) \<longrightarrow> R i \<noteq> x \<Longrightarrow> x \<in> live w \<Longrightarrow> x \<in> live w1"
proof (induction "is" arbitrary: res w)
  case (Cons i "is")
  obtain e w2 where y: "rm i w = (e, w2)" by fastforce
  have "x \<in> live w2" if "R i \<noteq> x" using assms[of i] Cons.prems(3) that y unfolding removes_only_def by (metis DiffI singletonD snd_conv subsetD)
  then show ?case using Cons y by (cases "cls i") (auto simp: is_due_def split: if_splits option.splits)
qed simp

definition gd_keeps :: "('w \<Rightarrow> resource set) \<Rightarrow> 'w Docker \<Rightarrow> 'w GcDocker \<Rightarrow> bool" where
  "gd_keeps live api gd \<longleftrightarrow> keeps live (dk_New api) \<and> keeps live (dk_Ping api) \<and> keeps live (gd_ContainerList gd) \<and> keeps live (gd_NetworkList gd)"

text \<open>A sweep that lists both: the two listings, the time it reads, and the states between the loops.\<close>

lemma SweepDocker_ok:
  assumes "SweepDocker rt parse api gd o' w = ((Some res, None), w1)"
  obtains wb cs wc r1 wd nws we where "dk_New api w = (None, snd (dk_New api w))" "dk_Ping api (snd (dk_New api w)) = (None, wb)"
    "gd_ContainerList gd wb = (Inr cs, wc)"
    "reap_loop (go_DryRun o') (container_class parse o' (rt_Now rt wb)) (\<lambda>c. dk_ContainerRemove api (ci_ID c)) gc_error cs gc_empty wc = (r1, wd)"
    "gd_NetworkList gd wd = (Inr nws, we)"
    "reap_loop (go_DryRun o') (network_class o' (rt_Now rt wb)) (\<lambda>n. dk_NetworkRemove api (ni_ID n)) gc_in_use nws r1 we = (res, w1)"
  using assms by (auto simp: SweepDocker_def Let_def split: prod.splits option.splits sum.splits)

text \<open>What is due, in terms of an item's labels, name and age. A sandbox container carries the label \<open>firedrill\<close> with the value \<open>sandbox\<close>; its lease is the time in its
  expiry label, if that can be read.\<close>

definition lease :: "(string \<Rightarrow> gotime option) \<Rightarrow> ContainerItem \<Rightarrow> gotime option" where
  "lease parse c = (case map_of (ci_Labels c) ''firedrill.expires-at'' of None \<Rightarrow> None | Some v \<Rightarrow> if v = [] then None else parse v)"

definition container_due :: "(string \<Rightarrow> gotime option) \<Rightarrow> GcOptions \<Rightarrow> gotime \<Rightarrow> ContainerItem \<Rightarrow> bool" where
  "container_due parse o' now c \<longleftrightarrow> map_of (ci_Labels c) ''firedrill'' = Some ''sandbox'' \<and>
     ((\<exists>t. lease parse c = Some t \<and> \<not> go_Force o' \<and> t < now) \<or>
      ((lease parse c = None \<or> go_Force o') \<and> go_OlderThan o' < time_Sub now (ci_Created c)))"

definition network_due :: "GcOptions \<Rightarrow> gotime \<Rightarrow> NetworkItem \<Rightarrow> bool" where
  "network_due o' now n \<longleftrightarrow> (\<exists>t. ni_Name n = ''firedrill-'' @ t) \<and> (go_Force o' \<or> go_OlderThan o' < time_Sub now (ni_Created n))"

lemma container_due_iff: "is_due (container_class parse o' now c) \<longleftrightarrow> container_due parse o' now c"
  by (auto simp: container_class_def container_due_def is_due_def label_def expired_def lease_def ExpiresAtLabel_def split: option.splits)

lemma network_due_iff: "is_due (network_class o' now n) \<longleftrightarrow> network_due o' now n"
  by (auto simp: network_class_def network_due_def is_due_def hasPrefix_def prefix_def)

text \<open>
  C37: the garbage collector removes exactly what is due. With working removals, a completed sweep leaves of what existed everything but, of the items it listed,
  the containers labelled as firedrill sandboxes whose lease has passed (or, without a readable lease or with \<open>Force\<close>, that are older than the age limit) and the networks
  whose name begins with \<open>firedrill-\<close> that are older than the age limit (or all of them with \<open>Force\<close>); a dry run leaves everything.
\<close>

theorem SweepDocker_exact:
  assumes "docker_laws live rt api" and "docker_removes api" and "gd_keeps live api gd"
    and "SweepDocker rt parse api gd o' w = ((Some res, None), w1)"
    and "wa = snd (dk_Ping api (snd (dk_New api w)))" and "now = rt_Now rt wa"
  shows "\<exists>cs nws wb wc wd. gd_ContainerList gd wa = (Inr cs, wb) \<and> gd_NetworkList gd wc = (Inr nws, wd) \<and>
    live w1 = live w - (if go_DryRun o' then {}
      else (RContainer \<circ> ci_ID) ` {c \<in> set cs. container_due parse o' now c} \<union> (RNetwork \<circ> ni_ID) ` {n \<in> set nws. network_due o' now n})"
proof -
  have rm: "removes live ((RContainer \<circ> ci_ID) c) (dk_ContainerRemove api (ci_ID c))" "removes live ((RNetwork \<circ> ni_ID) n) (dk_NetworkRemove api (ni_ID n))"
    for c n using assms(1) by (simp_all add: docker_laws_def)
  have ok: "fst (dk_ContainerRemove api i v) = None" "fst (dk_NetworkRemove api i v) = None" for i v
    using assms(2) by (simp_all add: docker_removes_def)
  obtain wb cs wc r1 wd nws we where x: "dk_New api w = (None, snd (dk_New api w))" "dk_Ping api (snd (dk_New api w)) = (None, wb)"
    "gd_ContainerList gd wb = (Inr cs, wc)"
    "reap_loop (go_DryRun o') (container_class parse o' (rt_Now rt wb)) (\<lambda>c. dk_ContainerRemove api (ci_ID c)) gc_error cs gc_empty wc = (r1, wd)"
    "gd_NetworkList gd wd = (Inr nws, we)"
    "reap_loop (go_DryRun o') (network_class o' (rt_Now rt wb)) (\<lambda>n. dk_NetworkRemove api (ni_ID n)) gc_in_use nws r1 we = (res, w1)"
    by (rule SweepDocker_ok[OF assms(4)])
  have k: "live (snd (dk_New api w)) = live w" "live wb = live (snd (dk_New api w))" "live wc = live wb" "live we = live wd"
    using assms(3) keepsD x(1,2,3,5) unfolding gd_keeps_def by metis+
  have "live w1 = live w - (if go_DryRun o' then {}
      else (RContainer \<circ> ci_ID) ` {c \<in> set cs. is_due (container_class parse o' (rt_Now rt wb) c)} \<union>
           (RNetwork \<circ> ni_ID) ` {n \<in> set nws. is_due (network_class o' (rt_Now rt wb) n)})"
  proof (cases "go_DryRun o'")
    case True
    then have T: "go_DryRun o' = True" by simp
    have "wd = wc" "w1 = we" using reap_loop_dry[OF x(4)[unfolded T]] reap_loop_dry[OF x(6)[unfolded T]] by simp_all
    then show ?thesis using k True by simp
  next
    case False
    then have F: "go_DryRun o' = False" by simp
    show ?thesis
      using F reap_loop_exact[OF rm(1) ok(1) x(4)[unfolded F]] reap_loop_exact[OF rm(2) ok(2) x(6)[unfolded F]] k by auto
  qed
  moreover have "wa = wb" using assms(5) x(1,2) by simp
  ultimately show ?thesis using x(3,5) assms(6) unfolding container_due_iff network_due_iff by blast
qed

text \<open>The law relied on for \<open>time.Parse\<close>: it reads back, to the second, what \<open>Format\<close> wrote.\<close>

definition rfc3339_reads :: "(string \<Rightarrow> gotime option) \<Rightarrow> bool" where
  "rfc3339_reads parse \<longleftrightarrow> (\<forall>t. year4 t \<longrightarrow> parse (format_RFC3339 t) = Some (go_Truncate_sec t))"

lemma format_RFC3339_nonempty: "year4 t \<Longrightarrow> format_RFC3339 t \<noteq> []"
  using format_utc_length unfolding format_RFC3339_def by (metis list.size(3) numeral_eq_Suc zero_neq_numeral)

lemma leased_not_expired:
  assumes "rfc3339_reads parse" and "\<not> go_Force o'" and "year4 t" and "now \<le> go_Truncate_sec t"
  shows "\<not> expired parse o' (format_RFC3339 t) created now"
  using assms format_RFC3339_nonempty by (auto simp: expired_def rfc3339_reads_def)

lemma leased_not_due:
  assumes "rfc3339_reads parse" and "\<not> go_Force o'" and "year4 t" and "label (ci_Labels c) ExpiresAtLabel = format_RFC3339 t"
    and "now \<le> go_Truncate_sec t"
  shows "\<not> is_due (container_class parse o' now c)"
  using leased_not_expired[OF assms(1-3,5)] assms(4) by (auto simp: container_class_def is_due_def)

text \<open>
  C38: a sweep without \<open>Force\<close> spares running drills. Take a container that \<open>Provision\<close> created, listed with the labels it was created with. As long as the
  collector reads a time that is not past the deadline in the label, the sweep does not remove it, however old it is and however the sweep ends.
\<close>

theorem gc_spares_running_drills:
  assumes "rfc3339_reads parse" and "\<not> go_Force o'" and "year4 (rt_Now rt0 w0 + cf_TTL cfg)"
    and "\<forall>i. removes_only live (RContainer i) (dk_ContainerRemove api i) \<and> removes_only live (RNetwork i) (dk_NetworkRemove api i)"
    and "gd_keeps live api gd"
    and "\<forall>wa cs wb c. gd_ContainerList gd wa = (Inr cs, wb) \<longrightarrow> c \<in> set cs \<longrightarrow> ci_ID c = cid \<longrightarrow>
      ci_Labels c = cs_Labels (docker_spec rt0 cfg name nwID password port w0)"
    and "rt_Now rt (snd (dk_Ping api (snd (dk_New api w)))) \<le> go_Truncate_sec (rt_Now rt0 w0 + cf_TTL cfg)"
    and "SweepDocker rt parse api gd o' w = (r, w1)"
  shows "RContainer cid \<in> live w \<Longrightarrow> RContainer cid \<in> live w1"
proof -
  assume i: "RContainer cid \<in> live w"
  let ?x = "RContainer cid"
  obtain ea wa where x1: "dk_New api w = (ea, wa)" by fastforce
  obtain eb wb where x2: "dk_Ping api wa = (eb, wb)" by fastforce
  obtain rc wc where x3: "gd_ContainerList gd wb = (rc, wc)" by fastforce
  have k: "live wa = live w" "live wb = live wa" "live wc = live wb" using assms(5) keepsD x1 x2 x3 unfolding gd_keeps_def by metis+
  have now: "rt_Now rt wb \<le> go_Truncate_sec (rt_Now rt0 w0 + cf_TTL cfg)" using assms(7) x1 x2 by simp
  have spare: "?x \<in> live wd" if "rc = Inr cs"
    "reap_loop (go_DryRun o') (container_class parse o' (rt_Now rt wb)) (\<lambda>c. dk_ContainerRemove api (ci_ID c)) gc_error cs gc_empty wc = (r1, wd)" for cs r1 wd
  proof (rule reap_loop_spares[where R = "RContainer \<circ> ci_ID", OF _ that(2)])
    show "removes_only live ((RContainer \<circ> ci_ID) c) (dk_ContainerRemove api (ci_ID c))" for c using assms(4) by simp
    show "?x \<in> live wc" using i k by simp
    show "\<forall>c \<in> set cs. is_due (container_class parse o' (rt_Now rt wb) c) \<longrightarrow> (RContainer \<circ> ci_ID) c \<noteq> ?x"
    proof (intro ballI impI notI)
      fix c assume c: "c \<in> set cs" "is_due (container_class parse o' (rt_Now rt wb) c)" "(RContainer \<circ> ci_ID) c = ?x"
      then have "ci_Labels c = cs_Labels (docker_spec rt0 cfg name nwID password port w0)" using assms(6) x3 that(1) by auto
      then have "label (ci_Labels c) ExpiresAtLabel = format_RFC3339 (rt_Now rt0 w0 + cf_TTL cfg)"
        by (simp add: label_def docker_spec_def ExpiresAtLabel_def)
      then show False using leased_not_due[OF assms(1,2,3) _ now] c(2) by blast
    qed
  qed
  have net: "?x \<in> live w'" if "?x \<in> live we" "reap_loop (go_DryRun o') (network_class o' (rt_Now rt wb)) (\<lambda>n. dk_NetworkRemove api (ni_ID n)) gc_in_use nws r1 we = (res, w')"
    for we nws r1 res w'
    by (rule reap_loop_spares[where R = "RNetwork \<circ> ni_ID", OF _ that(2)]) (use assms(4) that(1) in auto)
  have nl: "live we = live wd" if "gd_NetworkList gd wd = (y, we)" for wd y we using assms(5) keepsD that unfolding gd_keeps_def by metis
  show ?thesis
  proof (cases "ea = None \<and> eb = None \<and> res_ok rc")
    case False
    then show ?thesis using assms(8) x1 x2 x3 i k by (auto simp: SweepDocker_def Let_def split: option.splits sum.splits prod.splits)
  next
    case True
    then obtain cs where rc: "rc = Inr cs" by (cases rc) auto
    obtain r1 wd where x4: "reap_loop (go_DryRun o') (container_class parse o' (rt_Now rt wb)) (\<lambda>c. dk_ContainerRemove api (ci_ID c)) gc_error cs gc_empty wc = (r1, wd)"
      by fastforce
    obtain rn we where x5: "gd_NetworkList gd wd = (rn, we)" by fastforce
    have "?x \<in> live we" using spare[OF rc x4] nl[OF x5] by simp
    then show ?thesis using assms(8) True rc x1 x2 x3 x4 x5 net[of we]
      by (cases rn) (auto simp: SweepDocker_def Let_def split: prod.splits)
  qed
qed

section \<open>Sweeping a cluster\<close>

definition gk_keeps :: "('w \<Rightarrow> resource set) \<Rightarrow> 'w Kube \<Rightarrow> 'w GcKube \<Rightarrow> bool" where
  "gk_keeps live api gk \<longleftrightarrow> keeps live (LoadConfig api) \<and> keeps live (ku_NewClient api) \<and> keeps live (ku_NewDynamic api) \<and>
     keeps live (gk_Pods gk) \<and> keeps live (gk_Namespaces gk) \<and> keeps live (gk_Restores gk)"

lemma unless_gone_removes_only: "removes_only live r (rm i) \<Longrightarrow> removes_only live r (unless_gone api rm i)"
  by (simp add: removes_only_def unless_gone_def split_beta)

lemma sweep_restores_spares:
  assumes "\<And>n. removes_only live (RRestore n) (ku_DeleteRestore api n)" and "gk_keeps live api gk" and "RNamespace x \<in> live v"
    and "sweep_restores api gk o' now res v = (res1, w1)"
  shows "RNamespace x \<in> live w1"
proof -
  have ro: "removes_only live ((RRestore \<circ> ri_Name) q) (unless_gone api (\<lambda>r. ku_DeleteRestore api (ri_Name r)) q)" for q
    by (rule unless_gone_removes_only) (simp add: assms(1))
  obtain e va where y1: "ku_NewDynamic api v = (e, va)" by fastforce
  obtain rs vb where y2: "gk_Restores gk va = (rs, vb)" by fastforce
  have "live va = live v" "live vb = live va" using assms(2) y1 y2 keepsD unfolding gk_keeps_def by metis+
  then have b: "RNamespace x \<in> live va" "RNamespace x \<in> live vb" using assms(3) by simp_all
  have "RNamespace x \<in> live w1"
    if "reap_loop (go_DryRun o') (restore_class o' now) (unless_gone api (\<lambda>r. ku_DeleteRestore api (ri_Name r))) gc_error qs res vb = (res1, w1)" for qs
    by (rule reap_loop_spares[where R = "RRestore \<circ> ri_Name", OF ro that _ b(2)]) simp
  then show ?thesis using assms(4) y1 y2 b by (auto simp: sweep_restores_def split: option.splits sum.splits)
qed

text \<open>
  The counterpart for Velero drills: an ephemeral namespace that is listed with the deadline \<open>Prepare\<close> gave it outlives every sweep without \<open>Force\<close> that reads
  a time up to the deadline, however old it is and however the sweep ends.
\<close>

lemma sweep_spares_leased_namespace:
  assumes "rfc3339_reads parse" and "\<not> go_Force o'" and "year4 t"
    and "\<And>n p. removes_only live (RPod n p) (ku_DeletePod api n p)" and "\<And>n. removes_only live (RNamespace n) (ku_DeleteNamespace api n)"
    and "\<And>n. removes_only live (RRestore n) (ku_DeleteRestore api n)" and "gk_keeps live api gk"
    and "\<And>wa nss wb ns. gk_Namespaces gk wa = (Inr nss, wb) \<Longrightarrow> ns \<in> set nss \<Longrightarrow> nsi_Name ns = target \<Longrightarrow>
      label (nsi_Annotations ns) ExpiresAtLabel = format_RFC3339 t"
    and "rt_Now rt (snd (ku_NewClient api (snd (LoadConfig api w)))) \<le> go_Truncate_sec t"
    and "SweepKubernetes rt parse api gk o' w = (r, w1)" and "RNamespace target \<in> live w"
  shows "RNamespace target \<in> live w1"
proof -
  let ?x = "RNamespace target"
  note k = assms(7)[unfolded gk_keeps_def]
  have ro: "removes_only live (RPod (pi_Namespace p) (pi_Name p)) (unless_gone api (\<lambda>p. ku_DeletePod api (pi_Namespace p) (pi_Name p)) p)"
    "removes_only live ((RNamespace \<circ> nsi_Name) n) (unless_gone api (\<lambda>n. ku_DeleteNamespace api (nsi_Name n)) n)"
    for p n by (rule unless_gone_removes_only, simp add: assms(4,5))+
  obtain lc wa where x1: "LoadConfig api w = (lc, wa)" by fastforce
  obtain e2 wb where x2: "ku_NewClient api wa = (e2, wb)" by fastforce
  obtain ps wc where x3: "gk_Pods gk wb = (ps, wc)" by fastforce
  have l: "live wa = live w" "live wb = live w" "live wc = live w" using k x1 x2 x3 keepsD by metis+
  have now: "rt_Now rt wb \<le> go_Truncate_sec t" using assms(9) x1 x2 by simp
  have pods: "?x \<in> live w'" if "?x \<in> live v"
    "reap_loop (go_DryRun o') cls (unless_gone api (\<lambda>p. ku_DeletePod api (pi_Namespace p) (pi_Name p))) gc_error is res v = (res', w')" for cls "is" res v res' w'
    by (rule reap_loop_spares[where R = "\<lambda>p. RPod (pi_Namespace p) (pi_Name p)", OF ro(1) that(2) _ that(1)]) simp
  have nss: "?x \<in> live w'" if "?x \<in> live v" "gk_Namespaces gk u = (Inr ns, v)"
    "reap_loop (go_DryRun o') (namespace_class parse o' (rt_Now rt wb)) (unless_gone api (\<lambda>n. ku_DeleteNamespace api (nsi_Name n))) gc_error ns res v = (res', w')"
    for ns u res v res' w'
  proof (rule reap_loop_spares[where R = "RNamespace \<circ> nsi_Name", OF ro(2) that(3) _ that(1)])
    show "\<forall>n \<in> set ns. is_due (namespace_class parse o' (rt_Now rt wb) n) \<longrightarrow> (RNamespace \<circ> nsi_Name) n \<noteq> ?x"
      using assms(8)[OF that(2)] leased_not_expired[OF assms(1-3) now] by (auto simp: namespace_class_def is_due_def Let_def split: if_splits)
  qed
  have nl: "live v = live u" if "gk_Namespaces gk u = (y, v)" for u y v using k that keepsD by metis
  show ?thesis
  proof (cases "res_ok lc \<and> e2 = None \<and> res_ok ps")
    case False
    then show ?thesis using assms(10,11) l x1 x2 x3 by (auto simp: SweepKubernetes_def Let_def split: option.splits sum.splits prod.splits)
  next
    case True
    then obtain c qs where g: "lc = Inr c" "e2 = None" "ps = Inr qs" by (cases lc; cases ps) auto
    obtain r1 wd where x4: "reap_loop (go_DryRun o') (pod_class parse o' (rt_Now rt wb)) (unless_gone api (\<lambda>p. ku_DeletePod api (pi_Namespace p) (pi_Name p)))
        gc_error qs gc_empty wc = (r1, wd)" by fastforce
    obtain ns we where x5: "gk_Namespaces gk wd = (ns, we)" by fastforce
    have e: "?x \<in> live we" using pods[OF _ x4] nl[OF x5] l(3) assms(11) by simp
    show ?thesis
    proof (cases ns)
      case (Inl err)
      then show ?thesis using assms(10) g x1 x2 x3 x4 x5 e by (simp add: SweepKubernetes_def Let_def)
    next
      case (Inr items)
      obtain r2 wf where x6: "reap_loop (go_DryRun o') (namespace_class parse o' (rt_Now rt wb)) (unless_gone api (\<lambda>n. ku_DeleteNamespace api (nsi_Name n)))
          gc_error items r1 we = (r2, wf)" by fastforce
      have f: "?x \<in> live wf" by (rule nss[OF e x5[unfolded Inr] x6])
      obtain r3 wg where x7: "sweep_restores api gk o' (rt_Now rt wb) r2 wf = (r3, wg)" by fastforce
      then show ?thesis using sweep_restores_spares[OF assms(6,7) f x7] assms(10) g x1 x2 x3 x4 x5 x6 Inr by (simp add: SweepKubernetes_def Let_def)
    qed
  qed
qed

text \<open>The restore object of the same drill has no lease: past the age limit it is due, whatever deadline its namespace has.\<close>

lemma restore_has_no_lease: "go_OlderThan o' < time_Sub now (ri_Created r) \<Longrightarrow> is_due (restore_class o' now r)"
  by (simp add: restore_class_def is_due_def Let_def)

section \<open>A sweep evaluated\<close>

definition demo_gc_rt :: "resource list Runtime" where
  "demo_gc_rt = demo_rt\<lparr>rt_Now := \<lambda>w. 2 * Minute\<rparr>"

definition demo_gd :: "resource list GcDocker" where
  "demo_gd = \<lparr>gd_ContainerList = Pair (Inr [
       \<lparr>ci_ID = ''c1'', ci_Names = [''/firedrill-pay-1''], ci_Labels = cs_Labels (docker_spec demo_rt demo_config ''n'' ''i'' ''p'' ''5432'' []), ci_Created = 0\<rparr>,
       \<lparr>ci_ID = ''c2'', ci_Names = [''/old''], ci_Labels = [(''firedrill'', ''sandbox'')], ci_Created = 0\<rparr>,
       \<lparr>ci_ID = ''c3'', ci_Names = [''/shop''], ci_Labels = [(''app'', ''shop'')], ci_Created = 0\<rparr>]),
     gd_NetworkList = Pair (Inr [\<lparr>ni_ID = ''n1'', ni_Name = ''firedrill-old'', ni_Created = 0\<rparr>])\<rparr>"

definition demo_gc_world :: "resource list" where
  "demo_gc_world = [RContainer ''c1'', RContainer ''c2'', RContainer ''c3'', RNetwork ''n1'']"

definition demo_gc_opts :: GcOptions where
  "demo_gc_opts = \<lparr>go_OlderThan = Minute, go_DryRun = False, go_Force = False\<rparr>"

lemma demo_gc_keeps: "gd_keeps set demo_docker demo_gd"
  by (simp add: gd_keeps_def keeps_def demo_docker_def demo_gd_def)

lemma demo_parse: "rfc3339_reads (Some \<circ> read_stamp)"
  by (simp add: rfc3339_reads_def format_RFC3339_def read_stamp_format)

lemma demo_sweeps:
  "\<exists>res w1. SweepDocker demo_gc_rt (Some \<circ> read_stamp) demo_docker demo_gd demo_gc_opts demo_gc_world = ((Some res, None), w1)"
  by (simp add: SweepDocker_def demo_docker_calls demo_gd_def Let_def split: prod.splits)

lemma demo_lease_year: "year4 (rt_Now demo_rt [] + cf_TTL demo_config)"
proof -
  have "civil 0 = (1, 1, 1)" by code_simp
  moreover have "fst (unix_parts Hour) = 0" by (simp add: unix_parts_def)
  ultimately show ?thesis by (simp add: year4_def demo_rt_def demo_config_def)
qed

text \<open>Swept two minutes after they were created, with an age limit of a minute: the container under lease and the one of another program stay.\<close>

theorem SweepDocker_exact_witness:
  "\<exists>res w1. SweepDocker demo_gc_rt (Some \<circ> read_stamp) demo_docker demo_gd demo_gc_opts demo_gc_world = ((Some res, None), w1) \<and>
     set w1 = {RContainer ''c1'', RContainer ''c3''}"
proof -
  obtain res w1 where s: "SweepDocker demo_gc_rt (Some \<circ> read_stamp) demo_docker demo_gd demo_gc_opts demo_gc_world = ((Some res, None), w1)"
    using demo_sweeps by blast
  have l: "docker_laws set demo_gc_rt demo_docker" using demo_docker_laws by (simp add: docker_laws_def demo_gc_rt_def)
  have r: "docker_removes demo_docker" by (simp add: docker_removes_def demo_docker_def)
  let ?due = "container_due (Some \<circ> read_stamp) demo_gc_opts (2 * Minute)"
  have o: "\<not> go_DryRun demo_gc_opts" "\<not> go_Force demo_gc_opts" "go_OlderThan demo_gc_opts = Minute" by (simp_all add: demo_gc_opts_def)
  have t: "rt_Now demo_gc_rt v = 2 * Minute" for v by (simp add: demo_gc_rt_def)
  have h: "rt_Now demo_rt [] + cf_TTL demo_config = Hour" by (simp add: demo_rt_def demo_config_def)
  then have "format_RFC3339 Hour \<noteq> []" using format_RFC3339_nonempty[OF demo_lease_year] by simp
  moreover from h have "(Some \<circ> read_stamp) (format_RFC3339 Hour) = Some Hour"
    using demo_parse demo_lease_year unfolding rfc3339_reads_def by (simp add: go_Truncate_sec_def)
  ultimately have c1: "\<not> ?due \<lparr>ci_ID = i, ci_Names = n, ci_Labels = cs_Labels (docker_spec demo_rt demo_config ''n'' ''i'' ''p'' ''5432'' []), ci_Created = 0\<rparr>" for i n
    using o by (auto simp: container_due_def lease_def docker_spec_def demo_rt_def demo_config_def split: if_splits)
  have c23: "?due \<lparr>ci_ID = i, ci_Names = n, ci_Labels = [(''firedrill'', ''sandbox'')], ci_Created = 0\<rparr>"
    "\<not> ?due \<lparr>ci_ID = i, ci_Names = n, ci_Labels = [(''app'', ''shop'')], ci_Created = 0\<rparr>"
    "network_due demo_gc_opts (2 * Minute) \<lparr>ni_ID = i, ni_Name = ''firedrill-old'', ni_Created = 0\<rparr>" for i n
    using o by (simp_all add: container_due_def network_due_def lease_def time_Sub_def)
  have cs: "(RContainer \<circ> ci_ID) ` {c \<in> set cs. ?due c} = {RContainer ''c2''}" if "gd_ContainerList demo_gd v = (Inr cs, v1)" for v cs v1
  proof -
    have "filter ?due cs = [\<lparr>ci_ID = ''c2'', ci_Names = [''/old''], ci_Labels = [(''firedrill'', ''sandbox'')], ci_Created = 0\<rparr>]"
      using that c1 c23 unfolding demo_gd_def by (simp only: GcDocker.select_convs prod.inject sum.inject) (elim conjE, hypsubst, simp only: filter.simps if_True if_False simp_thms)
    then show ?thesis unfolding set_filter[symmetric] by simp
  qed
  have ns: "(RNetwork \<circ> ni_ID) ` {n \<in> set ns. network_due demo_gc_opts (2 * Minute) n} = {RNetwork ''n1''}"
    if "gd_NetworkList demo_gd v = (Inr ns, v1)" for v ns v1
  proof -
    have "filter (network_due demo_gc_opts (2 * Minute)) ns = [\<lparr>ni_ID = ''n1'', ni_Name = ''firedrill-old'', ni_Created = 0\<rparr>]"
      using that c23(3) unfolding demo_gd_def by (simp only: GcDocker.select_convs prod.inject sum.inject) (elim conjE, hypsubst, simp only: filter.simps if_True)
    then show ?thesis unfolding set_filter[symmetric] by simp
  qed
  have "set w1 = set demo_gc_world - ({RContainer ''c2''} \<union> {RNetwork ''n1''})"
    using SweepDocker_exact[OF l r demo_gc_keeps s refl refl] o(1) cs ns unfolding t by auto
  then have "set w1 = {RContainer ''c1'', RContainer ''c3''}" unfolding demo_gc_world_def by auto
  then show ?thesis using s by blast
qed

theorem gc_spares_running_drills_witness:
  "\<exists>res w1. SweepDocker demo_gc_rt (Some \<circ> read_stamp) demo_docker demo_gd demo_gc_opts demo_gc_world =
       ((Some res, None), w1) \<and> RContainer ''c1'' \<in> set w1"
proof -
  obtain res w1 where s: "SweepDocker demo_gc_rt (Some \<circ> read_stamp) demo_docker demo_gd demo_gc_opts demo_gc_world =
      ((Some res, None), w1)" using demo_sweeps by blast
  have f: "\<not> go_Force demo_gc_opts" by (simp add: demo_gc_opts_def)
  note y = demo_lease_year
  have o: "\<forall>i. removes_only set (RContainer i) (dk_ContainerRemove demo_docker i) \<and> removes_only set (RNetwork i) (dk_NetworkRemove demo_docker i)"
    by (auto simp: removes_only_def demo_docker_def)
  have c: "\<forall>wa cs wb c. gd_ContainerList demo_gd wa = (Inr cs, wb) \<longrightarrow> c \<in> set cs \<longrightarrow> ci_ID c = ''c1'' \<longrightarrow>
      ci_Labels c = cs_Labels (docker_spec demo_rt demo_config ''n'' ''i'' ''p'' ''5432'' [])" by (auto simp: demo_gd_def)
  have n: "rt_Now demo_gc_rt (snd (dk_Ping demo_docker (snd (dk_New demo_docker demo_gc_world)))) \<le>
      go_Truncate_sec (rt_Now demo_rt [] + cf_TTL demo_config)"
    by (simp add: demo_gc_rt_def demo_rt_def demo_config_def go_Truncate_sec_def)
  show ?thesis using gc_spares_running_drills[OF demo_parse f y o demo_gc_keeps c n s] s by (auto simp: demo_gc_world_def)
qed

end
