(* ===== verification/FD_Operator.thy ===== *)
theory FD_Operator
  imports FD_Demo FD_GC
begin

text \<open>
  \<open>pkg/operator\<close>: the reconciler of RecoveryDrill resources.

  A resource is the record \<open>CR\<close>: its name, generation and creation time, the raw \<open>spec\<close> field, and its status as a map. The cluster client, the conflict-retry helper,
  the event recorder, the cron library and the JSON and YAML coders are parameters. A panic or a drill that never returns makes the result \<open>None\<close>. Log
  lines are not modelled.

  The lemmas: a reconcile always returns; a one-shot drill that executed is not run again for its generation, over every sequence of reconciles and passing
  time (the relation \<open>op_steps\<close>); a scheduled drill does not run before its time, and after an execution error the five-minute requeue does not run it either,
  until its next scheduled time.
\<close>

section \<open>Resources and the cluster\<close>

datatype jval = JStr string | JMsg msg | JBool bool | JDur duration

record CR =
  co_Name :: string
  co_Generation :: int
  co_Created :: gotime
  co_Raw :: "string option res"
  co_Status :: "string \<rightharpoonup> jval"

record 'w Cluster =
  cl_Get :: "string \<Rightarrow> 'w \<Rightarrow> CR res \<times> 'w"
  cl_Update :: "CR \<Rightarrow> 'w \<Rightarrow> msg option \<times> 'w"
  cl_IsNotFound :: "msg \<Rightarrow> bool"
  cl_Retry :: "('w \<Rightarrow> msg option \<times> 'w) \<Rightarrow> 'w \<Rightarrow> msg option \<times> 'w"
  cl_Event :: "string \<Rightarrow> string \<Rightarrow> msg \<Rightarrow> 'w \<Rightarrow> 'w"
  cl_Marshal :: "string \<Rightarrow> string res"
  cl_Unmarshal :: "string \<Rightarrow> Spec res"
  cl_Cron :: "string \<Rightarrow> (gotime \<Rightarrow> gotime) res"
  cl_Parse :: "string \<Rightarrow> gotime option"

definition str :: "CR \<Rightarrow> string \<Rightarrow> string" where
  "str obj field = (case co_Status obj field of Some (JStr s) \<Rightarrow> s | _ \<Rightarrow> [])"

definition drillFromCR :: "'w Cluster \<Rightarrow> CR \<Rightarrow> Drill res" where
  "drillFromCR cl obj =
     (case co_Raw obj of
        Inl e \<Rightarrow> Inl (Msg ''reading spec: %w'' [AErr e])
      | Inr None \<Rightarrow> Inl (Msg ''missing spec'' [])
      | Inr (Some raw) \<Rightarrow>
         (case cl_Marshal cl raw of
            Inl e \<Rightarrow> Inl e
          | Inr data \<Rightarrow>
             (case cl_Unmarshal cl data of
                Inl e \<Rightarrow> Inl (Msg ''parsing spec: %w'' [AErr e])
              | Inr s \<Rightarrow>
                 (let d = \<lparr>dr_APIVersion = APIVersion, dr_Kind = Kind, dr_Metadata = \<lparr>md_Name = co_Name obj\<rparr>, dr_Spec = s\<rparr> in
                  case Validate d of Some e \<Rightarrow> Inl e | None \<Rightarrow> Inr d))))"

definition patch_once :: "'w Cluster \<Rightarrow> string \<Rightarrow> (string \<rightharpoonup> jval) \<Rightarrow> 'w \<Rightarrow> msg option \<times> 'w" where
  "patch_once cl name flds w =
     (case cl_Get cl name w of
        (Inl e, w1) \<Rightarrow> (Some e, w1)
      | (Inr fresh, w1) \<Rightarrow> cl_Update cl (fresh\<lparr>co_Status := co_Status fresh ++ flds\<rparr>) w1)"

definition patchStatus :: "'w Cluster \<Rightarrow> string \<Rightarrow> (string \<rightharpoonup> jval) \<Rightarrow> 'w \<Rightarrow> msg option \<times> 'w" where
  "patchStatus cl name flds w = cl_Retry cl (patch_once cl name flds) w"

definition failureSummary :: "Evidence \<Rightarrow> msg" where
  "failureSummary e =
     (let names = map vr_Name (filter (\<lambda>c. \<not> vr_Passed c \<and> \<not> vr_Skipped c) (ev_Checks e)) @
          (if \<not> em_RTOMet (ev_Measured e) then [''rto-objective''] else []) @ (if \<not> em_RPOMet (ev_Measured e) then [''rpo-objective''] else [])
      in if names = [] then Msg ''recovery not verified'' [] else Msg ''failed: %s'' [AStrs names])"

section \<open>Whether a run is due\<close>

datatype decision = Wait duration | BadSchedule msg | RunNow "(duration \<times> gotime) option"

definition last_run :: "'w Cluster \<Rightarrow> CR \<Rightarrow> gotime" where
  "last_run cl obj = (case cl_Parse cl (str obj ''lastRunTime'') of None \<Rightarrow> 0 | Some t \<Rightarrow> t)"

definition decide :: "'w Cluster \<Rightarrow> string \<Rightarrow> CR \<Rightarrow> gotime \<Rightarrow> decision" where
  "decide cl schedule obj now =
     (let lastRun = last_run cl obj in
      if schedule = [] then
        (if lastRun \<noteq> 0 \<and> str obj ''observedGeneration'' = go_itoa (co_Generation obj) then Wait 0 else RunNow None)
      else (case cl_Cron cl schedule of
        Inl e \<Rightarrow> BadSchedule e
      | Inr next \<Rightarrow>
         (let base = (if lastRun = 0 then co_Created obj else lastRun); nextRun = next base in
          if now < nextRun then Wait (time_Sub nextRun now)
          else (let lag = time_Sub now nextRun in RunNow (if lag > 5 * Minute \<and> lastRun \<noteq> 0 then Some (lag, nextRun) else None)))))"

section \<open>Recording a run\<close>

definition evidence_fields :: "Evidence option \<Rightarrow> (string \<rightharpoonup> jval)" where
  "evidence_fields e =
     (case e of
        None \<Rightarrow> Map.empty
      | Some ev \<Rightarrow> [''measuredRestoreSeconds'' \<mapsto> JDur (em_Restore (ev_Measured ev)), ''backupAgeSeconds'' \<mapsto> JDur (eb_Age (ev_Backup ev)),
          ''rtoMet'' \<mapsto> JBool (em_RTOMet (ev_Measured ev)), ''rpoMet'' \<mapsto> JBool (em_RPOMet (ev_Measured ev))])"

text \<open>The status of a run and the event it emits; evidence that is nil without an error would be dereferenced.\<close>

definition run_status ::
  "Evidence option \<Rightarrow> msg option \<Rightarrow> gotime \<Rightarrow> int \<Rightarrow> ((string \<rightharpoonup> jval) \<times> (string \<times> string \<times> msg)) option" where
  "run_status e err now gen =
     (let base = [''lastRunTime'' \<mapsto> JStr (format_RFC3339 now)];
          base = (if err = None then base(''observedGeneration'' \<mapsto> JStr (go_itoa gen)) else base);
          fin = (\<lambda>phase m verified. base(''phase'' \<mapsto> JStr phase, ''message'' \<mapsto> JMsg m, ''verified'' \<mapsto> JBool verified) ++ evidence_fields e)
      in case err of
           Some x \<Rightarrow> Some (fin ''Error'' x False, ''Warning'', ''DrillError'', x)
         | None \<Rightarrow>
            (case e of
               None \<Rightarrow> None
             | Some ev \<Rightarrow>
                 if ev_Verified ev
                 then Some (fin ''Verified'' (Msg ''recovery verified'' []) True, ''Normal'', ''DrillVerified'',
                   Msg ''recovery verified: restore %.0fs, backup age %.0fm'' [ADur (em_Restore (ev_Measured ev)), ADur (eb_Age (ev_Backup ev))])
                 else Some (fin ''Failed'' (failureSummary ev) False, ''Warning'', ''DrillFailed'', failureSummary ev)))"

section \<open>Reconcile\<close>

record Reconciler =
  rc_Version :: string
  rc_EvidenceDir :: string

definition operator_opts :: "Reconciler \<Rightarrow> Options" where
  "operator_opts r = \<lparr>op_Printer = None, op_EvidenceDir = rc_EvidenceDir r, op_KeyDir = [], op_Version = rc_Version r\<rparr>"

text \<open>From the decision to run on: the result is the delay of the requeue (0 for none) and the error.\<close>

definition reconcile_run ::
  "Reconciler \<Rightarrow> 'w Cluster \<Rightarrow> 'w Env \<Rightarrow> 'w Runtime \<Rightarrow> CR \<Rightarrow> Drill \<Rightarrow> OS \<Rightarrow> 'w \<Rightarrow> ((duration \<times> msg option) \<times> OS \<times> 'w) option" where
  "reconcile_run r cl env ctx obj d s w =
     (case patchStatus cl (co_Name obj) [''phase'' \<mapsto> JStr ''Running'', ''message'' \<mapsto> JMsg (Msg ''drill in progress'' [])] w of (_, w1) \<Rightarrow>
     (case drill_Run env ctx d (operator_opts r) s w1 of
        None \<Rightarrow> None
      | Some ((e, _, err), _, s1, w2) \<Rightarrow>
     (case run_status e err (rt_Now ctx w2) (co_Generation obj) of
        None \<Rightarrow> None
      | Some (status, ty, reason, m) \<Rightarrow>
     (case patchStatus cl (co_Name obj) status (cl_Event cl ty reason m w2) of
        (Some perr, w3) \<Rightarrow> Some ((0, Some perr), s1, w3)
      | (None, w3) \<Rightarrow>
          if err \<noteq> None then Some ((5 * Minute, None), s1, w3)
          else if sp_Schedule (dr_Spec d) \<noteq> [] then
            (case cl_Cron cl (sp_Schedule (dr_Spec d)) of
               Inr next \<Rightarrow> Some ((time_Sub (next (rt_Now ctx w3)) (rt_Now ctx w3), None), s1, w3)
             | Inl _ \<Rightarrow> None)
          else Some ((0, None), s1, w3)))))"

definition Reconcile ::
  "Reconciler \<Rightarrow> 'w Cluster \<Rightarrow> 'w Env \<Rightarrow> 'w Runtime \<Rightarrow> string \<Rightarrow> OS \<Rightarrow> 'w \<Rightarrow> ((duration \<times> msg option) \<times> OS \<times> 'w) option" where
  "Reconcile r cl env ctx name s w =
     (case cl_Get cl name w of
        (Inl e, w1) \<Rightarrow> Some ((0, if cl_IsNotFound cl e then None else Some e), s, w1)
      | (Inr obj, w1) \<Rightarrow>
     (case drillFromCR cl obj of
        Inl e \<Rightarrow>
          (case patchStatus cl (co_Name obj) [''phase'' \<mapsto> JStr ''Invalid'', ''message'' \<mapsto> JMsg e] w1 of (_, w2) \<Rightarrow>
           Some ((0, None), s, cl_Event cl ''Warning'' ''InvalidSpec'' e w2))
      | Inr d \<Rightarrow>
     (case decide cl (sp_Schedule (dr_Spec d)) obj (rt_Now ctx w1) of
        Wait t \<Rightarrow> Some ((t, None), s, w1)
      | BadSchedule e \<Rightarrow>
          (case patchStatus cl (co_Name obj) [''phase'' \<mapsto> JStr ''Invalid'', ''message'' \<mapsto> JMsg (Msg ''bad schedule: %s'' [AErr e])] w1 of
             (_, w2) \<Rightarrow> Some ((0, None), s, w2))
      | RunNow late \<Rightarrow>
         (let w2 = (case late of
                None \<Rightarrow> w1
              | Some (lag, at) \<Rightarrow> cl_Event cl ''Warning'' ''MissedSchedule''
                  (Msg ''running %s late (scheduled %s)'' [ADur (dur_Round lag Minute), AStr (format_RFC3339 at)]) w1)
          in reconcile_run r cl env ctx obj d s w2))))"

text \<open>\<open>SetupWithManager\<close>: the number of workers.\<close>

definition workers :: "int \<Rightarrow> int" where
  "workers maxConcurrent = (if maxConcurrent < 1 then 3 else maxConcurrent)"

text \<open>The startup sweep of the manager: its failure is not the operator's.\<close>

definition startup_gc :: "'w Runtime \<Rightarrow> 'w Cluster \<Rightarrow> 'w Kube \<Rightarrow> 'w GcKube \<Rightarrow> 'w \<Rightarrow> msg option \<times> 'w" where
  "startup_gc rt cl api gk w =
     (case SweepKubernetes rt (cl_Parse cl) api gk \<lparr>go_OlderThan = Hour, go_DryRun = False, go_Force = False\<rparr> w of (_, w1) \<Rightarrow> (None, w1))"

text \<open>\<open>RunManager\<close>: the manager's own calls are a record; the collection is a task it runs after it starts.\<close>

record 'w Manager =
  mg_New :: "string \<Rightarrow> 'w \<Rightarrow> msg option \<times> 'w"
  mg_Complete :: "Reconciler \<Rightarrow> int \<Rightarrow> 'w \<Rightarrow> msg option \<times> 'w"
  mg_Add :: "('w \<Rightarrow> msg option \<times> 'w) \<Rightarrow> 'w \<Rightarrow> msg option \<times> 'w"
  mg_Healthz :: "'w \<Rightarrow> msg option \<times> 'w"
  mg_Readyz :: "'w \<Rightarrow> msg option \<times> 'w"
  mg_Start :: "'w \<Rightarrow> msg option \<times> 'w"

definition RunManager ::
  "'w Manager \<Rightarrow> 'w Runtime \<Rightarrow> 'w Cluster \<Rightarrow> 'w Kube \<Rightarrow> 'w GcKube \<Rightarrow> string \<Rightarrow> string \<Rightarrow> string \<Rightarrow> int \<Rightarrow> 'w \<Rightarrow> msg option \<times> 'w" where
  "RunManager mg rt cl api gk version evidenceDir metricsAddr maxConcurrent w =
     (case mg_New mg metricsAddr w of
        (Some e, w1) \<Rightarrow> (Some (Msg ''creating manager: %w'' [AErr e]), w1)
      | (None, w1) \<Rightarrow>
     (case mg_Complete mg \<lparr>rc_Version = version, rc_EvidenceDir = evidenceDir\<rparr> (workers maxConcurrent) w1 of
        (Some e, w2) \<Rightarrow> (Some (Msg ''setting up controller: %w'' [AErr e]), w2)
      | (None, w2) \<Rightarrow>
     (case mg_Add mg (startup_gc rt cl api gk) w2 of
        (Some e, w3) \<Rightarrow> (Some e, w3)
      | (None, w3) \<Rightarrow>
     (case mg_Healthz mg w3 of
        (Some e, w4) \<Rightarrow> (Some e, w4)
      | (None, w4) \<Rightarrow>
     (case mg_Readyz mg w4 of
        (Some e, w5) \<Rightarrow> (Some e, w5)
      | (None, w5) \<Rightarrow> mg_Start mg w5)))))"

section \<open>What is relied on\<close>

text \<open>A successful status update is what the next read returns; reads change nothing; a retried operation that succeeds has made a last attempt that did.\<close>

definition cluster_laws :: "'w Cluster \<Rightarrow> bool" where
  "cluster_laws cl \<longleftrightarrow>
     (\<forall>cr w w1. cl_Update cl cr w = (None, w1) \<longrightarrow> cl_Get cl (co_Name cr) w1 = (Inr cr, w1)) \<and>
     (\<forall>n w cr w1. cl_Get cl n w = (Inr cr, w1) \<longrightarrow> co_Name cr = n \<and> w1 = w) \<and>
     (\<forall>f w w1. cl_Retry cl f w = (None, w1) \<longrightarrow> (\<exists>w0. f w0 = (None, w1)))"

text \<open>Nobody edits the resource: every read shows the same generation and spec.\<close>

definition unedited :: "'w Cluster \<Rightarrow> string \<Rightarrow> int \<Rightarrow> string option res \<Rightarrow> bool" where
  "unedited cl name g raw \<longleftrightarrow> (\<forall>w cr w1. cl_Get cl name w = (Inr cr, w1) \<longrightarrow> co_Generation cr = g \<and> co_Raw cr = raw)"

lemma patchStatus_stored:
  assumes "cluster_laws cl" and "unedited cl name g raw" and "patchStatus cl name flds w = (None, w1)"
  shows "\<exists>cr. cl_Get cl name w1 = (Inr cr, w1) \<and> co_Name cr = name \<and> co_Generation cr = g \<and> co_Raw cr = raw \<and>
    (\<forall>k v. flds k = Some v \<longrightarrow> co_Status cr k = Some v)"
proof -
  obtain w0 where p: "patch_once cl name flds w0 = (None, w1)"
    using assms(1,3) unfolding cluster_laws_def patchStatus_def by blast
  obtain fresh wa where g: "cl_Get cl name w0 = (Inr fresh, wa)" and u: "cl_Update cl (fresh\<lparr>co_Status := co_Status fresh ++ flds\<rparr>) wa = (None, w1)"
    using p by (auto simp: patch_once_def split: prod.splits sum.splits)
  have n: "co_Name fresh = name" "co_Generation fresh = g" "co_Raw fresh = raw"
    using assms(1,2) g unfolding cluster_laws_def unedited_def by blast+
  have "cl_Get cl name w1 = (Inr (fresh\<lparr>co_Status := co_Status fresh ++ flds\<rparr>), w1)"
    using assms(1) u n(1) unfolding cluster_laws_def by fastforce
  then show ?thesis using n by (intro exI[of _ "fresh\<lparr>co_Status := co_Status fresh ++ flds\<rparr>"]) auto
qed

lemma drillFromCR_cong: "co_Name a = co_Name b \<Longrightarrow> co_Raw a = co_Raw b \<Longrightarrow> drillFromCR cl a = drillFromCR cl b"
  by (simp only: drillFromCR_def)

lemma run_status_fields:
  assumes "run_status e err now gen = Some (st, ty, reason, m)"
  shows "st ''lastRunTime'' = Some (JStr (format_RFC3339 now))" and "err = None \<Longrightarrow> st ''observedGeneration'' = Some (JStr (go_itoa gen))"
  using assms by (auto simp: run_status_def evidence_fields_def Let_def map_add_def split: option.splits if_splits)

lemma run_status_some: "err \<noteq> None \<or> e \<noteq> None \<Longrightarrow> run_status e err now gen \<noteq> None"
  by (auto simp: run_status_def Let_def split: option.splits)

lemma last_run_recorded:
  assumes "rfc3339_reads (cl_Parse cl)" and "year4 t" and "co_Status cr ''lastRunTime'' = Some (JStr (format_RFC3339 t))"
  shows "last_run cl cr = go_Truncate_sec t"
  using assms by (simp add: last_run_def str_def rfc3339_reads_def)

lemma Truncate_pos: "Second \<le> t \<Longrightarrow> go_Truncate_sec t \<noteq> 0"
proof -
  assume "Second \<le> t"
  then have "1 \<le> nat t div 1000000000" by (simp add: Suc_le_eq div_greater_zero_iff)
  then show ?thesis by (simp add: go_Truncate_sec_def)
qed

section \<open>Properties\<close>

text \<open>A run that was recorded: the resource then read shows its time.\<close>

lemma reconcile_run_recorded:
  assumes "cluster_laws cl" and "unedited cl (co_Name obj) g raw" and "reconcile_run r cl env ctx obj d s w = Some ((q, None), s1, w1)"
  obtains cr w2 where "cl_Get cl (co_Name obj) w1 = (Inr cr, w1)" "co_Name cr = co_Name obj" "co_Generation cr = g" "co_Raw cr = raw"
    "co_Status cr ''lastRunTime'' = Some (JStr (format_RFC3339 (rt_Now ctx w2)))"
    "q = 5 * Minute \<or> co_Status cr ''observedGeneration'' = Some (JStr (go_itoa (co_Generation obj)))"
proof -
  obtain pe wa where x1: "patchStatus cl (co_Name obj) [''phase'' \<mapsto> JStr ''Running'', ''message'' \<mapsto> JMsg (Msg ''drill in progress'' [])] w = (pe, wa)" by fastforce
  obtain e path err ls s' w2 where x2: "drill_Run env ctx d (operator_opts r) s wa = Some ((e, path, err), ls, s', w2)"
    using assms(3) x1 by (auto simp: reconcile_run_def split: option.splits)
  obtain st ty reason m where x3: "run_status e err (rt_Now ctx w2) (co_Generation obj) = Some (st, ty, reason, m)"
    using assms(3) x1 x2 by (auto simp: reconcile_run_def split: option.splits)
  obtain pe2 w3 where x4: "patchStatus cl (co_Name obj) st (cl_Event cl ty reason m w2) = (pe2, w3)" by fastforce
  have ok: "pe2 = None" "w3 = w1" "err \<noteq> None \<Longrightarrow> q = 5 * Minute"
    using assms(3) unfolding reconcile_run_def x1 prod.case x2 option.case x3 x4 by (auto split: option.splits if_splits sum.splits)
  obtain cr where cr: "cl_Get cl (co_Name obj) w1 = (Inr cr, w1)" "co_Name cr = co_Name obj" "co_Generation cr = g" "co_Raw cr = raw"
    and st: "\<forall>k v. st k = Some v \<longrightarrow> co_Status cr k = Some v"
    using patchStatus_stored[OF assms(1,2) x4[unfolded ok(1,2)]] by blast
  have "co_Status cr ''lastRunTime'' = Some (JStr (format_RFC3339 (rt_Now ctx w2)))" using st run_status_fields(1)[OF x3] by blast
  moreover have "q = 5 * Minute \<or> co_Status cr ''observedGeneration'' = Some (JStr (go_itoa (co_Generation obj)))"
    using st run_status_fields(2)[OF x3] ok(3) by blast
  ultimately show thesis by (rule that[OF cr])
qed

lemma Reconcile_cases:
  assumes "cl_Get cl name w = (Inr obj, w)" and "drillFromCR cl obj = Inr d"
    and "Reconcile r cl env ctx name s w = Some ((q, None), s1, w1)"
  obtains (wait) "decide cl (sp_Schedule (dr_Spec d)) obj (rt_Now ctx w) = Wait q" "s1 = s" "w1 = w"
  | (bad) e where "decide cl (sp_Schedule (dr_Spec d)) obj (rt_Now ctx w) = BadSchedule e"
  | (run) late w2 where "decide cl (sp_Schedule (dr_Spec d)) obj (rt_Now ctx w) = RunNow late" "reconcile_run r cl env ctx obj d s w2 = Some ((q, None), s1, w1)"
  using assms(3) unfolding Reconcile_def assms(1) prod.case sum.case assms(2)
  by (cases "decide cl (sp_Schedule (dr_Spec d)) obj (rt_Now ctx w)") (auto simp: Let_def split: prod.splits)

text \<open>A reconcile always ends, and dereferences no nil: the evidence of a run without error exists, and the schedule parsed before the run parses after it.\<close>

lemma Reconcile_returns:
  assumes "rt_clock ctx" and "outside_forward ctx env"
  shows "\<exists>res s1 w1. Reconcile r cl env ctx name s w = Some (res, s1, w1)"
proof -
  have run: "reconcile_run r cl env ctx obj d s w \<noteq> None" if "sp_Schedule (dr_Spec d) \<noteq> [] \<Longrightarrow> res_ok (cl_Cron cl (sp_Schedule (dr_Spec d)))" for obj d w
  proof -
    obtain pe wa where x1: "patchStatus cl (co_Name obj) [''phase'' \<mapsto> JStr ''Running'', ''message'' \<mapsto> JMsg (Msg ''drill in progress'' [])] w = (pe, wa)" by fastforce
    obtain e path err ls s' w2 where x2: "drill_Run env ctx d (operator_opts r) s wa = Some ((e, path, err), ls, s', w2)"
      using drill_Run_ends[OF assms] by blast
    obtain st ty reason m where x3: "run_status e err (rt_Now ctx w2) (co_Generation obj) = Some (st, ty, reason, m)"
      using run_status_some[OF drill_Run_outcome[OF x2]] by (metis not_None_eq prod_cases4)
    show ?thesis using that unfolding reconcile_run_def x1 prod.case x2 option.case x3 by (auto split: prod.splits option.splits sum.splits)
  qed
  have ok: "sch \<noteq> [] \<Longrightarrow> res_ok (cl_Cron cl sch)" if "decide cl sch obj now = RunNow late" for sch obj now late
    using that by (cases "cl_Cron cl sch") (auto simp: decide_def Let_def split: if_splits)
  have "Reconcile r cl env ctx name s w \<noteq> None"
    unfolding Reconcile_def Let_def
    using run[OF ok] by (auto simp del: not_None_eq split: prod.splits sum.splits decision.splits)
  then show ?thesis by auto
qed

section \<open>Operator runs\<close>

text \<open>What happens to a resource between two edits: reconciles, whatever asks for them, and the rest of the world moving on, time included. A state is the
  operator's file system and the world.\<close>

inductive op_steps ::
  "Reconciler \<Rightarrow> 'w Cluster \<Rightarrow> 'w Env \<Rightarrow> 'w Runtime \<Rightarrow> string \<Rightarrow> OS \<times> 'w \<Rightarrow> OS \<times> 'w \<Rightarrow> bool"
  for r cl env ctx name where
  here: "op_steps r cl env ctx name st st"
| reconciled: "op_steps r cl env ctx name st (s, w) \<Longrightarrow> Reconcile r cl env ctx name s w = Some (res, s1, w1) \<Longrightarrow> op_steps r cl env ctx name st (s1, w1)"
| elapsed: "op_steps r cl env ctx name st (s, w) \<Longrightarrow> fst (cl_Get cl name w1) = fst (cl_Get cl name w) \<Longrightarrow> op_steps r cl env ctx name st (s, w1)"

text \<open>A resource that has run its generation: reconciling it does nothing.\<close>

definition settled :: "'w Cluster \<Rightarrow> CR \<Rightarrow> bool" where
  "settled cl cr \<longleftrightarrow> (\<exists>d. drillFromCR cl cr = Inr d \<and> sp_Schedule (dr_Spec d) = []) \<and>
     last_run cl cr \<noteq> 0 \<and> str cr ''observedGeneration'' = go_itoa (co_Generation cr)"

lemma settled_Reconcile:
  "settled cl cr \<Longrightarrow> cl_Get cl name w = (Inr cr, w) \<Longrightarrow> Reconcile r cl env ctx name s w = Some ((0, None), s, w)"
  by (auto simp: settled_def Reconcile_def decide_def)

lemma settled_steps:
  assumes "cluster_laws cl" and "settled cl cr" and "op_steps r cl env ctx name st st1"
  shows "fst (cl_Get cl name (snd st)) = Inr cr \<Longrightarrow> fst st1 = fst st \<and> fst (cl_Get cl name (snd st1)) = Inr cr"
  using assms(3)
proof (induction rule: op_steps.induct)
  case (reconciled st s w res s1 w1)
  have g: "fst (cl_Get cl name w) = Inr cr" "s = fst st" using reconciled.IH reconciled.prems by simp_all
  then have "cl_Get cl name w = (Inr cr, w)" using assms(1) unfolding cluster_laws_def by (metis prod.collapse)
  then show ?case using settled_Reconcile[OF assms(2), of name w r env ctx s] reconciled.hyps(2) g by simp
qed simp_all

lemma one_shot_settles:
  assumes "cluster_laws cl" and "unedited cl name g raw" and "rfc3339_reads (cl_Parse cl)"
    and "\<forall>v. Second \<le> rt_Now ctx v \<and> year4 (rt_Now ctx v)"
    and "cl_Get cl name w = (Inr obj, w)" and "drillFromCR cl obj = Inr d" and "sp_Schedule (dr_Spec d) = []"
    and "Reconcile r cl env ctx name s w = Some ((0, None), s1, w1)"
  shows "\<exists>cr. cl_Get cl name w1 = (Inr cr, w1) \<and> settled cl cr"
proof -
  have n: "co_Name obj = name" "co_Generation obj = g" "co_Raw obj = raw"
    using assms(1,2,5) unfolding cluster_laws_def unedited_def by blast+
  from assms(5,6,8) show ?thesis
  proof (cases rule: Reconcile_cases)
    case wait
    then show ?thesis using assms(5,6,7) by (intro exI[of _ obj]) (auto simp: settled_def decide_def Let_def split: if_splits)
  next
    case bad
    then show ?thesis using assms(7) by (simp add: decide_def Let_def split: if_splits)
  next
    case (run late w2)
    obtain cr w3 where cr: "cl_Get cl name w1 = (Inr cr, w1)" "co_Name cr = name" "co_Generation cr = g" "co_Raw cr = raw"
      and st: "co_Status cr ''lastRunTime'' = Some (JStr (format_RFC3339 (rt_Now ctx w3)))"
        "(0::duration) = 5 * Minute \<or> co_Status cr ''observedGeneration'' = Some (JStr (go_itoa g))"
      by (rule reconcile_run_recorded[OF assms(1) _ run(2), of g raw, unfolded n]) (use assms(2) in simp_all)
    then have "str cr ''observedGeneration'' = go_itoa (co_Generation cr)" using cr(3) by (simp add: str_def)
    moreover have "last_run cl cr \<noteq> 0" using last_run_recorded[OF assms(3) _ st(1)] assms(4) Truncate_pos by metis
    moreover have "drillFromCR cl cr = Inr d" using drillFromCR_cong[of cr obj cl] cr n assms(6) by simp
    ultimately show ?thesis using cr(1) assms(7) by (auto simp: settled_def)
  qed
qed

text \<open>
  C39: a drill without a schedule runs once per generation. Once a reconcile of an unscheduled resource ends without an error and without asking for a retry,
  then as long as the resource is not edited no sequence of further reconciles, at whatever times, changes a file of the operator or the resource: no drill
  runs. The clock is past its zero and within the years that RFC 3339 writes with four digits.
\<close>

theorem one_shot_once:
  assumes "cluster_laws cl" and "unedited cl name g raw" and "rfc3339_reads (cl_Parse cl)"
    and "\<forall>v. Second \<le> rt_Now ctx v \<and> year4 (rt_Now ctx v)"
    and "cl_Get cl name w = (Inr obj, w)" and "drillFromCR cl obj = Inr d" and "sp_Schedule (dr_Spec d) = []"
    and "Reconcile r cl env ctx name s w = Some ((0, None), s1, w1)"
    and "op_steps r cl env ctx name (s1, w1) (s2, w2)"
  shows "s2 = s1 \<and> fst (cl_Get cl name w2) = fst (cl_Get cl name w1)"
proof -
  obtain cr where cr: "cl_Get cl name w1 = (Inr cr, w1)" "settled cl cr" using one_shot_settles[OF assms(1-8)] by blast
  show ?thesis using settled_steps[OF assms(1) cr(2) assms(9)] cr(1) by simp
qed

lemma Truncate_mono: "a \<le> b \<Longrightarrow> go_Truncate_sec a \<le> go_Truncate_sec b"
  by (simp add: go_Truncate_sec_def div_le_mono nat_mono)

text \<open>
  C40: a scheduled drill does not run twice in a window. After a reconcile at which the drill was due and whose status update went through, whatever the run's
  outcome (verified, failed or an execution error), a later reconcile that reads the same resource before the first scheduled time after the run only waits:
  no drill runs and nothing is written. In particular the requeue after five minutes, asked for to retry an execution error, does not retry it.
\<close>

theorem scheduled_once:
  assumes "cluster_laws cl" and "unedited cl name g raw" and "rfc3339_reads (cl_Parse cl)"
    and "Second \<le> rt_Now ctx w" and "\<forall>v. rt_Now ctx w \<le> rt_Now ctx v \<and> year4 (rt_Now ctx v)"
    and "cl_Get cl name w = (Inr obj, w)" and "drillFromCR cl obj = Inr d" and "sp_Schedule (dr_Spec d) \<noteq> []"
    and "cl_Cron cl (sp_Schedule (dr_Spec d)) = Inr next" and "\<forall>a b. a \<le> b \<longrightarrow> next a \<le> next b"
    and "decide cl (sp_Schedule (dr_Spec d)) obj (rt_Now ctx w) = RunNow late"
    and "Reconcile r cl env ctx name s w = Some ((q, None), s1, w1)"
    and "cl_Get cl name w2 = (fst (cl_Get cl name w1), w2)" and "rt_Now ctx w2 < next (go_Truncate_sec (rt_Now ctx w))"
  shows "\<exists>delay. Reconcile r cl env ctx name s2 w2 = Some ((delay, None), s2, w2)"
proof -
  have n: "co_Name obj = name" "co_Generation obj = g" "co_Raw obj = raw"
    using assms(1,2,6) unfolding cluster_laws_def unedited_def by blast+
  from assms(6,7,12) obtain w3 where run: "reconcile_run r cl env ctx obj d s w3 = Some ((q, None), s1, w1)"
    by (cases rule: Reconcile_cases) (use assms(11) in auto)
  obtain cr w4 where cr: "cl_Get cl name w1 = (Inr cr, w1)" "co_Name cr = name" "co_Generation cr = g" "co_Raw cr = raw"
    and st: "co_Status cr ''lastRunTime'' = Some (JStr (format_RFC3339 (rt_Now ctx w4)))"
    by (rule reconcile_run_recorded[OF assms(1) _ run, of g raw, unfolded n]) (use assms(2) in simp_all)
  let ?t = "go_Truncate_sec (rt_Now ctx w4)"
  have l: "last_run cl cr = ?t" using last_run_recorded[OF assms(3) _ st] assms(5) by blast
  have "Second \<le> rt_Now ctx w4" using assms(4,5) order_trans by blast
  then have nz: "?t \<noteq> 0" by (rule Truncate_pos)
  have "next (go_Truncate_sec (rt_Now ctx w)) \<le> next ?t" using assms(5,10) Truncate_mono by blast
  then have "rt_Now ctx w2 < next ?t" using assms(14) by simp
  then have "decide cl (sp_Schedule (dr_Spec d)) cr (rt_Now ctx w2) = Wait (time_Sub (next ?t) (rt_Now ctx w2))"
    using assms(8,9) l nz by (simp add: decide_def Let_def)
  moreover have "drillFromCR cl cr = Inr d" using drillFromCR_cong[of cr obj cl] cr n assms(7) by simp
  ultimately show ?thesis using assms(13) cr(1) by (simp add: Reconcile_def)
qed

section \<open>A cluster evaluated\<close>

text \<open>A world is whether five minutes have passed and the status of the resource; the resource is created once and its spec is that of the demo drill.\<close>

type_synonym demo_world = "bool \<times> (string \<rightharpoonup> jval)"

definition demo_cr :: "string \<Rightarrow> (string \<rightharpoonup> jval) \<Rightarrow> CR" where
  "demo_cr n st = \<lparr>co_Name = n, co_Generation = 1, co_Created = 0, co_Raw = Inr (Some ''{}''), co_Status = st\<rparr>"

definition demo_cr_drill :: "string \<Rightarrow> Drill" where
  "demo_cr_drill sch = demo_run_drill\<lparr>dr_Spec := (dr_Spec demo_run_drill)\<lparr>sp_Schedule := sch\<rparr>\<rparr>"

definition demo_cluster :: "string \<Rightarrow> demo_world Cluster" where
  "demo_cluster sch = \<lparr>cl_Get = \<lambda>n w. (Inr (demo_cr n (snd w)), w),
     cl_Update = \<lambda>cr w. if cr = demo_cr (co_Name cr) (co_Status cr) then (None, (fst w, co_Status cr)) else (Some (Msg ''conflict'' []), w),
     cl_IsNotFound = \<lambda>e. False, cl_Retry = \<lambda>f. f, cl_Event = \<lambda>ty reason m w. w, cl_Marshal = Inr,
     cl_Unmarshal = \<lambda>data. Inr (dr_Spec (demo_cr_drill sch)), cl_Cron = \<lambda>sc. Inr (\<lambda>t. t + Hour - 2 * Minute), cl_Parse = \<lambda>t. if t = [] then None else Some (read_stamp t)\<rparr>"

definition demo_op_rt :: "demo_world Runtime" where
  "demo_op_rt = \<lparr>rt_Now = \<lambda>w. if fst w then 58 * Minute + 5 * Minute else 58 * Minute, rt_Sleep = \<lambda>d w. w, rt_CtxErr = \<lambda>w. None\<rparr>"

lemma demo_cluster_laws: "cluster_laws (demo_cluster sch)" "unedited (demo_cluster sch) n 1 (Inr (Some ''{}''))"
  by (auto simp: cluster_laws_def unedited_def demo_cluster_def demo_cr_def split: if_splits)

lemma demo_cluster_parse: "rfc3339_reads (cl_Parse (demo_cluster sch))"
  using demo_parse by (auto simp: rfc3339_reads_def demo_cluster_def format_RFC3339_def dest: format_utc_length[where sep = "CHR '':''"])

lemma demo_op_now: "58 * Minute \<le> rt_Now demo_op_rt v \<and> year4 (rt_Now demo_op_rt v)"
proof -
  have "civil 0 = (1, 1, 1)" by code_simp
  moreover have "fst (unix_parts (58 * Minute)) = 0" "fst (unix_parts (63 * Minute)) = 0" by (simp_all add: unix_parts_def)
  ultimately show ?thesis by (simp add: year4_def demo_op_rt_def)
qed

lemma demo_cr_drill_valid: "drillFromCR (demo_cluster sch) (demo_cr ''pay-1'' st) = Inr (demo_cr_drill sch)"
proof -
  have "glob_ok []" by code_simp
  then have "Validate (demo_cr_drill sch) = None" unfolding Validate_None demo_cr_drill_def
    by (simp add: demo_run_drill_def wf_drill_def wf_engine_drill_def wf_artifact_def dns_label_def demo_drill_def
      demo_check_def wf_check_def set_fields_def provesData_def isSQL_def isK8s_def allowed_formats_def
      is_lower_alnum_def is_label_char_def is_digit_def)
  moreover have "demo_cr_drill sch = \<lparr>dr_APIVersion = APIVersion, dr_Kind = Kind, dr_Metadata = \<lparr>md_Name = ''pay-1''\<rparr>, dr_Spec = dr_Spec (demo_cr_drill sch)\<rparr>"
    by (simp add: demo_cr_drill_def demo_run_drill_def demo_drill_def)
  ultimately show ?thesis by (simp add: drillFromCR_def demo_cluster_def demo_cr_def)
qed

text \<open>The backup is gone, so the run ends with an execution error.\<close>

lemma demo_error_run:
  "\<exists>err s1. drill_Run env ctx (demo_cr_drill sch) opts demo_os w = Some ((None, [], Some err), [], s1, w)"
proof -
  have g: "Get the_registry ''postgres'' = Inr Postgres" by code_simp
  obtain err s1 where "Fetch cd cli (drillFrom (demo_cr_drill sch)) demo_os = (Inl err, s1)" for cd cli
    using that by (simp add: Fetch_def fetchFile_def demo_cr_drill_def demo_from_sel Let_def os_Stat_def demo_os_def split: prod.splits)
  then show ?thesis by (simp add: drill_Run_def demo_cr_drill_def g Let_def)
qed

lemma demo_reconcile_error:
  "\<exists>s1 w1. Reconcile r (demo_cluster ''@hourly'') env demo_op_rt ''pay-1'' demo_os (False, Map.empty) = Some ((5 * Minute, None), s1, w1) \<and> \<not> fst w1"
proof -
  let ?cl = "demo_cluster ''@hourly''" and ?d = "demo_cr_drill ''@hourly''"
  have p: "patchStatus ?cl n flds w = (None, (fst w, snd w ++ flds))" for n flds w
    by (simp add: patchStatus_def patch_once_def demo_cluster_def demo_cr_def)
  have g: "cl_Get ?cl n w = (Inr (demo_cr n (snd w)), w)" for n w by (simp add: demo_cluster_def)
  have ev: "cl_Event ?cl ty reason m w = w" for ty reason m w by (simp add: demo_cluster_def)
  have sch: "sp_Schedule (dr_Spec ?d) = ''@hourly''" by (simp add: demo_cr_drill_def)
  let ?w = "(False, [''phase'' \<mapsto> JStr ''Running'', ''message'' \<mapsto> JMsg (Msg ''drill in progress'' [])]) :: demo_world"
  have dec: "decide ?cl ''@hourly'' (demo_cr ''pay-1'' Map.empty) (rt_Now demo_op_rt (False, Map.empty)) = RunNow None"
    by (simp add: decide_def last_run_def str_def demo_cluster_def demo_cr_def demo_op_rt_def Let_def)
  obtain err s1 where x: "drill_Run env demo_op_rt ?d (operator_opts r) demo_os ?w = Some ((None, [], Some err), [], s1, ?w)"
    using demo_error_run[of env demo_op_rt "''@hourly''" "operator_opts r" ?w] by blast
  have "\<exists>s1 w1. reconcile_run r ?cl env demo_op_rt (demo_cr ''pay-1'' Map.empty) ?d demo_os (False, Map.empty) = Some ((5 * Minute, None), s1, w1) \<and> \<not> fst w1"
    using x by (simp add: reconcile_run_def p ev run_status_def demo_cr_def Let_def)
  then show ?thesis using dec by (simp add: Reconcile_def g demo_cr_drill_valid sch)
qed

theorem scheduled_once_witness:
  "\<forall>env r. \<exists>s1 w1 delay. Reconcile r (demo_cluster ''@hourly'') env demo_op_rt ''pay-1'' demo_os (False, Map.empty) = Some ((5 * Minute, None), s1, w1) \<and>
     rt_Now demo_op_rt (True, snd w1) = rt_Now demo_op_rt w1 + 5 * Minute \<and>
     Reconcile r (demo_cluster ''@hourly'') env demo_op_rt ''pay-1'' s1 (True, snd w1) = Some ((delay, None), s1, (True, snd w1))"
proof (intro allI)
  fix env :: "demo_world Env" and r
  let ?cl = "demo_cluster ''@hourly''" and ?d = "demo_cr_drill ''@hourly''"
  obtain s1 w1 where x: "Reconcile r ?cl env demo_op_rt ''pay-1'' demo_os (False, Map.empty) = Some ((5 * Minute, None), s1, w1)" "\<not> fst w1"
    using demo_reconcile_error by blast
  have n: "Second \<le> rt_Now demo_op_rt (False, Map.empty)" "\<forall>v. rt_Now demo_op_rt (False, Map.empty) \<le> rt_Now demo_op_rt v \<and> year4 (rt_Now demo_op_rt v)"
    using demo_op_now by (auto simp: demo_op_rt_def)
  have g: "cl_Get ?cl ''pay-1'' w = (Inr (demo_cr ''pay-1'' (snd w)), w)" for w by (simp add: demo_cluster_def)
  have c: "sp_Schedule (dr_Spec ?d) \<noteq> []" "cl_Cron ?cl (sp_Schedule (dr_Spec ?d)) = Inr (\<lambda>t. t + Hour - 2 * Minute)"
    by (simp_all add: demo_cr_drill_def demo_cluster_def)
  have dec: "decide ?cl (sp_Schedule (dr_Spec ?d)) (demo_cr ''pay-1'' (snd (False, Map.empty))) (rt_Now demo_op_rt (False, Map.empty)) = RunNow None"
    by (simp add: demo_cr_drill_def decide_def last_run_def str_def demo_cluster_def demo_cr_def demo_op_rt_def Let_def)
  have l: "rt_Now demo_op_rt (True, snd w1) < go_Truncate_sec (rt_Now demo_op_rt (False, Map.empty)) + Hour - 2 * Minute"
    by (simp add: demo_op_rt_def go_Truncate_sec_def)
  have "\<exists>delay. Reconcile r ?cl env demo_op_rt ''pay-1'' s1 (True, snd w1) = Some ((delay, None), s1, (True, snd w1))"
    by (rule scheduled_once[OF demo_cluster_laws demo_cluster_parse n g demo_cr_drill_valid c _ dec x(1) _ l]) (simp_all add: g)
  moreover have "rt_Now demo_op_rt (True, snd w1) = rt_Now demo_op_rt w1 + 5 * Minute" using x(2) by (simp add: demo_op_rt_def)
  ultimately show "\<exists>s1 w1 delay. Reconcile r ?cl env demo_op_rt ''pay-1'' demo_os (False, Map.empty) = Some ((5 * Minute, None), s1, w1) \<and>
     rt_Now demo_op_rt (True, snd w1) = rt_Now demo_op_rt w1 + 5 * Minute \<and>
     Reconcile r ?cl env demo_op_rt ''pay-1'' s1 (True, snd w1) = Some ((delay, None), s1, (True, snd w1))"
    using x(1) by blast
qed

definition demo_ran :: demo_world where
  "demo_ran = (False, [''lastRunTime'' \<mapsto> JStr (format_RFC3339 (57 * Minute)), ''observedGeneration'' \<mapsto> JStr (go_itoa 1)])"

theorem one_shot_once_witness:
  "\<forall>env r s. op_steps r (demo_cluster []) env demo_op_rt ''pay-1'' (s, demo_ran) (s, (True, snd demo_ran)) \<and>
     fst (cl_Get (demo_cluster []) ''pay-1'' (True, snd demo_ran)) = fst (cl_Get (demo_cluster []) ''pay-1'' demo_ran)"
proof (intro allI)
  fix env :: "demo_world Env" and r s
  let ?cl = "demo_cluster []" and ?cr = "demo_cr ''pay-1'' (snd demo_ran)" and ?later = "(True, snd demo_ran)"
  have g: "cl_Get ?cl ''pay-1'' w = (Inr (demo_cr ''pay-1'' (snd w)), w)" for w by (simp add: demo_cluster_def)
  have sch: "sp_Schedule (dr_Spec (demo_cr_drill [])) = []" by (simp add: demo_cr_drill_def)
  have n: "\<forall>v. Second \<le> rt_Now demo_op_rt v \<and> year4 (rt_Now demo_op_rt v)" using demo_op_now by (auto simp: demo_op_rt_def)
  have "fst (unix_parts (57 * Minute)) = 0" "civil 0 = (1, 1, 1)" by (simp add: unix_parts_def, code_simp)
  then have "year4 (57 * Minute)" by (simp add: year4_def)
  then have "last_run ?cl ?cr = go_Truncate_sec (57 * Minute)"
    by (rule last_run_recorded[OF demo_cluster_parse]) (simp add: demo_cr_def demo_ran_def)
  moreover have "Second \<le> 57 * Minute" by simp
  ultimately have "last_run ?cl ?cr \<noteq> 0" using Truncate_pos by metis
  then have c: "settled ?cl ?cr" using demo_cr_drill_valid[of "[]" "snd demo_ran"] sch by (simp add: settled_def str_def demo_cr_def demo_ran_def)
  have x: "Reconcile r ?cl env demo_op_rt ''pay-1'' s w = Some ((0, None), s, w)" if "snd w = snd demo_ran" for w
    by (rule settled_Reconcile[OF c]) (simp add: g that)
  have "op_steps r ?cl env demo_op_rt ''pay-1'' (s, demo_ran) (s, ?later)" by (rule op_steps.elapsed[OF op_steps.here]) (simp add: g)
  then have steps: "op_steps r ?cl env demo_op_rt ''pay-1'' (s, demo_ran) (s, ?later)" by (rule op_steps.reconciled) (simp add: x)
  then show "op_steps r ?cl env demo_op_rt ''pay-1'' (s, demo_ran) (s, ?later) \<and> fst (cl_Get ?cl ''pay-1'' ?later) = fst (cl_Get ?cl ''pay-1'' demo_ran)"
    using one_shot_once[OF demo_cluster_laws demo_cluster_parse n g demo_cr_drill_valid sch x[OF refl] steps] by simp
qed

end
