(* ===== verification/FD_Cli.thy ===== *)
theory FD_Cli
  imports FD_Operator
begin

text \<open>
  \<open>cmd/firedrill/main.go\<close> and \<open>pkg/spec/assets.go\<close>: the commands of the program and their exit codes.

  Each command is a function of its flags (a record per command) and arguments. It returns how it ended, which is an error value or an explicit
  \<open>os.Exit\<close>, and what it printed; \<open>exit_code\<close> is what \<open>main\<close> makes of that. What a command reads from outside is in the record \<open>Cli\<close>: the decoded
  documents of a spec file, the embedded assets, the JSON encoders of the reports, the sorting functions, whether standard output is a terminal. Flag parsing
  and signal handling are not modelled.

  The lemmas: \<open>run\<close> exits with 0, 1 or 2 exactly as its drills ended; a passing \<open>gate\<close> over a spec file means recent, verified and signed evidence
  for each of its drills; \<open>init\<close> does not overwrite a file it can see; a run of \<open>gc\<close> never fails.
\<close>

section \<open>Exit codes\<close>

definition exitFailed :: int where "exitFailed = 1"
definition exitError :: int where "exitError = 2"

datatype ended = Returned "msg option" | Exited int

definition exit_code :: "ended \<Rightarrow> int" where
  "exit_code x = (case x of Returned None \<Rightarrow> 0 | Returned (Some _) \<Rightarrow> exitError | Exited n \<Rightarrow> n)"

datatype out = OLine line | OMsg msg | OBytes string

record 'w Cli =
  cx_open :: "string \<Rightarrow> OS \<Rightarrow> Drill res list res"
  cx_un :: "string \<Rightarrow> Evidence res"
  cx_sortRuns :: "evidenceFile list \<Rightarrow> evidenceFile list"
  cx_sortEntries :: "ControlEntry list \<Rightarrow> ControlEntry list"
  cx_sortHistory :: "HistoryEntry list \<Rightarrow> HistoryEntry list"
  cx_asset :: "string \<Rightarrow> string option"
  cx_assets :: "string \<Rightarrow> string list res"
  cx_schema :: string
  cx_stdout :: "string \<Rightarrow> msg option"
  cx_gateJSON :: "GateReport \<Rightarrow> string res"
  cx_controlJSON :: "ControlReport \<Rightarrow> string res"
  cx_render :: "msg list \<Rightarrow> string"
  cx_parse :: "string \<Rightarrow> gotime option"
  cx_gcDocker :: "'w GcDocker"
  cx_gcKube :: "'w GcKube"
  cx_tty :: bool
  cx_version :: string

section \<open>Assets\<close>

definition TemplateDrivers :: "'w Cli \<Rightarrow> string list" where
  "TemplateDrivers cx =
     (case cx_assets cx ''templates'' of Inl _ \<Rightarrow> [] | Inr names \<Rightarrow> sort (map (\<lambda>n. trimSuffix n ''.yaml'') names))"

definition Template :: "'w Cli \<Rightarrow> string \<Rightarrow> string res" where
  "Template cx driver =
     (case cx_asset cx (''templates/'' @ driver @ ''.yaml'') of
        None \<Rightarrow> Inl (Msg ''no template for driver %q (available: %s)'' [AQuo driver, AStr (join_with '', '' (TemplateDrivers cx))])
      | Some data \<Rightarrow> Inr data)"

section \<open>Commands on files\<close>

record InitFlags =
  if_driver :: string
  if_out :: string
  if_force :: bool

definition init_cmd :: "'w Cli \<Rightarrow> InitFlags \<Rightarrow> OS \<Rightarrow> (ended \<times> out list) \<times> OS" where
  "init_cmd cx fl s =
     (case Template cx (if_driver fl) of
        Inl e \<Rightarrow> ((Returned (Some e), []), s)
      | Inr doc \<Rightarrow>
     (case os_Stat (if_out fl) s of (st, s1) \<Rightarrow>
      if res_ok st \<and> \<not> if_force fl
      then ((Returned (Some (Msg ''%s already exists (use --force to overwrite)'' [AStr (if_out fl)])), []), s1)
      else (case os_WriteFile (if_out fl) doc s1 of
        (Some e, s2) \<Rightarrow> ((Returned (Some e), []), s2)
      | (None, s2) \<Rightarrow> ((Returned None, [OMsg (Msg ''wrote %s (driver %s), edit the source and checks, then: firedrill validate -f %s''
            [AStr (if_out fl), AStr (if_driver fl), AStr (if_out fl)])]), s2))))"

definition schema_cmd :: "'w Cli \<Rightarrow> string \<Rightarrow> OS \<Rightarrow> (ended \<times> out list) \<times> OS" where
  "schema_cmd cx outPath s =
     (if outPath \<noteq> [] then (case os_WriteFile outPath (cx_schema cx) s of (e, s1) \<Rightarrow> ((Returned e, []), s1))
      else ((Returned (cx_stdout cx (cx_schema cx)), [OBytes (cx_schema cx)]), s))"

definition validate_line :: "Drill \<Rightarrow> msg" where
  "validate_line d = Msg ''drill %q - %d checks, driver %s, sandbox %s (ttl %s)''
     [AQuo (drillName d), AInt (int (length (sp_Verify (dr_Spec d)))), AStr (src_Driver (drillSource d)),
      AStr (sbx_Provider (sp_Sandbox (dr_Spec d))), ADur (sbx_TTL (sp_Sandbox (dr_Spec d)))]"

definition validate_cmd :: "'w Cli \<Rightarrow> string \<Rightarrow> OS \<Rightarrow> ended \<times> out list" where
  "validate_cmd cx file s =
     (case LoadAll (cx_open cx file s) of
        Inl e \<Rightarrow> (Returned (Some e), [])
      | Inr drills \<Rightarrow> (Returned None, map (OMsg \<circ> validate_line) drills @
          [OMsg (Msg ''%s is valid - %d drill(s)'' [AStr file, AInt (int (length drills))])]))"

definition keygen_cmd :: "'w Env \<Rightarrow> string \<Rightarrow> OS \<Rightarrow> (ended \<times> out list) \<times> OS" where
  "keygen_cmd env dir s =
     (case (if dir = [] then DefaultKeyDir (nv_home env) else Inr dir) of
        Inl e \<Rightarrow> ((Returned (Some e), []), s)
      | Inr d \<Rightarrow>
         (case GenerateKeypair (nv_cr env) d s of
            (Inl e, s1) \<Rightarrow> ((Returned (Some e), []), s1)
          | (Inr (priv, pub), s1) \<Rightarrow> ((Returned None, [OMsg (Msg ''private key: %s, public key:  %s'' [AStr priv, AStr pub])]), s1)))"

text \<open>The key of \<open>--public-key\<close>, for \<open>gate\<close> and \<open>verify-evidence\<close>.\<close>

definition trusted_key :: "'w Env \<Rightarrow> string \<Rightarrow> OS \<Rightarrow> string option res \<times> OS" where
  "trusted_key env pubPath s =
     (if pubPath = [] then (Inr None, s)
      else (case os_ReadFile pubPath s of
        (Inl e, s1) \<Rightarrow> (Inl e, s1)
      | (Inr data, s1) \<Rightarrow>
         (case ParsePublicKeyPEM (nv_cr env) data of
            Inl e \<Rightarrow> (Inl (Msg ''%w: %s'' [AErr e, AStr pubPath]), s1)
          | Inr k \<Rightarrow> (Inr (Some k), s1))))"

definition bundle_lines :: "BundleResult \<Rightarrow> msg list" where
  "bundle_lines res =
     (if br_SignerFingerprint res \<noteq> [] then [Msg ''signature valid - evidence is intact (signer %s)'' [AStr (br_SignerFingerprint res)]]
      else [Msg ''signature valid - evidence is intact'' []]) @
     (if br_AttestationChecked res then [Msg ''attestation valid (in-toto/DSSE, key from %s)'' [AStr (br_KeySource res)]] else []) @
     map (\<lambda>n. Msg n []) (br_Notes res)"

definition verify_evidence_cmd :: "'w Env \<Rightarrow> string \<Rightarrow> string \<Rightarrow> string list \<Rightarrow> OS \<Rightarrow> (ended \<times> out list) \<times> OS" where
  "verify_evidence_cmd env pubPath keyDir args s =
     (if length args \<noteq> 1 then ((Returned (Some (Msg ''accepts %d arg(s), received %d'' [AInt 1, AInt (int (length args))])), []), s)
      else (case trusted_key env pubPath s of
        (Inl e, s1) \<Rightarrow> ((Returned (Some e), []), s1)
      | (Inr trusted, s1) \<Rightarrow>
         (let dir = (if keyDir = [] \<and> pubPath = [] then (case DefaultKeyDir (nv_home env) of Inr d \<Rightarrow> d | Inl _ \<Rightarrow> keyDir) else keyDir) in
          case VerifyBundle (nv_js env) (nv_cr env) (hd args) trusted dir s1 of
            (Inl e, s2) \<Rightarrow> ((Returned (Some e), []), s2)
          | (Inr res, s2) \<Rightarrow> ((Returned None, map OMsg (bundle_lines res)), s2))))"

section \<open>Commands on evidence\<close>

record GateFlags =
  gf_evidenceDir :: string
  gf_format :: string
  gf_fromSpec :: string
  gf_by :: string
  gf_pubPath :: string
  gf_drills :: "string list"
  gf_controls :: "string list"
  gf_maxAge :: duration
  gf_requireSigned :: bool
  gf_allowUnverified :: bool

definition gate_subjects :: "'w Cli \<Rightarrow> GateFlags \<Rightarrow> OS \<Rightarrow> string list res" where
  "gate_subjects cx fl s =
     (let subjects = (if gf_by fl = ''control'' then gf_controls fl else gf_drills fl) in
      if gf_fromSpec fl = [] then Inr subjects
      else if gf_by fl = ''control'' then Inl (Msg ''--from-spec lists drills; it cannot be combined with --by control'' [])
      else (case LoadAll (cx_open cx (gf_fromSpec fl) s) of Inl e \<Rightarrow> Inl e | Inr drills \<Rightarrow> Inr (subjects @ map drillName drills)))"

definition gate_options :: "GateFlags \<Rightarrow> string list \<Rightarrow> string option \<Rightarrow> GateOptions" where
  "gate_options fl subjects trusted =
     \<lparr>go_Dir = gf_evidenceDir fl, go_MaxAge = gf_maxAge fl, go_By = gf_by fl, go_Subjects = subjects,
      go_RequireSigned = (gf_requireSigned fl \<or> gf_pubPath fl \<noteq> []), go_PublicKey = trusted,
      go_AllowUnverified = gf_allowUnverified fl, go_Now = 0\<rparr>"

definition gate_cmd :: "'w Cli \<Rightarrow> 'w Env \<Rightarrow> gotime \<Rightarrow> GateFlags \<Rightarrow> OS \<Rightarrow> (ended \<times> out list) \<times> OS" where
  "gate_cmd cx env now fl s =
     (case gate_subjects cx fl s of
        Inl e \<Rightarrow> ((Returned (Some e), []), s)
      | Inr subjects \<Rightarrow>
     (case trusted_key env (gf_pubPath fl) s of
        (Inl e, s1) \<Rightarrow> ((Returned (Some e), []), s1)
      | (Inr trusted, s1) \<Rightarrow>
     (case Gate (cx_un cx) (nv_js env) (nv_cr env) (cx_sortRuns cx) now (gate_options fl subjects trusted) s1 of
        (Inl e, s2) \<Rightarrow> ((Returned (Some e), []), s2)
      | (Inr rep, s2) \<Rightarrow>
         (let fin = (if gr_Violations rep > 0 then Exited exitFailed else Returned None) in
          if gf_format fl = ''text'' then ((fin, map OMsg (WriteText rep)), s2)
          else if gf_format fl = ''json'' then
            (case cx_gateJSON cx rep of
               Inl e \<Rightarrow> ((Returned (Some e), []), s2)
             | Inr j \<Rightarrow> (case cx_stdout cx j of Some e \<Rightarrow> ((Returned (Some e), []), s2) | None \<Rightarrow> ((fin, [OBytes j]), s2)))
          else ((Returned (Some (Msg ''unsupported format %q (text|json)'' [AQuo (gf_format fl)])), []), s2)))))"

text \<open>\<open>os.Create\<close> truncates the file before anything is rendered; the errors of \<open>Fprintf\<close> and of the deferred close are dropped.\<close>

definition controls_out :: "'w Cli \<Rightarrow> string \<Rightarrow> string \<Rightarrow> bool \<Rightarrow> OS \<Rightarrow> (ended \<times> out list) \<times> OS" where
  "controls_out cx outPath bytes checked s =
     (if outPath = [] then (case (if checked then cx_stdout cx bytes else None) of
          Some e \<Rightarrow> ((Returned (Some e), []), s)
        | None \<Rightarrow> ((Returned None, [OBytes bytes]), s))
      else (case os_WriteFile outPath bytes s of (e, s1) \<Rightarrow> ((Returned (if checked then e else None), []), snd (os_Close s1))))"

definition controls_cmd :: "'w Cli \<Rightarrow> 'w Env \<Rightarrow> gotime \<Rightarrow> string \<Rightarrow> string \<Rightarrow> string \<Rightarrow> OS \<Rightarrow> (ended \<times> out list) \<times> OS" where
  "controls_cmd cx env now evidenceDir format outPath s =
     (case BuildControlReport (cx_un cx) (nv_js env) (nv_cr env) (cx_sortEntries cx) now evidenceDir s of
        (Inl e, s1) \<Rightarrow> ((Returned (Some e), []), s1)
      | (Inr rep, s1) \<Rightarrow>
     (case (if outPath = [] then (None, s1) else os_WriteFile outPath [] s1) of
        (Some e, s2) \<Rightarrow> ((Returned (Some e), []), s2)
      | (None, s2) \<Rightarrow>
          if format = ''markdown'' \<or> format = ''md'' then controls_out cx outPath (cx_render cx (WriteMarkdown rep)) False s2
          else if format = ''json'' then
            (case cx_controlJSON cx rep of
               Inl e \<Rightarrow> ((Returned (Some e), []), if outPath = [] then s2 else snd (os_Close s2))
             | Inr j \<Rightarrow> controls_out cx outPath j True s2)
          else ((Returned (Some (Msg ''unsupported format %q (markdown|json)'' [AQuo format])), []),
                if outPath = [] then s2 else snd (os_Close s2))))"

definition history_cmd :: "'w Cli \<Rightarrow> string \<Rightarrow> string \<Rightarrow> OS \<Rightarrow> (ended \<times> out list) \<times> OS" where
  "history_cmd cx evidenceDir drill s =
     (case LoadHistory (cx_un cx) (cx_sortHistory cx) evidenceDir drill s of
        (Inl e, s1) \<Rightarrow> ((Returned (Some e), []), s1)
      | (Inr entries, s1) \<Rightarrow> ((Returned None, map OMsg (WriteHistory entries)), s1))"

section \<open>Commands that run drills and collect sandboxes\<close>

record RunFlags =
  rf_file :: string
  rf_evidenceDir :: string
  rf_keyDir :: string
  rf_noColor :: bool
  rf_dryRun :: bool
  rf_all :: bool

definition run_opts :: "'w Cli \<Rightarrow> RunFlags \<Rightarrow> Options" where
  "run_opts cx fl = \<lparr>op_Printer = Some \<lparr>pr_Color = \<not> rf_noColor fl \<and> cx_tty cx\<rparr>, op_EvidenceDir = rf_evidenceDir fl,
     op_KeyDir = rf_keyDir fl, op_Version = cx_version cx\<rparr>"

definition run_all_cmd ::
  "'w Cli \<Rightarrow> 'w Env \<Rightarrow> 'w Runtime \<Rightarrow> RunFlags \<Rightarrow> Drill list \<Rightarrow> OS \<Rightarrow> 'w \<Rightarrow> ((ended \<times> out list) \<times> OS \<times> 'w) option" where
  "run_all_cmd cx env ctx fl drills s w =
     (if rf_dryRun fl then
        Some ((Returned None, [OLine (LInfo (Msg ''dry run - would run %d drill(s) from %s'' [AInt (int (length drills)), AStr (rf_file fl)]))]), s, w)
      else (case RunAll env ctx drills (run_opts cx fl) s w of
        None \<Rightarrow> None
      | Some (outcomes, ls, s1, w1) \<Rightarrow>
         (case WriteScorecard outcomes of
            None \<Rightarrow> None
          | Some (score, _, failed, errored) \<Rightarrow>
              Some ((if errored > 0 then Exited exitError else if failed > 0 then Exited exitFailed else Returned None,
                map OLine ls @ map OMsg score), s1, w1))))"

definition run_one_cmd ::
  "'w Cli \<Rightarrow> 'w Env \<Rightarrow> 'w Runtime \<Rightarrow> RunFlags \<Rightarrow> Drill \<Rightarrow> OS \<Rightarrow> 'w \<Rightarrow> ((ended \<times> out list) \<times> OS \<times> 'w) option" where
  "run_one_cmd cx env ctx fl d s w =
     (if rf_dryRun fl then
        Some ((Returned None, [OLine (LInfo (Msg ''dry run - would provision %s sandbox %s (ttl %s), restore %s, run %d checks''
          [AStr (sbx_Provider (sp_Sandbox (dr_Spec d))), AStr (sbx_Image (sp_Sandbox (dr_Spec d))), ADur (sbx_TTL (sp_Sandbox (dr_Spec d))),
           AStr (from_URI (drillFrom d)), AInt (int (length (sp_Verify (dr_Spec d))))]))]), s, w)
      else (case drill_Run env ctx d (run_opts cx fl) s w of
        None \<Rightarrow> None
      | Some ((e, path, Some err), ls, s1, w1) \<Rightarrow> Some ((Returned (Some err), map OLine ls), s1, w1)
      | Some ((None, path, None), ls, s1, w1) \<Rightarrow> None
      | Some ((Some e, path, None), ls, s1, w1) \<Rightarrow>
          Some ((if \<not> ev_Verified e then Exited exitFailed else Returned None,
            map OLine ls @ map OMsg (Summary (the (op_Printer (run_opts cx fl))) e path (rep_Sign (sp_Report (dr_Spec d))))), s1, w1)))"

definition run_cmd ::
  "'w Cli \<Rightarrow> 'w Env \<Rightarrow> 'w Runtime \<Rightarrow> RunFlags \<Rightarrow> string list \<Rightarrow> OS \<Rightarrow> 'w \<Rightarrow> ((ended \<times> out list) \<times> OS \<times> 'w) option" where
  "run_cmd cx env ctx fl args s w =
     (if length args > 1 then
        Some ((Returned (Some (Msg ''accepts at most %d arg(s), received %d'' [AInt 1, AInt (int (length args))])), []), s, w)
      else (case LoadAll (cx_open cx (rf_file fl) s) of
        Inl e \<Rightarrow> Some ((Returned (Some e), []), s, w)
      | Inr drills \<Rightarrow>
          if rf_all fl then
            (if args \<noteq> [] then Some ((Returned (Some (Msg ''--all and a drill name are mutually exclusive'' [])), []), s, w)
             else run_all_cmd cx env ctx fl drills s w)
          else (case args of
            [] \<Rightarrow> Some ((Returned (Some (Msg ''provide a drill name or --all (file contains %d drills)'' [AInt (int (length drills))])), []), s, w)
          | name # _ \<Rightarrow>
             (case FindDrill drills name of
                Inl e \<Rightarrow> Some ((Returned (Some e), []), s, w)
              | Inr d \<Rightarrow> run_one_cmd cx env ctx fl d s w))))"

record GcFlags =
  cf_olderThan :: duration
  cf_dryRun :: bool
  cf_dockerOnly :: bool
  cf_k8sOnly :: bool
  cf_force :: bool

text \<open>A sweep that returns neither an error nor a result would be dereferenced.\<close>

definition printRes :: "string \<Rightarrow> GcResult option \<times> msg option \<Rightarrow> msg list option" where
  "printRes kind r =
     (case r of
        (_, Some err) \<Rightarrow> Some [Msg ''%s sweep unavailable: %v'' [AStr kind, AErr err]]
      | (None, None) \<Rightarrow> None
      | (Some res, None) \<Rightarrow>
          Some (map (\<lambda>r. Msg ''reaped %s'' [AStr r]) (gr_Reaped res) @ map (\<lambda>s. Msg ''kept   %s'' [AStr s]) (gr_Skipped res) @
            map (\<lambda>e. Msg ''error  %s'' [AErr e]) (gr_Errors res) @
            (if length (gr_Reaped res) + length (gr_Skipped res) + length (gr_Errors res) = 0 then [Msg ''no %s sandboxes found'' [AStr kind]] else [])))"

definition gc_cmd :: "'w Cli \<Rightarrow> 'w Env \<Rightarrow> 'w Runtime \<Rightarrow> GcFlags \<Rightarrow> 'w \<Rightarrow> ((ended \<times> out list) \<times> 'w) option" where
  "gc_cmd cx env ctx fl w =
     (let o' = \<lparr>go_OlderThan = cf_olderThan fl, go_DryRun = cf_dryRun fl, go_Force = cf_force fl\<rparr> in
      case (if cf_k8sOnly fl then (Some [], w)
            else (case SweepDocker ctx (cx_parse cx) (nv_docker env ctx) (cx_gcDocker cx) o' w of (r, w1) \<Rightarrow> (printRes ''docker'' r, w1))) of
        (None, w1) \<Rightarrow> None
      | (Some ls, w1) \<Rightarrow>
     (case (if cf_dockerOnly fl then (Some [], w1)
            else (case SweepKubernetes ctx (cx_parse cx) (nv_kube env ctx) (cx_gcKube cx) o' w1 of (r, w2) \<Rightarrow> (printRes ''kubernetes'' r, w2))) of
        (None, w2) \<Rightarrow> None
      | (Some ls', w2) \<Rightarrow> Some ((Returned None, map OMsg (ls @ ls')), w2)))"

definition operator_cmd ::
  "'w Cli \<Rightarrow> 'w Manager \<Rightarrow> 'w Runtime \<Rightarrow> 'w Cluster \<Rightarrow> 'w Env \<Rightarrow> string \<Rightarrow> string \<Rightarrow> int \<Rightarrow> 'w \<Rightarrow> ended \<times> 'w" where
  "operator_cmd cx mg rt cl env evidenceDir metricsAddr maxConcurrent w =
     (case RunManager mg rt cl (nv_kube env rt) (cx_gcKube cx) (cx_version cx) evidenceDir metricsAddr maxConcurrent w of (e, w1) \<Rightarrow> (Returned e, w1))"

section \<open>The exit code of a run\<close>

text \<open>What the arguments select, and the code that the outcomes of the selected drills deserve.\<close>

definition selected :: "Drill list res \<Rightarrow> RunFlags \<Rightarrow> string list \<Rightarrow> Drill list option" where
  "selected loaded fl args =
     (case loaded of
        Inl _ \<Rightarrow> None
      | Inr ds \<Rightarrow>
          if rf_all fl then (if args = [] then Some ds else None)
          else (case args of [name] \<Rightarrow> (case FindDrill ds name of Inl _ \<Rightarrow> None | Inr d \<Rightarrow> Some [d]) | _ \<Rightarrow> None))"

definition verdict_exit :: "Outcome list \<Rightarrow> int" where
  "verdict_exit ocs =
     (if list_ex (\<lambda>oc. oc_Err oc \<noteq> None) ocs then exitError else if list_all oc_verified ocs then 0 else exitFailed)"

lemma run_all_cmd_exit:
  assumes "rt_clock ctx" and "outside_forward ctx env" and "\<not> rf_dryRun fl"
  obtains ocs x out ls s1 w1 where "RunAll env ctx ds (run_opts cx fl) s w = Some (ocs, ls, s1, w1)"
    "run_all_cmd cx env ctx fl ds s w = Some ((x, out), s1, w1)" "exit_code x = verdict_exit ocs"
proof -
  obtain ocs ls s1 w1 where r: "RunAll env ctx ds (run_opts cx fl) s w = Some (ocs, ls, s1, w1)" and wf: "list_all oc_wf ocs"
    by (rule RunAll_outcomes[OF assms(1,2)])
  obtain score v f e where sc: "WriteScorecard ocs = Some (score, v, f, e)" "v = length (filter oc_verified ocs)"
    "e = length (filter (\<lambda>oc. oc_Err oc \<noteq> None) ocs)" "v + f + e = length ocs"
    by (rule WriteScorecard_counts[OF wf])
  have e0: "e = 0 \<longleftrightarrow> \<not> list_ex (\<lambda>oc. oc_Err oc \<noteq> None) ocs" unfolding sc(3) by (auto simp: filter_empty_conv list_ex_iff)
  have f0: "f = 0 \<longleftrightarrow> list_all oc_verified ocs" if "e = 0"
  proof -
    have "f = 0 \<longleftrightarrow> length (filter oc_verified ocs) = length ocs" using sc(2,4) that by auto
    also have "\<dots> \<longleftrightarrow> list_all oc_verified ocs" by (induction ocs) (auto simp: le_imp_less_Suc less_imp_neq)
    finally show ?thesis .
  qed
  show thesis
  proof (rule that[OF r])
    show "run_all_cmd cx env ctx fl ds s w = Some ((if e > 0 then Exited exitError else if f > 0 then Exited exitFailed else Returned None,
        map OLine ls @ map OMsg score), s1, w1)" using assms(3) r sc(1) by (simp add: run_all_cmd_def)
    show "exit_code (if e > 0 then Exited exitError else if f > 0 then Exited exitFailed else Returned None) = verdict_exit ocs"
      using e0 f0 by (auto simp: exit_code_def verdict_exit_def)
  qed
qed

lemma run_one_cmd_exit:
  assumes "rt_clock ctx" and "outside_forward ctx env" and "\<not> rf_dryRun fl"
  obtains ocs x out ls s1 w1 where "RunAll env ctx [d] (run_opts cx fl) s w = Some (ocs, ls, s1, w1)"
    "run_one_cmd cx env ctx fl d s w = Some ((x, out), s1, w1)" "exit_code x = verdict_exit ocs"
proof -
  obtain e path err ls s1 w1 where r: "drill_Run env ctx d (run_opts cx fl) s w = Some ((e, path, err), ls, s1, w1)"
    using drill_Run_ends[OF assms(1,2)] by blast
  have "err \<noteq> None \<or> e \<noteq> None" by (rule drill_Run_outcome[OF r])
  then show thesis using r assms(3)
    by (cases err; cases e) (auto intro!: that simp: RunAll_def run_one_cmd_def exit_code_def verdict_exit_def oc_verified_def)
qed

text \<open>
  C7: the exit code of \<open>firedrill run\<close> tells how the drills ended. With a clock that waiting advances, a run that is not a dry run always ends. It exits with 2
  when the file does not load or the arguments select no drill; otherwise with the code of the outcomes of the selected drills: 2 when one could not execute,
  else 1 when one was not verified, and 0 exactly when all were verified.
\<close>

theorem run_exit_code:
  assumes "rt_clock ctx" and "outside_forward ctx env" and "\<not> rf_dryRun fl"
  shows "\<exists>x out s1 w1. run_cmd cx env ctx fl args s w = Some ((x, out), s1, w1) \<and>
    exit_code x = (case selected (LoadAll (cx_open cx (rf_file fl) s)) fl args of
        None \<Rightarrow> exitError
      | Some ds \<Rightarrow> (case RunAll env ctx ds (run_opts cx fl) s w of None \<Rightarrow> -1 | Some (ocs, _) \<Rightarrow> verdict_exit ocs))"
proof -
  have e: "exit_code (Returned (Some m)) = exitError" for m by (simp add: exit_code_def)
  have all: "\<exists>x out s1 w1. run_all_cmd cx env ctx fl ds s w = Some ((x, out), s1, w1) \<and>
      exit_code x = (case RunAll env ctx ds (run_opts cx fl) s w of None \<Rightarrow> -1 | Some (ocs, _) \<Rightarrow> verdict_exit ocs)" for ds
    by (rule run_all_cmd_exit[OF assms, of ds cx s w]) auto
  have one: "\<exists>x out s1 w1. run_one_cmd cx env ctx fl d s w = Some ((x, out), s1, w1) \<and>
      exit_code x = (case RunAll env ctx [d] (run_opts cx fl) s w of None \<Rightarrow> -1 | Some (ocs, _) \<Rightarrow> verdict_exit ocs)" for d
    by (rule run_one_cmd_exit[OF assms, of d cx s w]) auto
  show ?thesis
  proof (cases "LoadAll (cx_open cx (rf_file fl) s)")
    case (Inl m)
    then show ?thesis by (simp add: run_cmd_def selected_def e)
  next
    case (Inr ds)
    consider "args = []" | name where "args = [name]" | a b rest where "args = a # b # rest" by (cases args rule: remdups_adj.cases) auto
    then show ?thesis
    proof cases
      case 1
      then show ?thesis using all[of ds] Inr by (cases "rf_all fl") (simp_all add: run_cmd_def selected_def e)
    next
      case 2
      then show ?thesis using one Inr by (cases "rf_all fl"; cases "FindDrill ds name") (simp_all add: run_cmd_def selected_def e)
    next
      case 3
      then show ?thesis using Inr by (simp add: run_cmd_def selected_def e)
    qed
  qed
qed

section \<open>What a passing gate guarantees\<close>

lemma trusted_key_Inr:
  assumes "trusted_key env p s = (Inr t, s1)"
  shows "os_fs s1 = os_fs s" and "p \<noteq> [] \<Longrightarrow> \<exists>data m k. os_fs s p = Some (File data m) \<and> ParsePublicKeyPEM (nv_cr env) data = Inr k \<and> t = Some k"
proof -
  have r: "os_ReadFile p s = (y, v) \<Longrightarrow> os_fs v = os_fs s" for y v using os_read_fs(1)[of p s] by simp
  show "os_fs s1 = os_fs s" using assms by (auto simp: trusted_key_def split: prod.splits sum.splits if_splits dest: r)
  show "p \<noteq> [] \<Longrightarrow> \<exists>data m k. os_fs s p = Some (File data m) \<and> ParsePublicKeyPEM (nv_cr env) data = Inr k \<and> t = Some k"
    using assms by (auto simp: trusted_key_def split: prod.splits sum.splits if_splits dest: os_ReadFile_Inr)
qed

lemma gate_cmd_passed:
  assumes "gate_cmd cx env now fl s = ((x, out), t)" and "exit_code x = 0"
  obtains subjects trusted s1 rep where "gate_subjects cx fl s = Inr subjects" "trusted_key env (gf_pubPath fl) s = (Inr trusted, s1)"
    "Gate (cx_un cx) (nv_js env) (nv_cr env) (cx_sortRuns cx) now (gate_options fl subjects trusted) s1 = (Inr rep, t)" "gr_Violations rep = 0"
  using assms
  by (auto simp: gate_cmd_def Let_def exit_code_def exitError_def exitFailed_def split: sum.splits prod.splits if_splits option.splits)

text \<open>
  C2: what a passing gate guarantees. When \<open>firedrill gate --from-spec F --public-key K --max-age M\<close> exits with 0, unverified runs not being tolerated, then for
  every drill of the spec file there is an evidence file on disk that decodes to a verified run of that drill, finished no longer than \<open>M\<close> ago, and whose
  bytes carry a valid signature of the key in \<open>K\<close>. This holds whichever system calls fail on the way.
\<close>

theorem gate_from_spec_guarantee:
  assumes "sorts_runs (cx_sortRuns cx)" and "gate_cmd cx env now fl s = ((x, out), t)" and "exit_code x = 0"
    and "gf_fromSpec fl \<noteq> []" and "gf_pubPath fl \<noteq> []" and "gf_maxAge fl > 0" and "\<not> gf_allowUnverified fl"
  shows "\<exists>ds keyData mk k. LoadAll (cx_open cx (gf_fromSpec fl) s) = Inr ds \<and>
    os_fs s (gf_pubPath fl) = Some (File keyData mk) \<and> ParsePublicKeyPEM (nv_cr env) keyData = Inr k \<and>
    (\<forall>d \<in> set ds. \<exists>path data m e sigData m'. os_fs s path = Some (File data m) \<and> cx_un cx data = Inr e \<and>
       ev_Drill e = drillName d \<and> ev_Verified e \<and> time_Sub now (ev_FinishedAt e) \<le> gf_maxAge fl \<and>
       os_fs s (path @ ''.sig'') = Some (File sigData m') \<and> signed_by (nv_js env) (nv_cr env) sigData k data)"
proof -
  obtain subjects trusted s1 rep where su: "gate_subjects cx fl s = Inr subjects" and tk: "trusted_key env (gf_pubPath fl) s = (Inr trusted, s1)"
    and g: "Gate (cx_un cx) (nv_js env) (nv_cr env) (cx_sortRuns cx) now (gate_options fl subjects trusted) s1 = (Inr rep, t)" "gr_Violations rep = 0"
    by (rule gate_cmd_passed[OF assms(2,3)])
  obtain keyData mk k where k: "os_fs s (gf_pubPath fl) = Some (File keyData mk)" "ParsePublicKeyPEM (nv_cr env) keyData = Inr k" "trusted = Some k"
    using trusted_key_Inr(2)[OF tk assms(5)] by blast
  have fs: "os_fs s1 = os_fs s" by (rule trusted_key_Inr(1)[OF tk])
  obtain ds where ds: "LoadAll (cx_open cx (gf_fromSpec fl) s) = Inr ds" "drillName ` set ds \<subseteq> set subjects" "gf_by fl \<noteq> ''control''"
    using su assms(4) by (auto simp: gate_subjects_def Let_def split: sum.splits if_splits)
  let ?o = "gate_options fl subjects trusted"
  have o: "\<not> go_AllowUnverified ?o" "go_RequireSigned ?o" "go_MaxAge ?o > 0" "go_Now ?o = 0" "go_Subjects ?o = subjects" "go_PublicKey ?o = Some k"
    "go_MaxAge ?o = gf_maxAge fl" "go_By ?o = gf_by fl"
    using assms(5,6,7) k(3) by (simp_all add: gate_options_def)
  have "gate_by ?o = ''drill''" using g(1) Gate_ok[of "cx_un cx" "nv_js env" "nv_cr env" "cx_sortRuns cx" now ?o s1] ds(3) o(8)
    by (auto simp: gate_by_def split: if_splits)
  note guarantee = Gate_no_violations[OF assms(1) g o(1-4) this]
  have "\<exists>path data m e sigData m'. os_fs s path = Some (File data m) \<and> cx_un cx data = Inr e \<and>
       ev_Drill e = drillName d \<and> ev_Verified e \<and> time_Sub now (ev_FinishedAt e) \<le> gf_maxAge fl \<and>
       os_fs s (path @ ''.sig'') = Some (File sigData m') \<and> signed_by (nv_js env) (nv_cr env) sigData k data" if "d \<in> set ds" for d
    using guarantee[of "drillName d", unfolded fs o(5,6,7)] ds(2) that by blast
  then show ?thesis using ds(1) k(1,2) by blast
qed

section \<open>The other commands\<close>

text \<open>\<open>init\<close> without \<open>--force\<close> leaves a file it can see alone; with a failing \<open>Stat\<close> it cannot see one, and overwrites it.\<close>

lemma init_keeps_file:
  assumes "\<not> if_force fl" and "os_healthy s" and "os_fs s p = Some n"
  shows "os_fs (snd (init_cmd cx fl s)) p = Some n"
proof (cases "p = if_out fl \<or> \<not> res_ok (Template cx (if_driver fl))")
  case True
  then show ?thesis using assms by (cases n) (auto simp: init_cmd_def os_Stat_def split: sum.splits)
next
  case False
  obtain st s1 where st: "os_Stat (if_out fl) s = (st, s1)" by fastforce
  have fs: "os_fs s1 = os_fs s" using os_read_fs(2)[of "if_out fl" s] st by simp
  obtain doc where doc: "Template cx (if_driver fl) = Inr doc" using False by (cases "Template cx (if_driver fl)") auto
  have "os_frame {if_out fl} s1 (snd (os_WriteFile (if_out fl) doc s1))" by (rule os_WriteFile_frame)
  then have "os_fs (snd (os_WriteFile (if_out fl) doc s1)) p = os_fs s p" using False fs by (auto simp: os_frame_def)
  then show ?thesis using assms(3) fs by (auto simp: init_cmd_def doc st split: prod.splits option.splits)
qed

text \<open>A collection never fails: a sweep that is not available is a line of its output.\<close>

lemma gc_cmd_returns: "\<exists>out w1. gc_cmd cx env ctx fl w = Some ((Returned None, out), w1)"
proof -
  have d: "printRes k (fst (SweepDocker rt parse api gd o' w)) \<noteq> None" for k rt parse api gd o' w
    by (auto simp: printRes_def SweepDocker_def Let_def split: prod.splits option.splits sum.splits)
  have k: "printRes k (fst (SweepKubernetes rt parse api gk o' w)) \<noteq> None" for k rt parse api gk o' w
    by (auto simp: printRes_def SweepKubernetes_def Let_def split: prod.splits option.splits sum.splits)
  let ?o = "\<lparr>go_OlderThan = cf_olderThan fl, go_DryRun = cf_dryRun fl, go_Force = cf_force fl\<rparr>"
  obtain r1 v1 where x1: "SweepDocker ctx (cx_parse cx) (nv_docker env ctx) (cx_gcDocker cx) ?o w = (r1, v1)" by fastforce
  obtain l1 where l1: "printRes ''docker'' r1 = Some l1" using d[of "''docker''" ctx "cx_parse cx" "nv_docker env ctx" "cx_gcDocker cx" ?o w] x1 by auto
  define w1 where "w1 = (if cf_k8sOnly fl then w else v1)"
  obtain r2 v2 where x2: "SweepKubernetes ctx (cx_parse cx) (nv_kube env ctx) (cx_gcKube cx) ?o w1 = (r2, v2)" by fastforce
  obtain l2 where l2: "printRes ''kubernetes'' r2 = Some l2" using k[of "''kubernetes''" ctx "cx_parse cx" "nv_kube env ctx" "cx_gcKube cx" ?o w1] x2 by auto
  show ?thesis using x1 l1 x2 l2 unfolding w1_def by (cases "cf_k8sOnly fl"; cases "cf_dockerOnly fl") (simp_all add: gc_cmd_def)
qed

section \<open>Commands evaluated\<close>

definition demo_cli :: "world Cli" where
  "demo_cli = \<lparr>cx_open = \<lambda>f s. Inr [Inr (demo_cr_drill [])], cx_un = demo_unEvidence, cx_sortRuns = sort_newest fin,
     cx_sortEntries = \<lambda>es. es, cx_sortHistory = \<lambda>es. es, cx_asset = \<lambda>p. None, cx_assets = \<lambda>p. Inr [], cx_schema = [], cx_stdout = \<lambda>d. None,
     cx_gateJSON = \<lambda>r. bad, cx_controlJSON = \<lambda>r. bad, cx_render = \<lambda>ms. [], cx_parse = Some \<circ> read_stamp,
     cx_gcDocker = \<lparr>gd_ContainerList = Pair (Inr []), gd_NetworkList = Pair (Inr [])\<rparr>,
     cx_gcKube = \<lparr>gk_Pods = Pair (Inr []), gk_Namespaces = Pair (Inr []), gk_Restores = Pair (Inr [])\<rparr>, cx_tty = False, cx_version = ''1''\<rparr>"

definition demo_run_flags :: RunFlags where
  "demo_run_flags = \<lparr>rf_file = ''firedrill.yaml'', rf_evidenceDir = [], rf_keyDir = [], rf_noColor = False, rf_dryRun = False, rf_all = False\<rparr>"

lemma demo_cli_loads: "LoadAll (cx_open demo_cli f s) = Inr [demo_cr_drill []]"
proof -
  have "Validate (demo_cr_drill []) = None"
    using demo_cr_drill_valid[of "[]" Map.empty] by (auto simp: drillFromCR_def Let_def demo_cluster_def demo_cr_def split: option.splits)
  then show ?thesis by (simp add: demo_cli_def LoadAll_def ParseAll_Inr)
qed

text \<open>Of a named drill whose backup is gone, the run exits with 2.\<close>

theorem run_exit_code_witness:
  "\<exists>x out s1 w1. run_cmd demo_cli demo_env demo_wrt demo_run_flags [''pay-1''] demo_os (0, []) = Some ((x, out), s1, w1) \<and> exit_code x = 2"
proof -
  obtain err s1 where r: "drill_Run demo_env demo_wrt (demo_cr_drill []) (run_opts demo_cli demo_run_flags) demo_os (0, []) = Some ((None, [], Some err), [], s1, (0, []))"
    using demo_error_run[of demo_env demo_wrt "[]" "run_opts demo_cli demo_run_flags" "(0, [])"] by blast
  have "drillName (demo_cr_drill []) = ''pay-1''" by (simp add: demo_cr_drill_def)
  then have "selected (LoadAll (cx_open demo_cli (rf_file demo_run_flags) demo_os)) demo_run_flags [''pay-1''] = Some [demo_cr_drill []]"
    by (simp add: demo_cli_loads selected_def demo_run_flags_def FindDrill_def)
  moreover have "\<not> rf_dryRun demo_run_flags" by (simp add: demo_run_flags_def)
  ultimately show ?thesis
    using run_exit_code[OF demo_forward, of demo_run_flags demo_cli "[''pay-1'']" demo_os "(0, [])"] r
    by (auto simp: RunAll_def verdict_exit_def exitError_def)
qed

definition demo_sig :: string where
  "demo_sig = (case js_Signature demo_json (sig_envelope demo_crypto demo_key ''run'') of Inr d \<Rightarrow> d | Inl _ \<Rightarrow> [])"

definition demo_pub :: string where "demo_pub = cr_Public demo_crypto demo_key"

definition demo_gate_os :: OS where
  "demo_gate_os = demo_evidence_os\<lparr>os_fs := (os_fs demo_evidence_os)(''evidence/r.json.sig'' \<mapsto> File demo_sig 1,
     ''k.pub'' \<mapsto> File (enc_pair (pubPEMType, demo_pub)) 1)\<rparr>"

definition demo_gate_flags :: GateFlags where
  "demo_gate_flags = \<lparr>gf_evidenceDir = ''evidence'', gf_format = ''text'', gf_fromSpec = ''firedrill.yaml'', gf_by = ''drill'', gf_pubPath = ''k.pub'',
     gf_drills = [], gf_controls = [], gf_maxAge = 10, gf_requireSigned = False, gf_allowUnverified = False\<rparr>"

lemma demo_gate_files:
  "os_healthy demo_gate_os" "os_fs demo_gate_os ''evidence/r.json'' = Some (File ''run'' 1)" "os_fs demo_gate_os ''evidence/r.json.sig'' = Some (File demo_sig 1)"
  "os_fs demo_gate_os ''k.pub'' = Some (File (enc_pair (pubPEMType, demo_pub)) 1)"
  by (simp_all add: demo_gate_os_def demo_evidence_os_def os_healthy_def demo_os_def)

lemma demo_gate_key: "trusted_key demo_env ''k.pub'' demo_gate_os = (Inr (Some demo_pub), os_step demo_gate_os)"
proof -
  have "length demo_pub = 32" by (simp add: demo_pub_def demo_crypto_def demo_key_def)
  then show ?thesis using os_ReadFile_healthy[OF demo_gate_files(1,4)]
    by (simp add: trusted_key_def ParsePublicKeyPEM_def demo_crypto_def dec_enc_pair)
qed

lemma demo_gate_scan:
  "\<exists>s1. scanEvidence demo_unEvidence ''evidence'' (os_step demo_gate_os) = (Inr [\<lparr>ef_Path = ''evidence/r.json'', ef_E = demo_evidence\<rparr>], s1) \<and> os_healthy s1"
  by (simp add: scanEvidence_def filepath_Glob.simps demo_glob cleanGlobPath_def glob_dir_def os_Stat_def os_ReadDir_def
      os_ReadFile_def demo_gate_os_def demo_evidence_os_def demo_os_def demo_unEvidence_def bad_def demo_evidence_def os_healthy_def)

lemma demo_gate_signed:
  assumes "os_healthy s" and "os_fs s = os_fs demo_gate_os"
  shows "fst (Verify demo_json demo_crypto ''evidence/r.json'' (Some demo_pub) s) = None"
proof -
  have "js_Signature demo_json (sig_envelope demo_crypto demo_key ''run'') = Inr demo_sig" by (simp add: demo_sig_def demo_json_def)
  then have "check_signature demo_json demo_crypto (Some demo_pub) ''run'' demo_sig = None"
    using check_signature_signed(1)[of demo_json demo_crypto demo_key "''run''" demo_sig] demo_laws by (simp add: demo_pub_def)
  then show ?thesis using assms demo_gate_files os_ReadFile_healthy[of s "''evidence/r.json''" "''run''" 1]
      os_ReadFile_healthy[of "os_step s" "''evidence/r.json.sig''" demo_sig 1] by (simp add: Verify_def)
qed

lemma demo_gate_passes:
  "\<exists>x out t. gate_cmd demo_cli demo_env 12 demo_gate_flags demo_gate_os = ((x, out), t) \<and> exit_code x = 0"
proof -
  have subj: "gate_subjects demo_cli demo_gate_flags demo_gate_os = Inr [''pay-1'']"
    by (simp add: gate_subjects_def demo_gate_flags_def demo_cli_loads demo_cr_drill_def Let_def)
  obtain s1 where sc: "scanEvidence demo_unEvidence ''evidence'' (os_step demo_gate_os) = (Inr [\<lparr>ef_Path = ''evidence/r.json'', ef_E = demo_evidence\<rparr>], s1)"
    and h: "os_healthy s1" using demo_gate_scan by blast
  have fs: "os_fs s1 = os_fs demo_gate_os" using scanEvidence_Inr(1)[OF sc] by simp
  obtain s2 where v: "Verify demo_json demo_crypto ''evidence/r.json'' (Some demo_pub) s1 = (None, s2)" using demo_gate_signed[OF h fs] by (metis prod.collapse)
  let ?o = "gate_options demo_gate_flags [''pay-1''] (Some demo_pub)"
  have "OK (fst (evaluate demo_json demo_crypto (sort_newest fin) ''pay-1'' [\<lparr>ef_Path = ''evidence/r.json'', ef_E = demo_evidence\<rparr>] ?o 12 s1))"
    by (simp add: evaluate_def OK_def Let_def sort_newest_def gate_options_def demo_gate_flags_def v age_violations_def demo_evidence_def time_Sub_def)
  then have "\<exists>rep t. Gate demo_unEvidence demo_json demo_crypto (sort_newest fin) 12 ?o (os_step demo_gate_os) = (Inr rep, t) \<and> gr_Violations rep = 0"
    using sc by (auto simp: Gate_def gate_options_def demo_gate_flags_def Let_def gate_groups_def subjectsOf_def group_look_def demo_evidence_def split: prod.splits)
  then show ?thesis using subj demo_gate_key
    by (auto simp: gate_cmd_def Let_def demo_gate_flags_def exit_code_def demo_cli_def)
qed

theorem gate_from_spec_guarantee_witness:
  "\<exists>path data m e sigData m'. os_fs demo_gate_os path = Some (File data m) \<and> demo_unEvidence data = Inr e \<and> ev_Drill e = ''pay-1'' \<and> ev_Verified e \<and>
     os_fs demo_gate_os (path @ ''.sig'') = Some (File sigData m') \<and> signed_by demo_json demo_crypto sigData demo_pub data"
proof -
  obtain x out t where g: "gate_cmd demo_cli demo_env 12 demo_gate_flags demo_gate_os = ((x, out), t)" "exit_code x = 0" using demo_gate_passes by blast
  have s: "sorts_runs (cx_sortRuns demo_cli)" using newest.slice_sort_axioms by (simp add: demo_cli_def)
  have f: "gf_fromSpec demo_gate_flags \<noteq> []" "gf_pubPath demo_gate_flags \<noteq> []" "gf_maxAge demo_gate_flags > 0" "\<not> gf_allowUnverified demo_gate_flags"
    by (simp_all add: demo_gate_flags_def)
  have d: "drillName (demo_cr_drill []) = ''pay-1''" by (simp add: demo_cr_drill_def)
  have k: "ParsePublicKeyPEM demo_crypto (enc_pair (pubPEMType, demo_pub)) = Inr demo_pub"
    by (simp add: ParsePublicKeyPEM_def demo_crypto_def dec_enc_pair demo_pub_def demo_key_def)
  show ?thesis
    using gate_from_spec_guarantee[OF s g f] d k demo_gate_files(4) by (simp add: demo_cli_loads) (simp add: demo_gate_flags_def demo_cli_def, blast)
qed

end
