(* ===== verification/Spec2Isabelle.thy ===== *)
theory Spec2Isabelle
  imports FD_Duration FD_Verify FD_Source FD_Evidence FD_Report FD_Drivers FD_Sandbox FD_Kube FD_Notify FD_Demo FD_GC FD_Operator FD_Cli
begin

text \<open>
  FireDrill proves that backups restore. A \<^emph>\<open>drill\<close> is described by a YAML document; running it fetches the newest backup, starts a throw-away database in
  a container or a pod (or has Velero restore a namespace), restores the backup into it, runs checks against what came back, destroys the sandbox and writes
  an evidence record that can be signed. Other commands read the evidence back: a gate for CI, reports by compliance control, a history. An operator runs
  drills on a schedule inside a cluster, and a garbage collector reaps what dead drills left behind.

  This development models the Go code under \<^verbatim>\<open>src/pkg\<close> and \<^verbatim>\<open>src/cmd\<close> as functions and proves what the parts promise each other and the user.

  \<^bold>\<open>How the code is modelled.\<close>
    \<^item> A struct is a record, an interface with two implementations a datatype, a function a definition under its own name (with a prefix where names clash
      between packages: \<open>pg_Restore\<close>, \<open>docker_Provision\<close>, \<open>drill_Run\<close>, \<open>gate_cmd\<close>). A long function is cut at its natural joints, one definition per stage.
    \<^item> An error is a value: \<open>'a res\<close> is \<open>msg + 'a\<close>, and \<open>msg\<close> keeps the format string with its arguments. A panic, a nil dereference or a loop that does not end
      is the value \<open>None\<close> of an option, and its absence is proved.
    \<^item> Files are the record \<open>OS\<close> (\<open>FD_OS\<close>): a map from paths to contents, with an oracle that may make any system call fail. All other effects go through a
      type variable \<open>'w\<close>, the world, which the clients of outside services thread: the Docker and Kubernetes APIs, the database, HTTP, Prometheus, the cluster.
      Each is a record of functions on the world (\<open>Docker\<close>, \<open>Kube\<close>, \<open>DB\<close>, \<open>Http\<close>, \<open>Cluster\<close>, ...); what is relied on is stated as a named predicate
      (\<open>docker_laws\<close>, \<open>cluster_laws\<close>, \<open>policy_laws\<close>, \<open>codec_errors\<close>, \<open>json_roundtrip\<close>, \<open>ed25519_correct\<close>, \<open>rfc3339_reads\<close>), and each such predicate is shown to hold of a concrete instance.
    \<^item> Integers are \<open>int\<close>, with the wrap-around of \<open>int64\<close> written out (\<open>i64\<close>) where the code can reach it; times and durations are nanoseconds, and \<open>time.Sub\<close>
      saturates.
    \<^item> A polling loop is recursion on fuel, and the fuel is shown to be enough: \<open>podsReady_fuel\<close> (one poll per two seconds of the timeout), 182 polls for a
      cluster restored from a base backup, 361 for a Docker database, 241 for a pod. That a loop returns is proved from \<open>rt_clock\<close>: waiting advances the clock.
      Where the surrounding function needs a value (\<open>podsReady\<close>, \<open>docker_waitReady\<close>, \<open>kube_waitReady\<close>), running out of fuel is written as the error of the timeout; under
      \<open>rt_clock\<close> that case does not occur (\<open>podsReady_passes_iff\<close>, \<open>docker_waitReady_loop\<close>, \<open>kube_waitReady_loop\<close>).
    \<^item> An opened backup reaches a restore tool as a \<open>FileStream\<close>: the bytes that could be read, and the read error, if any, that cut it short. Docker's \<open>Exec\<close> passes on the
      bytes and drops the error, as the code does.
    \<^item> Two simplifications of the drill as a whole: fetching acts on the files and not on the world, so it takes no time of the clock; and the durations in the evidence are
      exact nanoseconds where the code stores floating-point seconds.
    \<^item> Interleaving is explicit: the TTL watchdog may fire at the points where it matters, and \<open>teardown_steps\<close> and \<open>op_steps\<close> are the relations of all
      sequences of teardown calls and of operator activity.

  \<^bold>\<open>The theories, and the sources they model.\<close>
    \<^descr>[\<open>FD_Base\<close>] the prelude: errors, integers, strings, time, and the interface \<open>slice_sort\<close> of \<open>sort.Slice\<close>.
    \<^descr>[\<open>FD_Regex\<close>, \<open>FD_Path\<close>, \<open>FD_Time\<close>, \<open>FD_Encoding\<close>, \<open>FD_OS\<close>] what the sources use of the Go library: anchored regular expressions by derivatives,
      \<open>path.Match\<close> and \<open>path.Join\<close>, RFC 3339 and file stamps, hex, base64 and the DSSE encoding (interface \<open>codec\<close>), files with faults.
    \<^descr>[\<open>FD_Spec\<close>] \<^verbatim>\<open>pkg/spec/spec.go\<close>: validation equals an independent table of well-formed drills; which files load.
    \<^descr>[\<open>FD_Duration\<close>] \<open>Duration\<close> of the same file, with \<open>time.ParseDuration\<close> and \<open>Duration.String\<close>: a duration written is read back.
    \<^descr>[\<open>FD_Verify\<close>] \<^verbatim>\<open>pkg/verify\<close>: the checks; which results they give, what they leak, when \<open>podsReady\<close> passes.
    \<^descr>[\<open>FD_Source\<close>] \<^verbatim>\<open>pkg/source\<close>: choosing the newest backup, size caps and their overflow, decompression, decryption, spooling; fetching is read-only, and a failed gpg never passes for a
      short backup.
    \<^descr>[\<open>FD_Evidence\<close>] \<^verbatim>\<open>pkg/report/evidence.go\<close>, \<^verbatim>\<open>sign.go\<close>, \<^verbatim>\<open>attest.go\<close>, \<^verbatim>\<open>bundle.go\<close>: atomic writes; what is signed verifies, what verifies was signed.
    \<^descr>[\<open>FD_Report\<close>] the rest of \<^verbatim>\<open>pkg/report\<close>: the gate, the reports, the printer; the interface \<open>multimap\<close>.
    \<^descr>[\<open>FD_Drivers\<close>] \<^verbatim>\<open>pkg/drivers\<close> for PostgreSQL, MySQL, MongoDB: restores, quoting, where passwords go.
    \<^descr>[\<open>FD_Sandbox\<close>, \<open>FD_Kube\<close>] \<^verbatim>\<open>pkg/sandbox\<close> with the Docker and Kubernetes providers, and \<^verbatim>\<open>pkg/drivers/velero\<close>: provisioning leaves nothing on failure,
      teardown happens once and sticks (interface \<open>teardown\<close>, interpreted for each provider), when a pod is cut off from all egress, what a Velero restore reports.
    \<^descr>[\<open>FD_Notify\<close>] \<^verbatim>\<open>pkg/notify\<close>, \<^verbatim>\<open>pkg/metrics\<close>.
    \<^descr>[\<open>FD_Drill\<close>, \<open>FD_Guarantees\<close>, \<open>FD_Demo\<close>] \<^verbatim>\<open>pkg/drill\<close>: the drill end to end and the fleet run; the verdict is what the evidence records, the evidence on
      disk is the evidence returned, a signed drill verifies, every run ends; and one complete drill, evaluated.
    \<^descr>[\<open>FD_Lifetime\<close>, \<open>FD_Ephemeral\<close>] what a drill leaves running, over the definitions of the providers, the drivers, the checks and \<open>FD_Drill\<close>: no container,
      network or pod outlives an engine drill, no namespace a Velero drill.
    \<^descr>[\<open>FD_GC\<close>] \<^verbatim>\<open>pkg/gc\<close>: a sweep removes exactly what is due, and spares what has a running lease.
    \<^descr>[\<open>FD_Operator\<close>] \<^verbatim>\<open>pkg/operator\<close>: the reconciler; when a drill runs again and when not.
    \<^descr>[\<open>FD_Cli\<close>] \<^verbatim>\<open>cmd/firedrill\<close> and \<^verbatim>\<open>pkg/spec/assets.go\<close>: the commands; exit codes, and what a passing gate guarantees.

  \<^bold>\<open>How the parts meet.\<close> \<open>drill_Run\<close> calls \<open>Fetch\<close> (\<open>FD_Source\<close>), a provider's \<open>Provision\<close> and \<open>Destroy\<close>, a driver's \<open>Restore\<close>, the checks' \<open>Run\<close>, and then \<open>finalize\<close>, which
  writes, signs and attests the evidence and notifies the sinks. \<open>RunAll\<close> runs it for a fleet, \<open>reconcile_run\<close> for the operator, \<open>run_cmd\<close> for the command
  line. \<open>Gate\<close> reads what \<open>finalize\<close> wrote. The labels that \<open>docker_spec\<close> gives a container are what \<open>expired\<close> reads in the collector. The properties that span these
  are stated where the last of the parts is available: \<open>FD_Lifetime\<close>, \<open>FD_Ephemeral\<close>, \<open>FD_Guarantees\<close>, \<open>FD_GC\<close>, \<open>FD_Operator\<close> and \<open>FD_Cli\<close>.

  \<^bold>\<open>Not modelled.\<close> The YAML and JSON codecs (their results are arguments or parameters with round-trip laws), the HTML template, the decompressors, age and gpg,
  cryptography, the AWS client and its configuration (\<open>s3Client\<close>), cron expressions, \<open>fmt\<close>'s rendering of a format string with its arguments (so also
  \<open>humanDur\<close> and the bar of the history, which round floating-point numbers), flag declarations, signal handling, log lines and \<^verbatim>\<open>pkg/version\<close>.
\<close>

end
